(* ===== verification/Prelude.thy ===== *)
theory Prelude
  imports Main "HOL-Library.Word" "HOL-Library.Sublist"
begin

unbundle bit_operations_syntax

text \<open>
  What the components of csi-driver-spiffe share: the Go types their signatures are
  written with (byte slices, object identifiers, the \<open>error\<close> interface), the string
  functions of package \<open>strings\<close> the code calls, and the generic lemmas on lists and
  results that carry the proofs of the components.

  Conventions.
  \<^item> A Go \<open>string\<close> is a byte string: \<^typ>\<open>string\<close>, a list of 8-bit characters.
  \<^item> A Go \<open>error\<close> result is a \<open>goerr option\<close>: \<^term>\<open>None\<close> is \<open>nil\<close>.
  \<^item> A pair \<open>(T, error)\<close> of which exactly one part is meaningful is a sum \<open>goerr + T\<close>.
  \<^item> Code that can also panic returns an \<open>outcome\<close>.
\<close>

type_synonym byte = "8 word"
type_synonym bytes = "byte list"

text \<open>\<open>asn1.ObjectIdentifier\<close> is \<open>[]int\<close>; its \<open>Equal\<close> method compares element by element.\<close>

type_synonym oid = "int list"

section \<open>Errors as values\<close>

text \<open>
  An error is what builds it in the source: \<open>Errorf fmt args\<close> is
  \<open>fmt.Errorf(fmt, args...)\<close>, \<open>Wrapf fmt args err\<close> the same with an error as the
  last argument (\<open>%w\<close>, or \<open>%v\<close> and \<open>%s\<close> of an error), \<open>ErrJoin\<close> is
  \<open>errors.Join\<close>. \<open>ErrLib\<close> is an error value that code outside the repository
  returned. Rendering an error to its text (the method \<open>Error\<close>, package \<open>fmt\<close>) is a
  parameter where the code uses the text.
\<close>

text \<open>
  \<open>cmapi.KeyUsage\<close> is a string type of cert-manager with named constants; the four the code
  names are constructors, every other usage is \<open>UsageOther\<close>.
\<close>

datatype KeyUsage =
    UsageDigitalSignature
  | UsageKeyEncipherment
  | UsageServerAuth
  | UsageClientAuth
  | UsageOther string

text \<open>\<open>pkix.Extension\<close> of package \<open>crypto/x509/pkix\<close>.\<close>

record Extension =
  ext_Id :: oid
  ext_Critical :: bool
  ext_Value :: bytes

datatype goval =
    VStr string
  | VStrs "string list"
  | VInt int
  | VOptInt "int option"
  | VBytes bytes
  | VOid oid
  | VExts "Extension list"
  | VUsages "KeyUsage list"

datatype goerr =
    ErrLib string
  | Errorf string "goval list"
  | Wrapf string "goval list" goerr
  | ErrJoin "goerr list"

text \<open>
  \<open>errors.Join\<close> returns \<open>nil\<close> when every value in errs is \<open>nil\<close> (here the list
  holds errors only), and the joined error otherwise.
\<close>

definition errors_Join :: "goerr list \<Rightarrow> goerr option" where
  "errors_Join es = (if es = [] then None else Some (ErrJoin es))"

text \<open>The result of code that returns a value, returns an error or panics.\<close>

datatype 'a outcome = Ok 'a | Fail goerr | Panic

section \<open>Package strings\<close>

text \<open>\<open>strings.Split(s, sep)\<close> for a separator of one byte.\<close>

fun Split :: "string \<Rightarrow> char \<Rightarrow> string list" where
  "Split [] sep = [[]]"
| "Split (c # cs) sep =
     (if c = sep then [] # Split cs sep
      else (case Split cs sep of [] \<Rightarrow> [[c]] | w # ws \<Rightarrow> (c # w) # ws))"

text \<open>\<open>strings.HasPrefix(s, prefix)\<close>.\<close>

definition HasPrefix :: "string \<Rightarrow> string \<Rightarrow> bool" where
  "HasPrefix s p \<longleftrightarrow> take (length p) s = p"

text \<open>\<open>strings.Join\<close>, only used to state what \<^const>\<open>Split\<close> computes.\<close>

fun joinWith :: "char \<Rightarrow> string list \<Rightarrow> string" where
  "joinWith sep [] = []"
| "joinWith sep [w] = w"
| "joinWith sep (w # ws) = w @ sep # joinWith sep ws"

section \<open>Generic lemmas\<close>

text \<open>The case splits of code that returns results: errors, optional values, pairs, panics.\<close>

lemmas result_splits = sum.splits option.splits prod.splits if_splits outcome.splits

lemma Split_not_Nil [simp]: "Split s sep \<noteq> []"
  by (induction s) (auto split: list.splits)

lemma Split_no_sep [simp]: "sep \<notin> set s \<Longrightarrow> Split s sep = [s]"
  by (induction s) auto

lemma Split_append [simp]:
  "sep \<notin> set w \<Longrightarrow> Split (w @ sep # rest) sep = w # Split rest sep"
  by (induction w) auto

lemma Split_parts_no_sep: "w \<in> set (Split s sep) \<Longrightarrow> sep \<notin> set w"
  by (induction s arbitrary: w) (auto split: list.splits if_splits)

lemma joinWith_Split [simp]: "joinWith sep (Split s sep) = s"
proof (induction s)
  case (Cons c cs)
  obtain w ws where "Split cs sep = w # ws"
    by (cases "Split cs sep") auto
  with Cons show ?case by (cases ws) auto
qed simp

lemma Split_joinWith:
  "ws \<noteq> [] \<Longrightarrow> \<forall>w\<in>set ws. sep \<notin> set w \<Longrightarrow> Split (joinWith sep ws) sep = ws"
  by (induction sep ws rule: joinWith.induct) auto

text \<open>Splitting into given parts is the same as being their join.\<close>

lemma Split_eq_iff:
  "ws \<noteq> [] \<Longrightarrow> Split s sep = ws \<longleftrightarrow> (\<forall>w\<in>set ws. sep \<notin> set w) \<and> s = joinWith sep ws"
  using Split_joinWith Split_parts_no_sep joinWith_Split by metis

lemma HasPrefix_iff: "HasPrefix s p \<longleftrightarrow> (\<exists>r. s = p @ r)"
  by (metis HasPrefix_def append_eq_conv_conj append_take_drop_id)

lemma HasPrefix_prefix: "HasPrefix s p \<longleftrightarrow> prefix p s"
  by (simp add: HasPrefix_iff prefix_def)

text \<open>A list of \<open>error\<close> values none of which is set.\<close>

abbreviation all_nil :: "goerr option list \<Rightarrow> bool" where
  "all_nil el \<equiv> list_all (\<lambda>e. e = None) el"

lemma all_nil_map_if:
  "all_nil (map (\<lambda>x. if P x then None else Some (f x)) xs) \<longleftrightarrow> list_all P xs"
  by (induction xs) auto

text \<open>The first separator of a string splits it in one way only.\<close>

lemma append_Cons_unique:
  assumes "a @ x # b = c @ x # d" and "x \<notin> set a" and "x \<notin> set c"
  shows "a = c \<and> b = d"
  using assms
proof (induction a arbitrary: c)
  case Nil
  then show ?case by (cases c) auto
next
  case (Cons y ys)
  then show ?case by (cases c) auto
qed

text \<open>Bytes and natural numbers.\<close>

lemma unat_of_nat_byte [simp]: "n < 256 \<Longrightarrow> unat (of_nat n :: byte) = n"
  by (simp add: unat_of_nat)

end
