(* ===== verification/GoASN1.thy ===== *)
theory GoASN1
  imports Prelude
begin

text \<open>
  What \<open>internal/approver/evaluator/extensions.go\<close> uses of Go's package
  \<open>encoding/asn1\<close>: \<open>asn1.Unmarshal\<close> into an \<open>asn1.RawValue\<close> and into a
  \<open>[]asn1.ObjectIdentifier\<close>, with the header parser (\<open>parseTagAndLength\<close>), the base-128
  integer parser (\<open>parseBase128Int\<close>) and the object identifier parser
  (\<open>parseObjectIdentifier\<close>) they rest on. The Go functions walk a slice with an offset; here
  each parser takes the bytes from the offset on and returns the bytes it left. The Go
  integers cannot overflow: a tag is at most \<open>math.MaxInt32\<close> and a length is below \<open>2^31\<close>,
  both enforced by the checks modelled below, so tags and lengths are \<^typ>\<open>nat\<close>.

  The second half is a DER encoder for what the parser reads, and the round trip between
  the two: it lets the properties of the validators speak of every well-formed encoding.
\<close>

section \<open>Parser\<close>

record RawValue =
  Class :: nat
  Tag :: nat
  IsCompound :: bool
  Bytes :: bytes

record tagAndLength =
  tl_class :: nat
  tl_tag :: nat
  tl_length :: nat
  tl_isCompound :: bool

definition asn1_err :: "string \<Rightarrow> goerr" where
  "asn1_err msg = Errorf msg []"

text \<open>The loop of \<open>parseBase128Int\<close>: \<open>shifted\<close> bytes were read, \<open>acc\<close> is \<open>ret64\<close>.\<close>

fun parseBase128Loop :: "nat \<Rightarrow> nat \<Rightarrow> bytes \<Rightarrow> goerr + nat \<times> bytes" where
  "parseBase128Loop shifted acc [] = Inl (asn1_err ''truncated base 128 integer'')"
| "parseBase128Loop shifted acc (b # bs) =
     (if shifted = 5 then Inl (asn1_err ''base 128 integer too large'')
      else if shifted = 0 \<and> b = 0x80 then Inl (asn1_err ''integer is not minimally encoded'')
      else let acc' = acc * 128 + unat (b AND 0x7f) in
        if b AND 0x80 = 0 then
          (if acc' > 2147483647 then Inl (asn1_err ''base 128 integer too large'')
           else Inr (acc', bs))
        else parseBase128Loop (Suc shifted) acc' bs)"

definition parseBase128Int :: "bytes \<Rightarrow> goerr + nat \<times> bytes" where
  "parseBase128Int bs = parseBase128Loop 0 0 bs"

text \<open>The loop that reads \<open>n\<close> more length bytes.\<close>

fun parseLengthLoop :: "nat \<Rightarrow> nat \<Rightarrow> bytes \<Rightarrow> goerr + nat \<times> bytes" where
  "parseLengthLoop 0 len bs = Inr (len, bs)"
| "parseLengthLoop (Suc n) len [] = Inl (asn1_err ''truncated tag or length'')"
| "parseLengthLoop (Suc n) len (b # bs) =
     (if len \<ge> 8388608 then Inl (asn1_err ''length too large'')
      else let len' = len * 256 + unat b in
        if len' = 0 then Inl (asn1_err ''superfluous leading zeros in length'')
        else parseLengthLoop n len' bs)"

definition parseLength :: "bytes \<Rightarrow> goerr + nat \<times> bytes" where
  "parseLength bs = (case bs of
     [] \<Rightarrow> Inl (asn1_err ''truncated tag or length'')
   | b # bs' \<Rightarrow>
       if b AND 0x80 = 0 then Inr (unat (b AND 0x7f), bs')
       else let numBytes = unat (b AND 0x7f) in
         if numBytes = 0 then Inl (asn1_err ''indefinite length found (not DER)'')
         else (case parseLengthLoop numBytes 0 bs' of
             Inl e \<Rightarrow> Inl e
           | Inr (len, rest) \<Rightarrow>
               if len < 0x80 then Inl (asn1_err ''non-minimal length'') else Inr (len, rest)))"

definition parseTag :: "byte \<Rightarrow> bytes \<Rightarrow> goerr + nat \<times> bytes" where
  "parseTag b bs =
     (if b AND 0x1f = 0x1f then
        (case parseBase128Int bs of
           Inl e \<Rightarrow> Inl e
         | Inr (tag, rest) \<Rightarrow>
             if tag < 0x1f then Inl (asn1_err ''non-minimal tag'') else Inr (tag, rest))
      else Inr (unat (b AND 0x1f), bs))"

definition parseTagAndLength :: "bytes \<Rightarrow> goerr + tagAndLength \<times> bytes" where
  "parseTagAndLength bs = (case bs of
     [] \<Rightarrow> Inl (asn1_err ''asn1: internal error in parseTagAndLength'')
   | b # bs' \<Rightarrow>
       (case parseTag b bs' of
          Inl e \<Rightarrow> Inl e
        | Inr (tag, rest) \<Rightarrow>
            (case parseLength rest of
               Inl e \<Rightarrow> Inl e
             | Inr (len, rest') \<Rightarrow>
                 Inr (\<lparr>tl_class = unat (drop_bit 6 b), tl_tag = tag, tl_length = len,
                       tl_isCompound = (b AND 0x20 = 0x20)\<rparr>, rest'))))"

text \<open>
  \<open>parseField\<close> for the types used here: \<open>ok\<close> is the tag check of the type (\<open>RawValue\<close>
  matches any tag). The result is the header, the content and the bytes after it.
\<close>

definition parseField :: "(tagAndLength \<Rightarrow> bool) \<Rightarrow> bytes \<Rightarrow> goerr + tagAndLength \<times> bytes \<times> bytes" where
  "parseField ok bs =
     (if bs = [] then Inl (asn1_err ''sequence truncated'')
      else case parseTagAndLength bs of
        Inl e \<Rightarrow> Inl e
      | Inr (t, rest) \<Rightarrow>
          if \<not> ok t then Inl (asn1_err ''tags don't match'')
          else if tl_length t > length rest then Inl (asn1_err ''data truncated'')
          else Inr (t, take (tl_length t) rest, drop (tl_length t) rest))"

text \<open>\<open>asn1.Unmarshal(b, &rawValue)\<close>: the value and the bytes after it.\<close>

definition UnmarshalRaw :: "bytes \<Rightarrow> goerr + RawValue \<times> bytes" where
  "UnmarshalRaw bs =
     (case parseField (\<lambda>t. True) bs of
        Inl e \<Rightarrow> Inl e
      | Inr (t, content, rest) \<Rightarrow>
          Inr (\<lparr>Class = tl_class t, Tag = tl_tag t, IsCompound = tl_isCompound t,
                Bytes = content\<rparr>, rest))"

text \<open>Every parser consumes input: the loops over a byte slice end.\<close>

lemma parseBase128Loop_shrinks:
  "parseBase128Loop k acc bs = Inr (v, rest) \<Longrightarrow> length rest < length bs"
proof (induction k acc bs rule: parseBase128Loop.induct)
  case (2 shifted acc b bs)
  then show ?case by (fastforce simp: Let_def split: if_splits)
qed simp

lemma parseLengthLoop_shrinks:
  "parseLengthLoop n len bs = Inr (v, rest) \<Longrightarrow> length rest \<le> length bs"
proof (induction n len bs rule: parseLengthLoop.induct)
  case (3 n len b bs)
  then show ?case by (fastforce simp: Let_def split: if_splits)
qed simp_all

lemma parseLength_shrinks: "parseLength bs = Inr (v, rest) \<Longrightarrow> length rest < length bs"
  by (auto simp: parseLength_def Let_def split: list.splits if_splits sum.splits
      dest!: parseLengthLoop_shrinks)

lemma parseTag_shrinks: "parseTag b bs = Inr (v, rest) \<Longrightarrow> length rest \<le> length bs"
  by (auto simp: parseTag_def parseBase128Int_def split: if_splits sum.splits
      dest!: parseBase128Loop_shrinks)

lemma parseTagAndLength_shrinks:
  "parseTagAndLength bs = Inr (t, rest) \<Longrightarrow> length rest < length bs"
  by (fastforce simp: parseTagAndLength_def split: list.splits sum.splits
      dest: parseTag_shrinks parseLength_shrinks)

lemma parseField_shrinks: "parseField ok bs = Inr (t, content, rest) \<Longrightarrow> length rest < length bs"
  by (fastforce simp: parseField_def split: if_splits sum.splits
      dest: parseTagAndLength_shrinks)

lemma UnmarshalRaw_shrinks: "UnmarshalRaw bs = Inr (v, rest) \<Longrightarrow> length rest < length bs"
  by (auto simp: UnmarshalRaw_def split: sum.splits dest: parseField_shrinks)

text \<open>
  \<open>parseObjectIdentifier\<close>: the first base-128 integer holds the first two arcs.
\<close>

function parseOIDArcs :: "bytes \<Rightarrow> goerr + oid" where
  "parseOIDArcs bs =
     (if bs = [] then Inr []
      else case parseBase128Int bs of
        Inl e \<Rightarrow> Inl e
      | Inr (v, rest) \<Rightarrow>
          (case parseOIDArcs rest of Inl e \<Rightarrow> Inl e | Inr arcs \<Rightarrow> Inr (int v # arcs)))"
  by pat_completeness auto
termination
  by (relation "measure length")
    (auto simp: parseBase128Int_def dest: parseBase128Loop_shrinks)

declare parseOIDArcs.simps [simp del]

definition parseObjectIdentifier :: "bytes \<Rightarrow> goerr + oid" where
  "parseObjectIdentifier bs =
     (if bs = [] then Inl (asn1_err ''zero length OBJECT IDENTIFIER'')
      else case parseBase128Int bs of
        Inl e \<Rightarrow> Inl e
      | Inr (v, rest) \<Rightarrow>
          (case parseOIDArcs rest of
             Inl e \<Rightarrow> Inl e
           | Inr arcs \<Rightarrow>
               if v < 80 then Inr (int (v div 40) # int (v mod 40) # arcs)
               else Inr (2 # int (v - 80) # arcs)))"

text \<open>
  \<open>parseSequenceOf\<close> for element type \<open>ObjectIdentifier\<close>: a first pass checks the header and
  the length of every element, a second one parses the elements.
\<close>

definition isOIDHeader :: "tagAndLength \<Rightarrow> bool" where
  "isOIDHeader t \<longleftrightarrow> tl_class t = 0 \<and> tl_tag t = 6 \<and> \<not> tl_isCompound t"

definition isSequenceHeader :: "tagAndLength \<Rightarrow> bool" where
  "isSequenceHeader t \<longleftrightarrow> tl_class t = 0 \<and> tl_tag t = 16 \<and> tl_isCompound t"

function checkOIDElements :: "bytes \<Rightarrow> goerr option" where
  "checkOIDElements bs =
     (if bs = [] then None
      else case parseTagAndLength bs of
        Inl e \<Rightarrow> Some e
      | Inr (t, rest) \<Rightarrow>
          if \<not> isOIDHeader t then Some (asn1_err ''sequence tag mismatch'')
          else if tl_length t > length rest then Some (asn1_err ''truncated sequence'')
          else checkOIDElements (drop (tl_length t) rest))"
  by pat_completeness auto
termination
  by (relation "measure length") (auto dest: parseTagAndLength_shrinks)

declare checkOIDElements.simps [simp del]

function parseOIDElements :: "bytes \<Rightarrow> goerr + oid list" where
  "parseOIDElements bs =
     (if bs = [] then Inr []
      else case parseField isOIDHeader bs of
        Inl e \<Rightarrow> Inl e
      | Inr (t, content, rest) \<Rightarrow>
          (case parseObjectIdentifier content of
             Inl e \<Rightarrow> Inl e
           | Inr x \<Rightarrow>
               (case parseOIDElements rest of Inl e \<Rightarrow> Inl e | Inr xs \<Rightarrow> Inr (x # xs))))"
  by pat_completeness auto
termination
  by (relation "measure length") (auto dest: parseField_shrinks)

declare parseOIDElements.simps [simp del]

text \<open>\<open>asn1.Unmarshal(b, &oids)\<close> for \<open>oids []asn1.ObjectIdentifier\<close>.\<close>

definition UnmarshalOIDs :: "bytes \<Rightarrow> goerr + oid list \<times> bytes" where
  "UnmarshalOIDs bs =
     (case parseField isSequenceHeader bs of
        Inl e \<Rightarrow> Inl e
      | Inr (t, content, rest) \<Rightarrow>
          (case checkOIDElements content of
             Some e \<Rightarrow> Inl e
           | None \<Rightarrow>
               (case parseOIDElements content of Inl e \<Rightarrow> Inl e | Inr xs \<Rightarrow> Inr (xs, rest))))"

section \<open>DER encoder and round trip\<close>

text \<open>Big-endian base 256 without leading zeros, the DER length, and one element.\<close>

fun beBytes :: "nat \<Rightarrow> bytes" where
  "beBytes n = (if n < 256 then [of_nat n] else beBytes (n div 256) @ [of_nat (n mod 256)])"

declare beBytes.simps [simp del]

definition derLength :: "nat \<Rightarrow> bytes" where
  "derLength n = (if n < 128 then [of_nat n]
                  else of_nat (128 + length (beBytes n)) # beBytes n)"

definition derElem :: "byte \<Rightarrow> bytes \<Rightarrow> bytes" where
  "derElem ident content = ident # derLength (length content) @ content"

lemma byte_and_7f: "unat (w AND 0x7f) = unat (w :: byte) mod 128"
proof -
  have "w AND 0x7f = take_bit 7 w"
    by (simp add: take_bit_eq_mask mask_eq_exp_minus_1)
  then show ?thesis by (simp add: unat_mod_distrib take_bit_eq_mod)
qed

lemma byte_and_80: "w AND 0x80 = 0 \<longleftrightarrow> unat (w :: byte) < 128"
proof
  assume "w AND 0x80 = 0"
  moreover have "w = (w AND 0x80) OR (w AND 0x7f)"
  proof -
    have "(w AND 0x80) OR (w AND 0x7f) = w AND (0x80 OR 0x7f)"
      by (simp only: bit.conj_disj_distrib)
    also have "(0x80 OR 0x7f :: byte) = - 1" by simp
    finally show ?thesis by simp
  qed
  ultimately have "w = w AND 0x7f" by simp
  then have "unat w = unat w mod 128" using byte_and_7f by metis
  then show "unat w < 128" by (metis mod_less_divisor zero_less_numeral)
next
  assume "unat w < 128"
  then have "unat (w AND 0x7f) = unat w" by (simp add: byte_and_7f)
  then have *: "w AND 0x7f = w" by (simp only: word_unat_eq_iff)
  have "w AND 0x80 = (w AND 0x7f) AND 0x80" by (simp only: *)
  then show "w AND 0x80 = 0" by (simp add: and.assoc)
qed

lemma parseLengthLoop_append:
  "parseLengthLoop (length xs) len xs = Inr (v, []) \<Longrightarrow>
   parseLengthLoop (length xs + k) len (xs @ ys) = parseLengthLoop k v ys"
proof (induction xs arbitrary: len)
  case (Cons x xs)
  then show ?case by (auto simp: Let_def split: if_splits)
qed simp

lemma parseLengthLoop_beBytes:
  "0 < n \<Longrightarrow> n < 2147483648 \<Longrightarrow> parseLengthLoop (length (beBytes n)) 0 (beBytes n) = Inr (n, [])"
proof (induction n rule: beBytes.induct)
  case (1 n)
  show ?case
  proof (cases "n < 256")
    case True
    with 1 show ?thesis by (simp add: beBytes.simps [of n])
  next
    case False
    with 1 have IH: "parseLengthLoop (length (beBytes (n div 256))) 0 (beBytes (n div 256))
        = Inr (n div 256, [])"
      by (simp add: div_greater_zero_iff)
    from False 1 have "n div 256 < 8388608" "n div 256 * 256 + n mod 256 = n" "n mod 256 < 256"
      by auto
    with 1 False show ?thesis
      by (simp add: beBytes.simps [of n]
          parseLengthLoop_append [OF IH, where k = 1, simplified])
  qed
qed

lemma length_beBytes:
  "128 \<le> n \<Longrightarrow> n < 2147483648 \<Longrightarrow> length (beBytes n) \<in> {1, 2, 3, 4}"
  by (auto simp: beBytes.simps)

lemma parseLength_derLength:
  assumes "n < 2147483648"
  shows "parseLength (derLength n @ rest) = Inr (n, rest)"
proof (cases "n < 128")
  case True
  then show ?thesis by (simp add: derLength_def parseLength_def byte_and_80 byte_and_7f)
next
  case False
  with assms have "length (beBytes n) \<in> {1, 2, 3, 4}"
    by (intro length_beBytes) simp_all
  then show ?thesis using assms False
    parseLengthLoop_append [OF parseLengthLoop_beBytes, of n 0 rest]
    by (auto simp: derLength_def parseLength_def)
qed


text \<open>The header fields an identifier byte in the low-tag-number form stands for.\<close>

definition rawOf :: "byte \<Rightarrow> bytes \<Rightarrow> RawValue" where
  "rawOf ident content =
     \<lparr>Class = unat (drop_bit 6 ident), Tag = unat (ident AND 0x1f),
      IsCompound = (ident AND 0x20 = 0x20), Bytes = content\<rparr>"

lemma parseTagAndLength_derElem:
  assumes "ident AND 0x1f \<noteq> 0x1f" and "length content < 2147483648"
  shows "parseTagAndLength (derElem ident content @ rest) =
     Inr (\<lparr>tl_class = unat (drop_bit 6 ident), tl_tag = unat (ident AND 0x1f),
           tl_length = length content, tl_isCompound = (ident AND 0x20 = 0x20)\<rparr>, content @ rest)"
  using assms by (simp add: parseTagAndLength_def derElem_def parseTag_def parseLength_derLength)

lemma derElem_not_Nil [simp]: "derElem ident content \<noteq> []"
  by (simp add: derElem_def)

lemma length_derElem [simp]:
  "length (derElem ident content) = Suc (length (derLength (length content)) + length content)"
  by (simp add: derElem_def)

lemma UnmarshalRaw_derElem:
  assumes "ident AND 0x1f \<noteq> 0x1f" and "length content < 2147483648"
  shows "UnmarshalRaw (derElem ident content @ rest) = Inr (rawOf ident content, rest)"
  using assms by (simp add: UnmarshalRaw_def parseField_def parseTagAndLength_derElem rawOf_def)


text \<open>
  Object identifiers: base-128 digits, all but the last with the continuation bit set.
\<close>

fun contDigits :: "nat \<Rightarrow> bytes" where
  "contDigits n = (if n < 128 then [of_nat (128 + n)]
                   else contDigits (n div 128) @ [of_nat (128 + n mod 128)])"

declare contDigits.simps [simp del]

definition base128 :: "nat \<Rightarrow> bytes" where
  "base128 n = (if n < 128 then [of_nat n] else contDigits (n div 128) @ [of_nat (n mod 128)])"

fun derOIDContent :: "oid \<Rightarrow> bytes" where
  "derOIDContent (a # b # arcs) = base128 (nat (40 * a + b)) @ concat (map (base128 \<circ> nat) arcs)"
| "derOIDContent _ = []"

text \<open>The identifiers that have a DER encoding the Go parser reads back.\<close>

fun validOID :: "oid \<Rightarrow> bool" where
  "validOID (a # b # arcs) \<longleftrightarrow>
     (a \<in> {0, 1} \<and> 0 \<le> b \<and> b < 40 \<or> a = 2 \<and> 0 \<le> b \<and> b \<le> 2147483567)
     \<and> (\<forall>x\<in>set arcs. 0 \<le> x \<and> x \<le> 2147483647)"
| "validOID _ \<longleftrightarrow> False"

definition derOIDs :: "oid list \<Rightarrow> bytes" where
  "derOIDs oids = derElem 0x30 (concat (map (derElem 0x06 \<circ> derOIDContent) oids))"

lemma parseBase128Loop_contDigits:
  "0 < n \<Longrightarrow> k + length (contDigits n) \<le> 5 \<Longrightarrow>
   parseBase128Loop k acc (contDigits n @ rest) =
   parseBase128Loop (k + length (contDigits n)) (acc * 128 ^ length (contDigits n) + n) rest"
proof (induction n arbitrary: rest rule: contDigits.induct)
  case (1 n)
  show ?case
  proof (cases "n < 128")
    case True
    have "(of_nat (128 + n) :: byte) = 0x80 \<longleftrightarrow> n = 0"
      using True by (simp add: word_unat_eq_iff del: of_nat_add)
    with 1 True show ?thesis
      by (simp add: contDigits.simps [of n] byte_and_80 byte_and_7f del: of_nat_add)
  next
    case False
    with 1 have "parseBase128Loop k acc (contDigits (n div 128) @ of_nat (128 + n mod 128) # rest) =
       parseBase128Loop (k + length (contDigits (n div 128)))
         (acc * 128 ^ length (contDigits (n div 128)) + n div 128)
         (of_nat (128 + n mod 128) # rest)"
      by (simp add: contDigits.simps [of n] div_greater_zero_iff del: of_nat_add)
    moreover have "contDigits (n div 128) \<noteq> []" by (subst contDigits.simps) simp
    ultimately show ?thesis using 1 False
      by (simp add: contDigits.simps [of n] byte_and_80 byte_and_7f algebra_simps del: of_nat_add)
  qed
qed


lemma length_contDigits: "n < 16777216 \<Longrightarrow> length (contDigits n) \<le> 4"
  by (simp add: contDigits.simps)

lemma base128_not_Nil [simp]: "base128 n \<noteq> []"
  by (simp add: base128_def)

lemma parseBase128Int_base128 [simp]:
  assumes "n \<le> 2147483647"
  shows "parseBase128Int (base128 n @ rest) = Inr (n, rest)"
proof (cases "n < 128")
  case True
  then have "(of_nat n :: byte) \<noteq> 0x80" by (simp add: word_unat_eq_iff)
  with True show ?thesis
    by (simp add: parseBase128Int_def base128_def byte_and_80 byte_and_7f)
next
  case False
  with assms have "0 < n div 128" and len: "length (contDigits (n div 128)) \<le> 4"
    by (auto intro: length_contDigits simp: div_greater_zero_iff)
  moreover have "contDigits (n div 128) \<noteq> []" by (subst contDigits.simps) simp
  ultimately show ?thesis using assms False
    by (simp add: parseBase128Int_def base128_def parseBase128Loop_contDigits
        byte_and_80 byte_and_7f)
qed

lemma parseOIDArcs_Cons:
  "n \<le> 2147483647 \<Longrightarrow> parseOIDArcs (base128 n @ rest) =
     (case parseOIDArcs rest of Inl e \<Rightarrow> Inl e | Inr arcs \<Rightarrow> Inr (int n # arcs))"
  by (subst parseOIDArcs.simps) simp

lemma parseOIDArcs_base128:
  "\<forall>x\<in>set arcs. 0 \<le> x \<and> x \<le> 2147483647 \<Longrightarrow>
   parseOIDArcs (concat (map (base128 \<circ> nat) arcs)) = Inr arcs"
  by (induction arcs) (simp_all add: parseOIDArcs_Cons nat_le_iff parseOIDArcs.simps [of "[]"])

lemma parseObjectIdentifier_derOIDContent [simp]:
  assumes "validOID x"
  shows "parseObjectIdentifier (derOIDContent x) = Inr x"
proof (cases x rule: validOID.cases)
  case (1 a b arcs)
  with assms obtain m where b: "b = int m" by (auto elim: nonneg_int_cases)
  from 1 assms show ?thesis
    by (auto simp: parseObjectIdentifier_def parseOIDArcs_base128 b nat_add_distrib)
qed (use assms in simp_all)

abbreviation derOIDElem :: "oid \<Rightarrow> bytes" where
  "derOIDElem x \<equiv> derElem 0x06 (derOIDContent x)"

lemma parseField_derElem:
  assumes "ident AND 0x1f \<noteq> 0x1f" and "length content < 2147483648"
    and "ok \<lparr>tl_class = unat (drop_bit 6 ident), tl_tag = unat (ident AND 0x1f),
             tl_length = length content, tl_isCompound = (ident AND 0x20 = 0x20)\<rparr>"
  shows "\<exists>t. parseField ok (derElem ident content @ rest) = Inr (t, content, rest)"
  using assms by (simp add: parseField_def parseTagAndLength_derElem)

lemma checkOIDElements_derOIDs:
  "length (concat (map derOIDElem oids)) < 2147483648 \<Longrightarrow>
   checkOIDElements (concat (map derOIDElem oids)) = None"
  by (induction oids)
    (simp_all add: checkOIDElements.simps parseTagAndLength_derElem isOIDHeader_def)

lemma parseOIDElements_derOIDs:
  "length (concat (map derOIDElem oids)) < 2147483648 \<Longrightarrow> list_all validOID oids \<Longrightarrow>
   parseOIDElements (concat (map derOIDElem oids)) = Inr oids"
proof (induction oids)
  case (Cons x xs)
  then obtain t where "parseField isOIDHeader (derOIDElem x @ concat (map derOIDElem xs))
      = Inr (t, derOIDContent x, concat (map derOIDElem xs))"
    using parseField_derElem [of "0x06" "derOIDContent x" isOIDHeader] by (auto simp: isOIDHeader_def)
  with Cons show ?case by (simp add: parseOIDElements.simps)
qed (simp add: parseOIDElements.simps)

lemma UnmarshalOIDs_derOIDs:
  assumes "list_all validOID oids" and "length (concat (map derOIDElem oids)) < 2147483648"
  shows "UnmarshalOIDs (derOIDs oids @ rest) = Inr (oids, rest)"
proof -
  obtain t where "parseField isSequenceHeader (derOIDs oids @ rest)
      = Inr (t, concat (map derOIDElem oids), rest)"
    using parseField_derElem [of "0x30" "concat (map derOIDElem oids)" isSequenceHeader] assms(2)
    by (auto simp: isSequenceHeader_def derOIDs_def comp_def)
  with assms show ?thesis
    by (simp add: UnmarshalOIDs_def checkOIDElements_derOIDs parseOIDElements_derOIDs)
qed

end
