(* ===== verification/GoURL.thy ===== *)
theory GoURL
  imports Prelude
begin

text \<open>
  What the program uses of Go's package \<open>net/url\<close>: the \<open>URL\<close> structure, its method
  \<open>String\<close> with the percent-encoding functions below it (\<open>shouldEscape\<close>, \<open>escape\<close>,
  \<open>unescape\<close>, \<open>validEncoded\<close>, \<open>EscapedPath\<close>, \<open>EscapedFragment\<close>), used by the evaluator, and
  \<open>url.Parse\<close>, used by the driver. Host texts with a colon or a bracket (ports and IP literals)
  are read by the argument \<open>special\<close> of \<open>parseHost\<close>, since their rules depend on the release.
  On plain URLs \<open>url_Parse\<close> and \<open>url_String\<close> are inverse.
\<close>

section \<open>Percent encoding\<close>

datatype encoding = encodePath | encodeHost | encodeUserPassword | encodeFragment

definition isAlnum :: "char \<Rightarrow> bool" where
  "isAlnum c \<longleftrightarrow> (let n = (of_char c :: nat) in
     97 \<le> n \<and> n \<le> 122 \<or> 65 \<le> n \<and> n \<le> 90 \<or> 48 \<le> n \<and> n \<le> 57)"

definition shouldEscape :: "char \<Rightarrow> encoding \<Rightarrow> bool" where
  "shouldEscape c mode =
     (if isAlnum c then False
      else if mode = encodeHost \<and> c \<in> set ''!$&()*+,;=:[]<>'' \<union> {CHR 0x27, CHR 0x22} then False
      else if c \<in> set ''-_.~'' then False
      else if c \<in> set ''$&+,/:;=?@'' \<and> mode = encodePath then c = CHR ''?''
      else if c \<in> set ''$&+,/:;=?@'' \<and> mode = encodeUserPassword then c \<in> set ''@/?:''
      else if c \<in> set ''$&+,/:;=?@'' \<and> mode = encodeFragment then False
      else if mode = encodeFragment \<and> c \<in> set ''!()*'' then False
      else True)"

definition upperhex :: "nat \<Rightarrow> char" where
  "upperhex n = ''0123456789ABCDEF'' ! n"

fun escape :: "string \<Rightarrow> encoding \<Rightarrow> string" where
  "escape [] mode = []"
| "escape (c # cs) mode =
     (if shouldEscape c mode
      then CHR ''%'' # upperhex (of_char c div 16) # upperhex (of_char c mod 16) # escape cs mode
      else c # escape cs mode)"

definition unhex :: "char \<Rightarrow> nat option" where
  "unhex c = (let n = (of_char c :: nat) in
     if 48 \<le> n \<and> n \<le> 57 then Some (n - 48)
     else if 97 \<le> n \<and> n \<le> 102 then Some (n - 97 + 10)
     else if 65 \<le> n \<and> n \<le> 70 then Some (n - 65 + 10)
     else None)"

text \<open>
  \<open>unescape\<close> in the path and fragment modes (the ones \<open>String\<close> reaches); \<^term>\<open>None\<close> is an
  \<open>EscapeError\<close>.
\<close>

fun unescape :: "string \<Rightarrow> string option" where
  "unescape [] = Some []"
| "unescape (c # cs) =
     (if c = CHR ''%'' then
        (case cs of
           h # l # rest \<Rightarrow>
             (case (unhex h, unhex l) of
                (Some x, Some y) \<Rightarrow> map_option ((#) (char_of (16 * x + y))) (unescape rest)
              | _ \<Rightarrow> None)
         | _ \<Rightarrow> None)
      else map_option ((#) c) (unescape cs))"

definition validEncoded :: "string \<Rightarrow> encoding \<Rightarrow> bool" where
  "validEncoded s mode \<longleftrightarrow>
     list_all (\<lambda>c. c \<in> set ''!$&()*+,;=:@[]%'' \<union> {CHR 0x27} \<or> \<not> shouldEscape c mode) s"

section \<open>URL\<close>

record Userinfo =
  ui_username :: string
  ui_password :: string
  ui_passwordSet :: bool

record URL =
  u_Scheme :: string
  u_Opaque :: string
  u_User :: "Userinfo option"
  u_Host :: string
  u_Path :: string
  u_RawPath :: string
  u_OmitHost :: bool
  u_ForceQuery :: bool
  u_RawQuery :: string
  u_Fragment :: string
  u_RawFragment :: string

definition Userinfo_String :: "Userinfo \<Rightarrow> string" where
  "Userinfo_String u =
     (if ui_username u \<noteq> [] \<or> ui_password u \<noteq> []
      then escape (ui_username u) encodeUserPassword
           @ (if ui_passwordSet u then CHR '':'' # escape (ui_password u) encodeUserPassword else [])
      else [])"

definition EscapedPath :: "URL \<Rightarrow> string" where
  "EscapedPath u =
     (if u_RawPath u \<noteq> [] \<and> validEncoded (u_RawPath u) encodePath
         \<and> unescape (u_RawPath u) = Some (u_Path u) then u_RawPath u
      else if u_Path u = ''*'' then ''*''
      else escape (u_Path u) encodePath)"

definition EscapedFragment :: "URL \<Rightarrow> string" where
  "EscapedFragment u =
     (if u_RawFragment u \<noteq> [] \<and> validEncoded (u_RawFragment u) encodeFragment
         \<and> unescape (u_RawFragment u) = Some (u_Fragment u) then u_RawFragment u
      else escape (u_Fragment u) encodeFragment)"

text \<open>The text \<open>String\<close> writes before the path, for a URL with no opaque part.\<close>

definition authorityPart :: "URL \<Rightarrow> string" where
  "authorityPart u =
     (if u_Scheme u \<noteq> [] \<or> u_Host u \<noteq> [] \<or> u_User u \<noteq> None then
        (if u_OmitHost u \<and> u_Host u = [] \<and> u_User u = None then []
         else (if u_Host u \<noteq> [] \<or> u_Path u \<noteq> [] \<or> u_User u \<noteq> None then ''//'' else [])
              @ (case u_User u of None \<Rightarrow> [] | Some ui \<Rightarrow> Userinfo_String ui @ ''@'')
              @ (if u_Host u \<noteq> [] then escape (u_Host u) encodeHost else []))
      else [])"

definition schemePart :: "URL \<Rightarrow> string" where
  "schemePart u = (if u_Scheme u \<noteq> [] then u_Scheme u @ '':'' else [])"

text \<open>The text of the path, after \<open>buf\<close> was written.\<close>

definition pathPart :: "URL \<Rightarrow> string \<Rightarrow> string" where
  "pathPart u buf =
     (let path = EscapedPath u;
          slash = (if path \<noteq> [] \<and> hd path \<noteq> CHR ''/'' \<and> u_Host u \<noteq> [] then ''/'' else [])
      in slash
         @ (if buf @ slash = [] \<and> CHR '':'' \<in> set (takeWhile (\<lambda>c. c \<noteq> CHR ''/'') path)
            then ''./'' else [])
         @ path)"

definition url_String :: "URL \<Rightarrow> string" where
  "url_String u =
     (schemePart u
      @ (if u_Opaque u \<noteq> [] then u_Opaque u
         else authorityPart u @ pathPart u (schemePart u @ authorityPart u)))
     @ (if u_ForceQuery u \<or> u_RawQuery u \<noteq> [] then CHR ''?'' # u_RawQuery u else [])
     @ (if u_Fragment u \<noteq> [] then CHR ''#'' # EscapedFragment u else [])"

section \<open>Parse\<close>

text \<open>\<open>strings.Cut\<close> and the split before the last separator, at one character.\<close>

definition cutAt :: "char \<Rightarrow> string \<Rightarrow> string \<times> string" where
  "cutAt c s = (takeWhile (\<lambda>x. x \<noteq> c) s, drop 1 (dropWhile (\<lambda>x. x \<noteq> c) s))"

definition cutLast :: "char \<Rightarrow> string \<Rightarrow> string \<times> string" where
  "cutLast c s = (let (a, b) = cutAt c (rev s) in (rev b, rev a))"

definition isLetter :: "char \<Rightarrow> bool" where
  "isLetter c \<longleftrightarrow> (let n = (of_char c :: nat) in 97 \<le> n \<and> n \<le> 122 \<or> 65 \<le> n \<and> n \<le> 90)"

definition lowerASCII :: "char \<Rightarrow> char" where
  "lowerASCII c = (let n = (of_char c :: nat) in if 65 \<le> n \<and> n \<le> 90 then char_of (n + 32) else c)"

definition getScheme :: "string \<Rightarrow> goerr + string \<times> string" where
  "getScheme s =
     (let scheme = takeWhile (\<lambda>c. isAlnum c \<or> c \<in> set ''+-.'') s;
          rest = dropWhile (\<lambda>c. isAlnum c \<or> c \<in> set ''+-.'') s in
      if scheme \<noteq> [] \<and> \<not> isLetter (hd scheme) then Inr ([], s)
      else if rest = [] \<or> hd rest \<noteq> CHR '':'' then Inr ([], s)
      else if scheme = [] then Inl (ErrLib ''missing protocol scheme'')
      else Inr (scheme, tl rest))"

fun unescapeHost :: "string \<Rightarrow> goerr + string" where
  "unescapeHost [] = Inr []"
| "unescapeHost (c # cs) =
     (if c = CHR ''%'' then
        (case cs of
           h # l # rest \<Rightarrow>
             (case (unhex h, unhex l) of
                (Some x, Some y) \<Rightarrow>
                  if x < 8 \<and> \<not> (h = CHR ''2'' \<and> l = CHR ''5'') then Inl (ErrLib ''invalid URL escape'')
                  else map_sum id ((#) (char_of (16 * x + y))) (unescapeHost rest)
              | _ \<Rightarrow> Inl (ErrLib ''invalid URL escape''))
         | _ \<Rightarrow> Inl (ErrLib ''invalid URL escape''))
      else if (of_char c :: nat) < 128 \<and> shouldEscape c encodeHost
      then Inl (ErrLib ''invalid character in host name'')
      else map_sum id ((#) c) (unescapeHost cs))"

definition parseHost :: "(string \<Rightarrow> goerr + string) \<Rightarrow> string \<Rightarrow> goerr + string" where
  "parseHost special host =
     (if CHR ''['' \<in> set host \<or> CHR '':'' \<in> set host then special host else unescapeHost host)"

definition unescapeOr :: "string \<Rightarrow> goerr + string" where
  "unescapeOr s =
     (case unescape s of None \<Rightarrow> Inl (ErrLib ''invalid URL escape'') | Some t \<Rightarrow> Inr t)"

definition validUserinfo :: "string \<Rightarrow> bool" where
  "validUserinfo s \<longleftrightarrow> list_all (\<lambda>c. isAlnum c \<or> c \<in> set ''-._:~!$&()*+,;=%@'' \<union> {CHR 0x27}) s"

definition parseUserinfo :: "string \<Rightarrow> goerr + Userinfo" where
  "parseUserinfo s =
     (if \<not> validUserinfo s then Inl (ErrLib ''net/url: invalid userinfo'')
      else if CHR '':'' \<notin> set s
      then (case unescapeOr s of
              Inl e \<Rightarrow> Inl e
            | Inr u \<Rightarrow> Inr \<lparr>ui_username = u, ui_password = [], ui_passwordSet = False\<rparr>)
      else let (name, pass) = cutAt (CHR '':'') s in
        case unescapeOr name of
          Inl e \<Rightarrow> Inl e
        | Inr u \<Rightarrow> (case unescapeOr pass of
              Inl e \<Rightarrow> Inl e
            | Inr w \<Rightarrow> Inr \<lparr>ui_username = u, ui_password = w, ui_passwordSet = True\<rparr>))"

definition parseAuthority ::
    "(string \<Rightarrow> goerr + string) \<Rightarrow> string \<Rightarrow> goerr + Userinfo option \<times> string" where
  "parseAuthority special authority =
     (if CHR ''@'' \<notin> set authority
      then map_sum id (\<lambda>h. (None, h)) (parseHost special authority)
      else let (userinfo, host) = cutLast (CHR ''@'') authority in
        case parseHost special host of
          Inl e \<Rightarrow> Inl e
        | Inr h \<Rightarrow> map_sum id (\<lambda>ui. (Some ui, h)) (parseUserinfo userinfo))"

definition emptyURL :: URL where
  "emptyURL =
     \<lparr>u_Scheme = [], u_Opaque = [], u_User = None, u_Host = [], u_Path = [], u_RawPath = [],
      u_OmitHost = False, u_ForceQuery = False, u_RawQuery = [], u_Fragment = [], u_RawFragment = []\<rparr>"

definition setPath :: "string \<Rightarrow> URL \<Rightarrow> goerr + URL" where
  "setPath p u =
     map_sum id (\<lambda>path. u\<lparr>u_Path := path, u_RawPath := (if p = escape path encodePath then [] else p)\<rparr>)
       (unescapeOr p)"

definition setFragment :: "string \<Rightarrow> URL \<Rightarrow> goerr + URL" where
  "setFragment f u =
     map_sum id (\<lambda>frag. u\<lparr>u_Fragment := frag,
                          u_RawFragment := (if f = escape frag encodeFragment then [] else f)\<rparr>)
       (unescapeOr f)"

text \<open>The part of \<open>parse\<close> after the scheme and the query were cut off.\<close>

definition parseRest :: "(string \<Rightarrow> goerr + string) \<Rightarrow> string \<Rightarrow> URL \<Rightarrow> goerr + URL" where
  "parseRest special rest u =
     (if \<not> HasPrefix rest ''/'' \<and> u_Scheme u \<noteq> [] then Inr (u\<lparr>u_Opaque := rest\<rparr>)
      else if \<not> HasPrefix rest ''/'' \<and> CHR '':'' \<in> set (fst (cutAt (CHR ''/'') rest))
      then Inl (ErrLib ''first path segment in URL cannot contain colon'')
      else if (u_Scheme u \<noteq> [] \<or> \<not> HasPrefix rest ''///'') \<and> HasPrefix rest ''//''
      then let authority = takeWhile (\<lambda>c. c \<noteq> CHR ''/'') (drop 2 rest);
               path = dropWhile (\<lambda>c. c \<noteq> CHR ''/'') (drop 2 rest) in
        (case parseAuthority special authority of
           Inl e \<Rightarrow> Inl e
         | Inr (ui, h) \<Rightarrow> setPath path (u\<lparr>u_User := ui, u_Host := h\<rparr>))
      else setPath rest
             (if u_Scheme u \<noteq> [] \<and> HasPrefix rest ''/'' then u\<lparr>u_OmitHost := True\<rparr> else u))"

definition parseURL :: "(string \<Rightarrow> goerr + string) \<Rightarrow> string \<Rightarrow> goerr + URL" where
  "parseURL special raw =
     (if list_ex (\<lambda>c. (of_char c :: nat) < 32 \<or> (of_char c :: nat) = 127) raw
      then Inl (ErrLib ''net/url: invalid control character in URL'')
      else if raw = ''*'' then Inr (emptyURL\<lparr>u_Path := ''*''\<rparr>)
      else case getScheme raw of
        Inl e \<Rightarrow> Inl e
      | Inr (scheme, rest) \<Rightarrow>
          let u = emptyURL\<lparr>u_Scheme := map lowerASCII scheme\<rparr> in
          if rest \<noteq> [] \<and> last rest = CHR ''?'' \<and> CHR ''?'' \<notin> set (butlast rest)
          then parseRest special (butlast rest) (u\<lparr>u_ForceQuery := True\<rparr>)
          else let (rest', query) = cutAt (CHR ''?'') rest in
            parseRest special rest' (u\<lparr>u_RawQuery := query\<rparr>))"

definition url_Parse :: "(string \<Rightarrow> goerr + string) \<Rightarrow> string \<Rightarrow> goerr + URL" where
  "url_Parse special rawURL =
     (let (raw, frag) = cutAt (CHR ''#'') rawURL in
      case parseURL special raw of
        Inl e \<Rightarrow> Inl (Wrapf ''parse %q: %s'' [VStr raw] e)
      | Inr u \<Rightarrow>
          if frag = [] then Inr u
          else case setFragment frag u of
            Inl e \<Rightarrow> Inl (Wrapf ''parse %q: %s'' [VStr rawURL] e)
          | Inr u' \<Rightarrow> Inr u')"

section \<open>Plain URLs\<close>

text \<open>
  A component is plain when it is made of unreserved characters: letters, digits and
  \<open>- . _ ~\<close>. Kubernetes names and DNS names are plain. \<open>hierURL\<close> is the URL of a scheme,
  a host and a path and nothing else.
\<close>

definition plainChar :: "char \<Rightarrow> bool" where
  "plainChar c \<longleftrightarrow> isAlnum c \<or> c \<in> set ''-_.~''"

abbreviation plain :: "string \<Rightarrow> bool" where
  "plain s \<equiv> list_all plainChar s"

abbreviation plainPath :: "string \<Rightarrow> bool" where
  "plainPath s \<equiv> list_all (\<lambda>c. plainChar c \<or> c = CHR ''/'') s"

definition hierURL :: "string \<Rightarrow> string \<Rightarrow> string \<Rightarrow> URL" where
  "hierURL scheme host path =
     \<lparr>u_Scheme = scheme, u_Opaque = [], u_User = None, u_Host = host, u_Path = path,
      u_RawPath = [], u_OmitHost = False, u_ForceQuery = False, u_RawQuery = [],
      u_Fragment = [], u_RawFragment = []\<rparr>"

lemma shouldEscape_plain [simp]: "plainChar c \<Longrightarrow> \<not> shouldEscape c mode"
  by (auto simp: plainChar_def shouldEscape_def)

lemma shouldEscape_slash [simp]: "\<not> shouldEscape (CHR ''/'') encodePath"
  by (simp add: shouldEscape_def)

lemma escape_id: "list_all (\<lambda>c. \<not> shouldEscape c mode) s \<Longrightarrow> escape s mode = s"
  by (induction s) auto

lemma escape_plain [simp]: "plain s \<Longrightarrow> escape s mode = s"
  by (rule escape_id) (auto simp: list_all_iff)

lemma escape_plainPath [simp]: "plainPath s \<Longrightarrow> escape s encodePath = s"
  by (rule escape_id) (auto simp: list_all_iff)

lemma url_String_hierURL:
  assumes "scheme \<noteq> []" and "plain host" and "host \<noteq> []" and "plainPath path" and "path \<noteq> []"
    and "hd path = CHR ''/''"
  shows "url_String (hierURL scheme host path) = scheme @ ''://'' @ host @ path"
proof -
  have "path \<noteq> ''*''" using assms(6) by auto
  with assms show ?thesis
    by (simp add: url_String_def hierURL_def schemePart_def authorityPart_def pathPart_def
        EscapedPath_def Let_def)
qed

text \<open>Parsing a plain URL.\<close>

lemma plainChar_noteq:
  "plainChar c \<Longrightarrow> c \<notin> set ''%/:@?#[''"
  by (auto simp: plainChar_def isAlnum_def)

lemma unescape_id: "CHR ''%'' \<notin> set s \<Longrightarrow> unescape s = Some s"
  by (induction s) auto

lemma unescapeHost_plain: "plain s \<Longrightarrow> unescapeHost s = Inr s"
  by (induction s) (auto dest: plainChar_noteq)

lemma cutAt_absent: "c \<notin> set s \<Longrightarrow> cutAt c s = (s, [])"
  by (induction s) (auto simp: cutAt_def)

lemma plain_not_control:
  "plainChar c \<Longrightarrow> \<not> ((of_char c :: nat) < 32 \<or> (of_char c :: nat) = 127)"
  by (auto simp: plainChar_def isAlnum_def Let_def)

definition exampleSpecial :: "string \<Rightarrow> goerr + string" where
  "exampleSpecial h = Inl (ErrLib h)"

lemma plainPath_noteq: "plainPath s \<Longrightarrow> c \<in> set ''%:@?#['' \<Longrightarrow> c \<notin> set s"
  by (fastforce simp: list_all_iff plainChar_def isAlnum_def)

lemma plain_noteq: "plain s \<Longrightarrow> c \<in> set ''%/:@?#['' \<Longrightarrow> c \<notin> set s"
  by (fastforce simp: list_all_iff plainChar_def isAlnum_def)

lemma parseAuthority_plain: "plain host \<Longrightarrow> parseAuthority special host = Inr (None, host)"
  using plain_noteq [of host]
  by (simp add: parseAuthority_def parseHost_def unescapeHost_plain)

lemma setPath_plain:
  "plainPath path \<Longrightarrow> setPath path u = Inr (u\<lparr>u_Path := path, u_RawPath := []\<rparr>)"
  using plainPath_noteq [of path "CHR ''%''"]
  by (simp add: setPath_def unescapeOr_def unescape_id)

lemma parseRest_plain:
  assumes "plain host" and "plainPath path" and "path \<noteq> []" and "hd path = CHR ''/''" and "u_Scheme u \<noteq> []"
  shows "parseRest special (''//'' @ host @ path) u =
    Inr (u\<lparr>u_User := None, u_Host := host, u_Path := path, u_RawPath := []\<rparr>)"
proof -
  have "CHR ''/'' \<notin> set host" using plain_noteq [OF assms(1)] by simp
  moreover obtain p where "path = CHR ''/'' # p" using assms(3,4) by (cases path) auto
  ultimately have "takeWhile (\<lambda>c. c \<noteq> CHR ''/'') (host @ path) = host"
    "dropWhile (\<lambda>c. c \<noteq> CHR ''/'') (host @ path) = path"
    by (induction host) auto
  with assms show ?thesis
    by (simp add: parseRest_def HasPrefix_def parseAuthority_plain setPath_plain)
qed

lemma getScheme_spiffe: "getScheme (''spiffe:'' @ rest) = Inr (''spiffe'', rest)"
  by (simp add: getScheme_def isAlnum_def isLetter_def)

lemma url_Parse_plain:
  assumes "plain host" and "plainPath path" and "path \<noteq> []" and "hd path = CHR ''/''"
  shows "url_Parse special (''spiffe://'' @ host @ path) = Inr (hierURL ''spiffe'' host path)"
proof -
  let ?rest = "''//'' @ host @ path" and ?raw = "''spiffe://'' @ host @ path"
  have absent: "c \<notin> set ?raw" if "c \<in> set ''?#''" for c
    using plain_noteq [OF assms(1), of c] plainPath_noteq [OF assms(2), of c] that by auto
  have "\<not> list_ex (\<lambda>c. (of_char c :: nat) < 32 \<or> (of_char c :: nat) = 127) ?raw"
    using assms(1,2) by (auto simp: list_ex_iff list_all_iff dest: plain_not_control)
  moreover have "CHR ''?'' \<notin> set ?rest" using absent [of "CHR ''?''"] by simp
  moreover from this have "last ?rest \<noteq> CHR ''?''" by (metis last_in_set append_is_Nil_conv list.discI)
  ultimately have "parseURL special ?raw = Inr (hierURL ''spiffe'' host path)"
    using parseRest_plain [OF assms] getScheme_spiffe [of ?rest]
    by (simp add: parseURL_def cutAt_absent emptyURL_def hierURL_def lowerASCII_def)
  moreover have "cutAt (CHR ''#'') ?raw = (?raw, [])"
    using absent [of "CHR ''#''"] by (intro cutAt_absent) simp
  ultimately show ?thesis by (simp only: url_Parse_def Let_def prod.case sum.case if_True simp_thms)
qed

end
