(* ===== verification/APITypes.thy ===== *)
theory APITypes
  imports GoURL
begin

text \<open>
  The data the two programs exchange: the X.509 certificate signing request of package
  \<open>crypto/x509\<close> as a Go value, cert-manager's \<open>CertificateRequest\<close> resource and issuer
  reference, and the annotation keys of \<open>internal/annotations/annotations.go\<close>. Only fields
  the code reads or writes are kept.
\<close>

section \<open>crypto/x509\<close>

record Name =
  name_CommonName :: string
  name_OtherRDNs :: "(oid \<times> string) list"

record X509CSR =
  csr_Subject :: Name
  csr_Extensions :: "Extension list"
  csr_ExtraExtensions :: "Extension list"
  csr_DNSNames :: "string list"
  csr_EmailAddresses :: "string list"
  csr_IPAddresses :: "string list"
  csr_URIs :: "URL list"

text \<open>The zero value of the structure, \<open>x509.CertificateRequest{}\<close>.\<close>

definition emptyName :: Name where
  "emptyName = \<lparr>name_CommonName = [], name_OtherRDNs = []\<rparr>"

definition emptyCSR :: X509CSR where
  "emptyCSR = \<lparr>csr_Subject = emptyName, csr_Extensions = [], csr_ExtraExtensions = [],
     csr_DNSNames = [], csr_EmailAddresses = [], csr_IPAddresses = [], csr_URIs = []\<rparr>"

section \<open>cert-manager API types\<close>

record IssuerReference =
  ir_Name :: string
  ir_Kind :: string
  ir_Group :: string

datatype ConditionType = ConditionApproved | ConditionDenied | ConditionOther string

datatype ConditionStatus = ConditionTrue | ConditionFalse | ConditionUnknown

record Condition =
  cond_Type :: ConditionType
  cond_Status :: ConditionStatus
  cond_Reason :: string
  cond_Message :: string

record CertificateRequest =
  cr_Namespace :: string
  cr_Name :: string
  cr_ResourceVersion :: nat  \<comment> \<open>changes with every write to the API server\<close>
  cr_Annotations :: "string \<rightharpoonup> string"
  cr_Request :: bytes
  cr_Duration :: "int option"
  cr_IsCA :: bool
  cr_Usages :: "KeyUsage list"
  cr_Username :: string
  cr_IssuerRef :: IssuerReference
  cr_Conditions :: "Condition list"

section \<open>internal/annotations\<close>

definition annotations_Prefix :: string where
  "annotations_Prefix = ''spiffe.csi.cert-manager.io''"

definition SPIFFEIdentityAnnnotationKey :: string where
  "SPIFFEIdentityAnnnotationKey = ''spiffe.csi.cert-manager.io/identity''"

lemma identity_key_has_prefix: "HasPrefix SPIFFEIdentityAnnnotationKey annotations_Prefix"
  by (simp add: HasPrefix_def SPIFFEIdentityAnnnotationKey_def annotations_Prefix_def)

end
