(* ===== verification/Extensions.thy ===== *)
theory Extensions
  imports GoASN1 APITypes
begin

text \<open>
  \<open>internal/approver/evaluator/extensions.go\<close>: which X.509 extensions a certificate signing
  request may carry. \<open>utilerrors.NewAggregate\<close> (k8s.io/apimachinery) is the parameter \<open>na\<close>;
  what the code relies on is the predicate \<open>NewAggregate_ok\<close>: the aggregate is \<open>nil\<close> exactly
  when no error of the list is set.
\<close>

section \<open>Definitions\<close>

definition asn1TagURI :: nat where
  "asn1TagURI = 6"

definition oidExtensionKeyUsage :: oid where
  "oidExtensionKeyUsage = [2, 5, 29, 15]"

definition oidExtensionExtendedKeyUsage :: oid where
  "oidExtensionExtendedKeyUsage = [2, 5, 29, 37]"

definition oidExtensionSubjectAltName :: oid where
  "oidExtensionSubjectAltName = [2, 5, 29, 17]"

definition oidExtKeyUsageServerAuth :: oid where
  "oidExtKeyUsageServerAuth = [1, 3, 6, 1, 5, 5, 7, 3, 1]"

definition oidExtKeyUsageClientAuth :: oid where
  "oidExtKeyUsageClientAuth = [1, 3, 6, 1, 5, 5, 7, 3, 2]"

definition allowedKeyUsages :: "bytes list" where
  "allowedKeyUsages = [[3, 2, 7, 128], [3, 2, 5, 32]]"

text \<open>The inner loop \<open>for i, b := range usage { extValue[i] &^= b }\<close> from index \<open>i\<close> on.\<close>

fun clearUsage :: "nat \<Rightarrow> bytes \<Rightarrow> bytes \<Rightarrow> bytes" where
  "clearUsage i [] extValue = extValue"
| "clearUsage i (b # bs) extValue =
     clearUsage (Suc i) bs (extValue[i := extValue ! i AND NOT b])"

definition validateKeyUsageExtension :: "bytes \<Rightarrow> goerr option" where
  "validateKeyUsageExtension v =
     (if length v \<noteq> 4 then Some (Errorf ''forbidden key usage: %v'' [VBytes v])
      else let extValue = fold (clearUsage 0) allowedKeyUsages v in
        if extValue \<noteq> [0, 0, 0, 0] then Some (Errorf ''forbidden key usage: %v'' [VBytes v])
        else None)"

definition validateExtendedKeyUsageExtension ::
    "(goerr option list \<Rightarrow> goerr option) \<Rightarrow> Extension \<Rightarrow> goerr option" where
  "validateExtendedKeyUsageExtension na extension =
     (if ext_Id extension \<noteq> oidExtensionExtendedKeyUsage
      then Some (Errorf ''non extended key usage extension: %s'' [VOid (ext_Id extension)])
      else case UnmarshalOIDs (ext_Value extension) of
        Inl err \<Rightarrow> Some (Wrapf ''failed to parse extended key usages: %s'' [] err)
      | Inr (asn1ExtendedUsages, _) \<Rightarrow>
          na (map (\<lambda>usage. Some (Errorf ''forbidden extended key usage: %s'' [VOid usage]))
                (filter (\<lambda>usage. usage \<noteq> oidExtKeyUsageClientAuth
                               \<and> usage \<noteq> oidExtKeyUsageServerAuth) asn1ExtendedUsages)))"

text \<open>The loop over the content of the SAN sequence; every turn consumes an element.\<close>

function sanLoop :: "bytes \<Rightarrow> goerr option" where
  "sanLoop bs =
     (if length bs > 0 then
        (case UnmarshalRaw bs of
           Inl err \<Rightarrow> Some err
         | Inr (rawValue, rest) \<Rightarrow>
             if Tag rawValue \<noteq> asn1TagURI
             then Some (Errorf ''non uri san extension given: %s'' [VBytes (Bytes rawValue)])
             else sanLoop rest)
      else None)"
  by pat_completeness auto
termination
  by (relation "measure length") (auto dest: UnmarshalRaw_shrinks)

declare sanLoop.simps [simp del]

definition validateSubjectAltNameExtension :: "Extension \<Rightarrow> goerr option" where
  "validateSubjectAltNameExtension ext =
     (if ext_Id ext \<noteq> oidExtensionSubjectAltName
      then Some (Errorf ''extension is not a SAN type: %s'' [VOid (ext_Id ext)])
      else case UnmarshalRaw (ext_Value ext) of
        Inl err \<Rightarrow> Some (Wrapf ''failed to unmarshal san extension: %v'' [] err)
      | Inr (sq, rest) \<Rightarrow>
          if length rest \<noteq> 0
          then Some (Errorf ''san extension incorrectly encoded: %v'' [VBytes (ext_Value ext)])
          else if \<not> IsCompound sq \<or> Tag sq \<noteq> 16 \<or> Class sq \<noteq> 0
          then Some (Errorf ''san extension is incorrectly encoded: %v'' [VBytes (ext_Value ext)])
          else sanLoop (Bytes sq))"

text \<open>The \<open>switch\<close> of the loop of \<open>validateCSRExtentions\<close>: the error it appends.\<close>

definition validateExtension ::
    "(goerr option list \<Rightarrow> goerr option) \<Rightarrow> Extension \<Rightarrow> goerr option" where
  "validateExtension na extension =
     (if ext_Id extension = oidExtensionSubjectAltName
      then validateSubjectAltNameExtension extension
      else if ext_Id extension = oidExtensionKeyUsage
      then validateKeyUsageExtension (ext_Value extension)
      else if ext_Id extension = oidExtensionExtendedKeyUsage
      then validateExtendedKeyUsageExtension na extension
      else Some (Errorf ''forbidden extension: %s'' [VOid (ext_Id extension)]))"

definition validateCSRExtentions ::
    "(goerr option list \<Rightarrow> goerr option) \<Rightarrow> X509CSR \<Rightarrow> goerr option" where
  "validateCSRExtentions na csr =
     na ((if length (csr_ExtraExtensions csr) > 0
          then [Some (Errorf ''forbidden extensions: %v'' [VExts (csr_Extensions csr)])] else [])
         @ map (validateExtension na) (csr_Extensions csr))"

text \<open>What the code relies on of \<open>utilerrors.NewAggregate\<close>, and a function that has it.\<close>

definition NewAggregate_ok :: "(goerr option list \<Rightarrow> goerr option) \<Rightarrow> bool" where
  "NewAggregate_ok na \<longleftrightarrow> (\<forall>el. na el = None \<longleftrightarrow> all_nil el)"

definition exampleNewAggregate :: "goerr option list \<Rightarrow> goerr option" where
  "exampleNewAggregate el =
     (let es = List.map_filter id el in if es = [] then None else Some (ErrJoin es))"

text \<open>
  Reference definitions the properties are stated with: the elements of a SAN sequence,
  decoded up front; and the DER encoding of a KeyUsage value (RFC 5280, 4.2.1.3), a bit
  string whose trailing zero bits are removed.
\<close>

function sanElements :: "bytes \<Rightarrow> goerr + RawValue list" where
  "sanElements bs =
     (if bs = [] then Inr []
      else case UnmarshalRaw bs of
        Inl e \<Rightarrow> Inl e
      | Inr (v, rest) \<Rightarrow> (case sanElements rest of Inl e \<Rightarrow> Inl e | Inr vs \<Rightarrow> Inr (v # vs)))"
  by pat_completeness auto
termination
  by (relation "measure length") (auto dest: UnmarshalRaw_shrinks)

declare sanElements.simps [simp del]

definition bitsByte :: "bool list \<Rightarrow> byte" where
  "bitsByte bs = foldl (\<lambda>w b. 2 * w + (if b then 1 else 0)) 0 
     (take 8 (bs @ [False, False, False, False, False, False, False, False]))"

definition keyUsageDER :: "bool list \<Rightarrow> bytes" where
  "keyUsageDER usage =
     (let bits = rev (dropWhile (\<lambda>b. \<not> b) (rev usage)); n = length bits in
      if n = 0 then [3, 1, 0]
      else if n \<le> 8 then [3, 2, of_nat (8 - n), bitsByte bits]
      else [3, 3, of_nat (16 - n), bitsByte (take 8 bits), bitsByte (drop 8 bits)])"

section \<open>Lemmas\<close>

lemmas extension_oids =
  oidExtensionKeyUsage_def oidExtensionExtendedKeyUsage_def oidExtensionSubjectAltName_def

lemma exampleNewAggregate_ok: "NewAggregate_ok exampleNewAggregate"
  unfolding NewAggregate_ok_def exampleNewAggregate_def
  by (auto simp: Let_def map_filter_def filter_empty_conv list_all_iff)

lemma NewAggregate_None: "NewAggregate_ok na \<Longrightarrow> na el = None \<longleftrightarrow> all_nil el"
  by (simp add: NewAggregate_ok_def)

lemma length_clearUsage [simp]: "length (clearUsage i bs v) = length v"
  by (induction i bs v rule: clearUsage.induct) auto

lemma validateKeyUsageExtension_None:
  "validateKeyUsageExtension v = None \<longleftrightarrow>
     (\<exists>b0 b1 b2 b3. v = [b0, b1, b2, b3] \<and> b0 AND NOT 3 = 0 \<and> b1 AND NOT 2 = 0
        \<and> b2 AND NOT 7 = 0 \<and> b3 AND NOT 160 = 0)"
proof (cases "length v = 4")
  case True
  then obtain b0 b1 b2 b3 where v: "v = [b0, b1, b2, b3]"
    by (auto simp: numeral_eq_Suc length_Suc_conv)
  show ?thesis
    by (simp add: v validateKeyUsageExtension_def allowedKeyUsages_def Let_def and.assoc
        del: word_not_simps)
next
  case False
  then show ?thesis by (auto simp: validateKeyUsageExtension_def)
qed

lemma sanLoop_None:
  "sanLoop bs = None \<longleftrightarrow> (\<exists>vs. sanElements bs = Inr vs \<and> (\<forall>v\<in>set vs. Tag v = asn1TagURI))"
proof (induction bs rule: sanLoop.induct)
  case (1 bs)
  show ?case
    using 1 by (auto simp: sanLoop.simps [of bs] sanElements.simps [of bs] split: sum.splits)
qed


lemma validateExtendedKeyUsageExtension_None:
  assumes "NewAggregate_ok na"
  shows "validateExtendedKeyUsageExtension na ext = None \<longleftrightarrow>
    ext_Id ext = oidExtensionExtendedKeyUsage \<and>
    (\<exists>usages rest. UnmarshalOIDs (ext_Value ext) = Inr (usages, rest) \<and>
       set usages \<subseteq> {oidExtKeyUsageClientAuth, oidExtKeyUsageServerAuth})"
  by (auto simp: validateExtendedKeyUsageExtension_def NewAggregate_None [OF assms] list_all_iff
      split: sum.splits)

lemma validateSubjectAltNameExtension_None:
  "validateSubjectAltNameExtension ext = None \<longleftrightarrow>
     ext_Id ext = oidExtensionSubjectAltName \<and>
     (\<exists>sq. UnmarshalRaw (ext_Value ext) = Inr (sq, []) \<and> IsCompound sq \<and> Tag sq = 16 \<and> Class sq = 0 \<and>
        (\<exists>vs. sanElements (Bytes sq) = Inr vs \<and> (\<forall>v\<in>set vs. Tag v = asn1TagURI)))"
  by (auto simp: validateSubjectAltNameExtension_def sanLoop_None split: sum.splits if_splits)

text \<open>Decoding the elements of an encoded sequence gives the elements back.\<close>

abbreviation derElems :: "(byte \<times> bytes) list \<Rightarrow> bytes" where
  "derElems es \<equiv> concat (map (\<lambda>(ident, content). derElem ident content) es)"

lemma sanElements_derElems:
  "list_all (\<lambda>(ident, _). ident AND 0x1f \<noteq> 0x1f) es \<Longrightarrow> length (derElems es) < 2147483648 \<Longrightarrow>
   sanElements (derElems es) = Inr (map (\<lambda>(ident, content). rawOf ident content) es)"
proof (induction es)
  case (Cons e es)
  obtain ident content where e: "e = (ident, content)" by (cases e)
  with Cons show ?case
    by (subst sanElements.simps) (simp add: UnmarshalRaw_derElem)
qed (simp add: sanElements.simps)

lemma san_on_DER:
  assumes "ext_Id ext = oidExtensionSubjectAltName"
    and "ext_Value ext = derElem 0x30 (derElems es)"
    and "list_all (\<lambda>(ident, _). ident AND 0x1f \<noteq> 0x1f) es"
    and "length (derElems es) < 2147483648"
  shows "validateSubjectAltNameExtension ext = None \<longleftrightarrow>
         (\<forall>(ident, content) \<in> set es. ident AND 0x1f = 6)"
proof -
  have six: "unat (w AND 0x1f) = 6 \<longleftrightarrow> w AND 0x1f = 6" for w :: byte
    using word_unat_eq_iff [of "w AND 0x1f" 6] by simp
  have "UnmarshalRaw (ext_Value ext) = Inr (rawOf 0x30 (derElems es), [])"
    using UnmarshalRaw_derElem [of "0x30" "derElems es" "[]"] assms(2,4) by simp
  then show ?thesis
    using assms sanElements_derElems [OF assms(3,4)]
    by (auto simp: validateSubjectAltNameExtension_None rawOf_def asn1TagURI_def six)
qed

text \<open>A CSR whose only extension is a SAN that passes.\<close>

lemma validateCSRExtentions_san:
  assumes "NewAggregate_ok na" and "csr_ExtraExtensions csr = []" and "csr_Extensions csr = [ext]"
    and "ext_Id ext = oidExtensionSubjectAltName" and "validateSubjectAltNameExtension ext = None"
  shows "validateCSRExtentions na csr = None"
  using assms(2-5) by (simp add: validateCSRExtentions_def NewAggregate_None [OF assms(1)] validateExtension_def)

lemma all_less_9:
  "(\<forall>i < (9::nat). P i) \<longleftrightarrow> P 0 \<and> P 1 \<and> P 2 \<and> P 3 \<and> P 4 \<and> P 5 \<and> P 6 \<and> P 7 \<and> P 8"
  by (simp add: eval_nat_numeral All_less_Suc)  blast

section \<open>Properties\<close>

text \<open>C19: The bit-clearing loop of \<open>validateKeyUsageExtension\<close> decides key usages exactly. Take
  any non-empty KeyUsage value (nine bits, bit 0 is digitalSignature and bit 2 keyEncipherment)
  in its DER encoding: it is accepted if and only if no other bit is set.\<close>

theorem keyUsage_exact:
  assumes "length usage = 9" and "True \<in> set usage"
  shows "validateKeyUsageExtension (keyUsageDER usage) = None \<longleftrightarrow>
         (\<forall>i < 9. usage ! i \<longrightarrow> i = 0 \<or> i = 2)"
proof -
  obtain b0 b1 b2 b3 b4 b5 b6 b7 b8 where u: "usage = [b0, b1, b2, b3, b4, b5, b6, b7, b8]"
    using assms(1) by (auto simp: numeral_eq_Suc length_Suc_conv)
  show ?thesis
    using assms(2) unfolding u validateKeyUsageExtension_None keyUsageDER_def bitsByte_def
    by (cases b0; cases b1; cases b2; cases b3; cases b4; cases b5; cases b6; cases b7; cases b8)
      (simp_all add: Let_def all_less_9)
qed


theorem keyUsage_exact_witness:
  "validateKeyUsageExtension (keyUsageDER [True, False, True, False, False, False, False, False, False])
     = None"
proof -
  have "(\<forall>i < 9. [True, False, True, False, False, False, False, False, False] ! i
           \<longrightarrow> i = 0 \<or> i = (2::nat))"
    by (simp add: all_less_9)
  then show ?thesis
    using keyUsage_exact [of "[True, False, True, False, False, False, False, False, False]"]
    by simp
qed

text \<open>The loop over the SAN sequence, which stops at the first offending element, accepts
  exactly what decoding the whole extension first would accept: the value is one universal
  SEQUENCE with nothing after it, its content decodes into elements, and every element has
  tag 6 (uniformResourceIdentifier).\<close>

lemma san_loop_refines_decode:
  "validateSubjectAltNameExtension ext = None \<longleftrightarrow>
     ext_Id ext = oidExtensionSubjectAltName \<and>
     (\<exists>sq. UnmarshalRaw (ext_Value ext) = Inr (sq, []) \<and> IsCompound sq \<and> Tag sq = 16 \<and> Class sq = 0 \<and>
        (\<exists>vs. sanElements (Bytes sq) = Inr vs \<and> list_all (\<lambda>v. Tag v = asn1TagURI) vs))"
  by (simp add: validateSubjectAltNameExtension_None list_all_iff)

text \<open>
  The identifier bytes of the alternatives of \<open>GeneralName\<close> (RFC 5280, A.2) in DER: \<open>otherName\<close>,
  \<open>rfc822Name\<close>, \<open>dNSName\<close>, \<open>x400Address\<close>, \<open>directoryName\<close>, \<open>ediPartyName\<close>,
  \<open>uniformResourceIdentifier\<close>, \<open>iPAddress\<close>, \<open>registeredID\<close>.
\<close>

definition generalNameIdents :: "byte list" where
  "generalNameIdents = [0xA0, 0x81, 0x82, 0xA3, 0xA4, 0xA5, 0x86, 0x87, 0x88]"

lemma generalName_uri: "ident \<in> set generalNameIdents \<Longrightarrow> ident AND 0x1f = 6 \<longleftrightarrow> ident = 0x86"
  by (auto simp: generalNameIdents_def)

text \<open>
  The validator looks at the tag number of an element and not at its class and form, and it does not
  ask for an element: a SAN sequence with an OBJECT IDENTIFIER (universal tag 6), with a constructed
  or private element of tag 6, or without elements is accepted, though none is a URI SAN.
\<close>

lemma san_other_forms_accepted:
  assumes "ext_Id ext = oidExtensionSubjectAltName"
    and "ext_Value ext \<in> {derElem 0x30 [], derElem 0x30 (derElem 0x06 [0x2a]),
           derElem 0x30 (derElem 0xA6 [0x61]), derElem 0x30 (derElem 0xC6 [0x61])}"
  shows "validateSubjectAltNameExtension ext = None"
  using assms(2) san_on_DER [OF assms(1), of "[]"] san_on_DER [OF assms(1), of "[(0x06, [0x2a])]"]
    san_on_DER [OF assms(1), of "[(0xA6, [0x61])]"] san_on_DER [OF assms(1), of "[(0xC6, [0x61])]"]
  by (auto simp: derLength_def)

text \<open>C12: What the SAN check decides on DER input, for any list of elements in a SAN sequence
  (low-tag-number identifier bytes, total size below \<open>2^31\<close>): it accepts if and only if the tag
  number of every identifier byte is 6, whatever its class and form; the empty sequence is accepted.
  On the encodings of \<open>GeneralName\<close> this is the documented rule: every element is a
  \<open>uniformResourceIdentifier\<close>, so a request that adds a single dNSName, rfc822Name, iPAddress,
  directoryName or other name to its URIs is refused. On other encodings the check is weaker than its
  comment (\<open>san_other_forms_accepted\<close>).\<close>

theorem san_exact_on_DER:
  assumes "ext_Id ext = oidExtensionSubjectAltName"
    and "ext_Value ext = derElem 0x30 (derElems es)"
    and "list_all (\<lambda>(ident, _). ident AND 0x1f \<noteq> 0x1f) es"
    and "length (derElems es) < 2147483648"
  shows "(validateSubjectAltNameExtension ext = None \<longleftrightarrow>
           (\<forall>(ident, content) \<in> set es. ident AND 0x1f = 6))
    \<and> (fst ` set es \<subseteq> set generalNameIdents \<longrightarrow>
         (validateSubjectAltNameExtension ext = None \<longleftrightarrow> fst ` set es \<subseteq> {0x86}))"
  using san_on_DER [OF assms] generalName_uri by (auto simp: split_beta)

theorem san_exact_on_DER_witness:
  "validateSubjectAltNameExtension
     \<lparr>ext_Id = [2, 5, 29, 17], ext_Critical = True,
      ext_Value = derElem 0x30 (derElems [(0x86, [0x61, 0x3a]), (0x82, [0x62])])\<rparr> \<noteq> None"
proof -
  have "fst ` set [(0x86::byte, [0x61::byte, 0x3a]), (0x82, [0x62])] \<subseteq> set generalNameIdents"
    "\<not> fst ` set [(0x86::byte, [0x61::byte, 0x3a]), (0x82, [0x62])] \<subseteq> {0x86}"
    by (simp_all add: generalNameIdents_def)
  then show ?thesis
    using san_exact_on_DER [of "\<lparr>ext_Id = [2, 5, 29, 17], ext_Critical = True,
        ext_Value = derElem 0x30 (derElems [(0x86, [0x61, 0x3a]), (0x82, [0x62])])\<rparr>"
        "[(0x86, [0x61, 0x3a]), (0x82, [0x62])]"]
    by (simp add: oidExtensionSubjectAltName_def derLength_def)
qed

text \<open>C29: On DER input the extended key usage check is exact: an ExtendedKeyUsage extension that
  encodes any list of object identifiers, with any bytes after the sequence, is accepted if and
  only if every identifier is clientAuth or serverAuth.\<close>

theorem extKeyUsage_exact_on_DER:
  assumes "NewAggregate_ok na" and "ext_Id ext = oidExtensionExtendedKeyUsage"
    and "ext_Value ext = derOIDs oids @ rest"
    and "list_all validOID oids" and "length (concat (map derOIDElem oids)) < 2147483648"
  shows "validateExtendedKeyUsageExtension na ext = None \<longleftrightarrow>
         set oids \<subseteq> {oidExtKeyUsageClientAuth, oidExtKeyUsageServerAuth}"
  using assms UnmarshalOIDs_derOIDs [OF assms(4,5), of rest]
  by (simp add: validateExtendedKeyUsageExtension_None)

theorem extKeyUsage_exact_on_DER_witness:
  "validateExtendedKeyUsageExtension exampleNewAggregate
     \<lparr>ext_Id = [2, 5, 29, 37], ext_Critical = False,
      ext_Value = derOIDs [[1, 3, 6, 1, 5, 5, 7, 3, 1], [1, 3, 6, 1, 5, 5, 7, 3, 3]]\<rparr> \<noteq> None"
  using extKeyUsage_exact_on_DER [OF exampleNewAggregate_ok,
      of "\<lparr>ext_Id = [2, 5, 29, 37], ext_Critical = False,
           ext_Value = derOIDs [[1, 3, 6, 1, 5, 5, 7, 3, 1], [1, 3, 6, 1, 5, 5, 7, 3, 3]]\<rparr>"
         "[[1, 3, 6, 1, 5, 5, 7, 3, 1], [1, 3, 6, 1, 5, 5, 7, 3, 3]]" "[]"]
  by (simp add: oidExtensionExtendedKeyUsage_def oidExtKeyUsageClientAuth_def
      oidExtKeyUsageServerAuth_def derLength_def base128_def)

text \<open>A request passes \<open>validateCSRExtentions\<close> exactly when it has no extra extension, every
  extension is a SAN, a KeyUsage or an ExtendedKeyUsage extension, and each of them passes the
  validator of its kind. No other extension is ever accepted.\<close>

lemma csrExtensions_accepted_iff:
  assumes "NewAggregate_ok na"
  shows "validateCSRExtentions na csr = None \<longleftrightarrow>
    csr_ExtraExtensions csr = [] \<and>
    (\<forall>e \<in> set (csr_Extensions csr).
       validateSubjectAltNameExtension e = None
       \<or> ext_Id e = oidExtensionKeyUsage \<and> validateKeyUsageExtension (ext_Value e) = None
       \<or> validateExtendedKeyUsageExtension na e = None)"
proof -
  have "validateExtension na e = None \<longleftrightarrow>
       validateSubjectAltNameExtension e = None
       \<or> ext_Id e = oidExtensionKeyUsage \<and> validateKeyUsageExtension (ext_Value e) = None
       \<or> validateExtendedKeyUsageExtension na e = None" for e
  proof -
    have ids: "validateSubjectAltNameExtension e = None \<Longrightarrow> ext_Id e = oidExtensionSubjectAltName"
      "validateExtendedKeyUsageExtension na e = None \<Longrightarrow> ext_Id e = oidExtensionExtendedKeyUsage"
      by (simp_all add: validateSubjectAltNameExtension_None
          validateExtendedKeyUsageExtension_None [OF assms])
    have neq: "oidExtensionSubjectAltName \<noteq> oidExtensionKeyUsage"
      "oidExtensionSubjectAltName \<noteq> oidExtensionExtendedKeyUsage"
      "oidExtensionKeyUsage \<noteq> oidExtensionExtendedKeyUsage"
      by (simp_all add: extension_oids)
    show ?thesis unfolding validateExtension_def
      by (cases "ext_Id e = oidExtensionSubjectAltName"; cases "ext_Id e = oidExtensionKeyUsage";
          cases "ext_Id e = oidExtensionExtendedKeyUsage") (use ids neq in auto)
  qed
  then show ?thesis
    by (cases "csr_ExtraExtensions csr = []")
      (simp_all add: validateCSRExtentions_def NewAggregate_None [OF assms] list_all_iff)
qed

end
