(* ===== verification/GoX509.thy ===== *)
theory GoX509
  imports Extensions
begin

text \<open>
  What the code relies on of \<open>crypto/x509\<close> between the driver and the approver: which extensions
  \<open>CreateCertificateRequest\<close> signs for a template, and what \<open>ParseCertificateRequest\<close> reads back from
  them. The names of the parsed CSR come from the bytes of the SAN extension alone.
\<close>

section \<open>Definitions\<close>

text \<open>The SAN value with the given URIs: a sequence of their texts under the context tag 6.\<close>

definition sanOf :: "string list \<Rightarrow> bytes" where
  "sanOf us = derElem 0x30 (derElems (map (\<lambda>u. (0x86, map of_char u)) us))"

text \<open>
  The extensions that are signed: those of \<open>ExtraExtensions\<close>, and a SAN extension (not critical) for
  the names of the template when there is none among them.
\<close>

definition signedExtensions :: "X509CSR \<Rightarrow> Extension list" where
  "signedExtensions template =
     (if csr_URIs template \<noteq> []
         \<and> \<not> list_ex (\<lambda>e. ext_Id e = oidExtensionSubjectAltName) (csr_ExtraExtensions template)
      then [\<lparr>ext_Id = oidExtensionSubjectAltName, ext_Critical = False,
             ext_Value = sanOf (map url_String (csr_URIs template))\<rparr>]
      else []) @ csr_ExtraExtensions template"

definition bytes_text :: "bytes \<Rightarrow> string" where
  "bytes_text bs = map (\<lambda>b. char_of (unat b)) bs"

text \<open>The names of one kind in a SAN value, as texts; an IP address stays the bytes it is.\<close>

definition sanNames :: "nat \<Rightarrow> RawValue list \<Rightarrow> string list" where
  "sanNames tag vs =
     map (\<lambda>v. bytes_text (Bytes v)) (filter (\<lambda>v. Class v = 2 \<and> \<not> IsCompound v \<and> Tag v = tag) vs)"

text \<open>A URI is parsed, and its host must be a domain name.\<close>

definition hostLabels :: "string \<Rightarrow> bool" where
  "hostLabels host \<longleftrightarrow> host = []
     \<or> length host \<le> 253 \<and> list_all (\<lambda>l. l \<noteq> [] \<and> list_all (\<lambda>c. 33 \<le> (of_char c :: nat) \<and> (of_char c :: nat) \<le> 126) l) (Split host CHR ''.'')"

fun sanURIs :: "(string \<Rightarrow> goerr + string) \<Rightarrow> string list \<Rightarrow> goerr + URL list" where
  "sanURIs special [] = Inr []"
| "sanURIs special (u # us) =
     (if \<not> list_all (\<lambda>c. (of_char c :: nat) < 128) u
      then Inl (ErrLib ''x509: SAN uniformResourceIdentifier is malformed'')
      else case url_Parse special u of
        Inl err \<Rightarrow> Inl (Wrapf ''x509: cannot parse URI %q: %s'' [VStr u] err)
      | Inr uri \<Rightarrow>
          if \<not> hostLabels (u_Host uri) then Inl (Errorf ''x509: cannot parse URI %q: invalid domain'' [VStr u])
          else (case sanURIs special us of Inl err \<Rightarrow> Inl err | Inr uris \<Rightarrow> Inr (uri # uris)))"

text \<open>\<open>special\<close> parses the hosts \<^const>\<open>url_Parse\<close> leaves to its argument.\<close>

definition parsedNames :: "(string \<Rightarrow> goerr + string) \<Rightarrow> Extension \<Rightarrow> X509CSR \<Rightarrow> goerr + X509CSR" where
  "parsedNames special san csr =
     (case UnmarshalRaw (ext_Value san) of
        Inl err \<Rightarrow> Inl err
      | Inr (sq, rest) \<Rightarrow>
          (case sanElements (Bytes sq) of
             Inl err \<Rightarrow> Inl err
           | Inr vs \<Rightarrow>
               (case sanURIs special (sanNames 6 vs) of
                  Inl err \<Rightarrow> Inl err
                | Inr uris \<Rightarrow> Inr (csr\<lparr>csr_URIs := uris, csr_EmailAddresses := sanNames 1 vs,
                                       csr_DNSNames := sanNames 2 vs, csr_IPAddresses := sanNames 7 vs\<rparr>))))"

definition parsedCSR :: "(string \<Rightarrow> goerr + string) \<Rightarrow> X509CSR \<Rightarrow> goerr + X509CSR" where
  "parsedCSR special template =
     (let exts = signedExtensions template;
          csr = emptyCSR\<lparr>csr_Subject := csr_Subject template, csr_Extensions := exts\<rparr> in
      if \<not> distinct (map ext_Id exts)
      then Inl (ErrLib ''x509: certificate request contains duplicate requested extensions'')
      else (case find (\<lambda>e. ext_Id e = oidExtensionSubjectAltName) exts of
              None \<Rightarrow> Inr csr
            | Some san \<Rightarrow> parsedNames special san csr))"

section \<open>Lemmas\<close>

lemma bytes_text_of_char [simp]: "bytes_text (map of_char u) = u"
proof -
  have "char_of (unat (of_char c :: byte)) = c" for c :: char
  proof -
    have "unat (of_char c :: byte) = (of_char c :: nat)"
      unfolding of_nat_of_char [symmetric, where 'a = byte] by (simp add: unat_of_nat nat_of_char_less_256)
    then show ?thesis by simp
  qed
  then show ?thesis by (simp add: bytes_text_def comp_def)
qed

lemma derLength_short: "n < 2147483648 \<Longrightarrow> length (derLength n) \<le> 5"
  using length_beBytes [of n] by (auto simp: derLength_def)

lemma san_length:
  assumes "length u < 2147483000"
  shows "length (derElems (map (\<lambda>u. (0x86, map of_char u)) [u])) < 2147483648"
  using assms derLength_short [of "length u"] by simp

text \<open>A SAN value with URIs reads back as those URIs and no other names.\<close>

lemma sanElements_sanOf:
  assumes "length (derElems (map (\<lambda>u. (0x86, map of_char u)) us)) < 2147483648"
  shows "UnmarshalRaw (sanOf us) = Inr (rawOf 0x30 (derElems (map (\<lambda>u. (0x86, map of_char u)) us)), [])"
    and "sanElements (derElems (map (\<lambda>u. (0x86, map of_char u)) us)) = Inr (map (\<lambda>u. rawOf 0x86 (map of_char u)) us)"
proof -
  show "UnmarshalRaw (sanOf us) = Inr (rawOf 0x30 (derElems (map (\<lambda>u. (0x86, map of_char u)) us)), [])"
    using UnmarshalRaw_derElem [where ident = "0x30" and rest = "[]"] assms by (simp add: sanOf_def)
  show "sanElements (derElems (map (\<lambda>u. (0x86, map of_char u)) us)) = Inr (map (\<lambda>u. rawOf 0x86 (map of_char u)) us)"
    by (subst sanElements_derElems) (use assms in \<open>simp_all add: list_all_iff\<close>)
qed

lemma sanNames_sanOf:
  "sanNames tag (map (\<lambda>u. rawOf 0x86 (map of_char u)) us) = (if tag = 6 then us else [])"
  by (induction us) (auto simp: sanNames_def rawOf_def comp_def)

lemma parsedCSR_spiffe:
  assumes "ext_Id e = oidExtensionSubjectAltName" and "ext_Value e = sanOf [u]" and "length u < 2147483000"
    and "url_Parse special u = Inr uri" and "hostLabels (u_Host uri)"
    and "list_all (\<lambda>c. (of_char c :: nat) < 128) u"
  shows "parsedCSR special (emptyCSR\<lparr>csr_ExtraExtensions := [e]\<rparr>) = Inr (emptyCSR\<lparr>csr_Extensions := [e], csr_URIs := [uri]\<rparr>)"
  using sanElements_sanOf [OF san_length [OF assms(3)]] sanNames_sanOf [of _ "[u]"] assms(1,2,4-6)
  by (simp add: parsedCSR_def parsedNames_def signedExtensions_def Let_def emptyCSR_def rawOf_def)

end
