(* ===== verification/Evaluator.thy ===== *)
theory Evaluator
  imports Extensions "HOL-Library.Multiset"
begin

text \<open>
  \<open>internal/approver/evaluator\<close>: whether a CertificateRequest is approved or denied.
  \<open>evaluator.go\<close> decodes the request and runs every check, \<open>identity.go\<close> binds the SPIFFE ID
  to the requesting service account, \<open>fake/fake.go\<close> is the stub of the tests. The record
  \<open>evaluator_deps\<close> holds the code outside the repository \<open>Evaluate\<close> calls: cert-manager's
  \<open>DecodeX509CertificateRequestBytes\<close> and \<open>EqualKeyUsagesUnsorted\<close>, the signature check of
  \<open>crypto/x509\<close>, and \<open>utilerrors.NewAggregate\<close>.
\<close>

section \<open>Definitions\<close>

record evaluator_deps =
  DecodeX509CertificateRequestBytes :: "bytes \<Rightarrow> goerr + X509CSR"
  CheckSignature :: "X509CSR \<Rightarrow> goerr option"
  EqualKeyUsagesUnsorted :: "KeyUsage list \<Rightarrow> KeyUsage list \<Rightarrow> bool"
  NewAggregate :: "goerr option list \<Rightarrow> goerr option"

text \<open>\<open>evaluator.Options\<close> and the structure \<open>internal\<close>. A \<open>time.Duration\<close> is its number of
  nanoseconds.\<close>

record EvaluatorOptions =
  eo_TrustDomain :: string
  eo_CertificateRequestDuration :: int
  eo_UseOwnServiceAccount :: bool
  eo_DriverServiceAccount :: string

record internal =
  trustDomain :: string
  certificateRequestDuration :: int
  useOwnServiceAccount :: bool
  driverServiceAccount :: string

definition evaluator_New :: "EvaluatorOptions \<Rightarrow> internal" where
  "evaluator_New opts =
     \<lparr>trustDomain = eo_TrustDomain opts,
      certificateRequestDuration = eo_CertificateRequestDuration opts,
      useOwnServiceAccount = eo_UseOwnServiceAccount opts,
      driverServiceAccount = eo_DriverServiceAccount opts\<rparr>"

definition requiredUsages :: "KeyUsage list" where
  "requiredUsages = [UsageKeyEncipherment, UsageDigitalSignature, UsageClientAuth, UsageServerAuth]"

text \<open>\<open>fmt.Sprintf("spiffe://%s/ns/%s/sa/%s", trustDomain, namespace, serviceAccount)\<close>.\<close>

definition spiffeID :: "string \<Rightarrow> string \<Rightarrow> string \<Rightarrow> string" where
  "spiffeID td ns sa = ''spiffe://'' @ td @ ''/ns/'' @ ns @ ''/sa/'' @ sa"

definition validateDriverServiceAccount :: "internal \<Rightarrow> X509CSR \<Rightarrow> string \<Rightarrow> goerr option" where
  "validateDriverServiceAccount i csr username =
     (if length (csr_URIs csr) \<noteq> 1
      then Some (Errorf ''expected exactly 1 SPIFFE URI present on request, got=%d''
                   [VInt (int (length (csr_URIs csr)))])
      else if u_Scheme (csr_URIs csr ! 0) \<noteq> ''spiffe''
      then Some (Errorf ''URI scheme is not spiffe: %s'' [VStr (u_Scheme (csr_URIs csr ! 0))])
      else if u_Host (csr_URIs csr ! 0) \<noteq> trustDomain i
      then Some (Errorf ''unexpected trust domain, exp=%q got=%q''
                   [VStr (trustDomain i), VStr (u_Host (csr_URIs csr ! 0))])
      else if username \<noteq> driverServiceAccount i
      then Some (Errorf
             ''request must be made by the csi-driver-spiffe ServiceAccount, exp=%q got=%q''
             [VStr (driverServiceAccount i), VStr username])
      else None)"

definition validateIdentity :: "internal \<Rightarrow> X509CSR \<Rightarrow> string \<Rightarrow> goerr option" where
  "validateIdentity i csr username =
     (let split = Split username (CHR '':'') in
      if length split \<noteq> 4 \<or> split ! 0 \<noteq> ''system'' \<or> split ! 1 \<noteq> ''serviceaccount''
      then Some (Errorf ''got non-serviceaccount encoded username: %q'' [VStr username])
      else if length (csr_URIs csr) \<noteq> 1
      then Some (Errorf ''expected exactly 1 SPIFFE URI present on request, got=%d''
                   [VInt (int (length (csr_URIs csr)))])
      else if u_Scheme (csr_URIs csr ! 0) \<noteq> ''spiffe''
      then Some (Errorf ''URI scheme is not spiffe: %s'' [VStr (u_Scheme (csr_URIs csr ! 0))])
      else let expSpiffeID = spiffeID (trustDomain i) (split ! 2) (split ! 3) in
        if url_String (csr_URIs csr ! 0) \<noteq> expSpiffeID
        then Some (Errorf ''unexpected SPIFFE ID requested, exp=%q got=%q''
                     [VStr expSpiffeID, VStr (url_String (csr_URIs csr ! 0))])
        else None)"

definition Evaluate :: "evaluator_deps \<Rightarrow> internal \<Rightarrow> CertificateRequest \<Rightarrow> goerr option" where
  "Evaluate d i req =
     (case DecodeX509CertificateRequestBytes d (cr_Request req) of
        Inl err \<Rightarrow> Some (Wrapf ''failed to parse request: %w'' [] err)
      | Inr csr \<Rightarrow>
          if cr_Duration req \<noteq> Some (certificateRequestDuration i)
          then Some (Errorf ''requested certificate doesn't match required, required=%q got=%v''
                       [VInt (certificateRequestDuration i), VOptInt (cr_Duration req)])
          else case CheckSignature d csr of
            Some err \<Rightarrow> Some (Wrapf ''signature check failed for csr: %w'' [] err)
          | None \<Rightarrow>
              if csr_DNSNames csr \<noteq> [] \<or> csr_IPAddresses csr \<noteq> []
                 \<or> name_CommonName (csr_Subject csr) \<noteq> [] \<or> csr_EmailAddresses csr \<noteq> []
              then Some (Errorf ''forbidden extensions, DNS=%q IPs=%q CommonName=%q Emails=%q''
                     [VStrs (csr_DNSNames csr), VStrs (csr_IPAddresses csr),
                      VStr (name_CommonName (csr_Subject csr)), VStrs (csr_EmailAddresses csr)])
              else case validateCSRExtentions (NewAggregate d) csr of
                Some err \<Rightarrow> Some err
              | None \<Rightarrow>
                  if cr_IsCA req then Some (Errorf ''request contains spec.isCA=true'' [])
                  else if \<not> EqualKeyUsagesUnsorted d (cr_Usages req) requiredUsages
                  then Some (Errorf ''request contains wrong usages, exp=%v got=%v''
                               [VUsages requiredUsages, VUsages (cr_Usages req)])
                  else if useOwnServiceAccount i
                  then validateDriverServiceAccount i csr (cr_Username req)
                  else validateIdentity i csr (cr_Username req))"

text \<open>\<open>fake.go\<close>: an evaluator whose answer a test sets.\<close>

record FakeEvaluator =
  funcEvaluate :: "CertificateRequest \<Rightarrow> goerr option"

definition fake_New :: FakeEvaluator where
  "fake_New = \<lparr>funcEvaluate = (\<lambda>_. None)\<rparr>"

definition WithEvaluate ::
    "FakeEvaluator \<Rightarrow> (CertificateRequest \<Rightarrow> goerr option) \<Rightarrow> FakeEvaluator" where
  "WithEvaluate f fn = f\<lparr>funcEvaluate := fn\<rparr>"

definition fake_Evaluate :: "FakeEvaluator \<Rightarrow> CertificateRequest \<Rightarrow> goerr option" where
  "fake_Evaluate f req = funcEvaluate f req"

text \<open>
  What the evaluator relies on: the usage comparison ignores order and nothing else, and
  \<^const>\<open>NewAggregate_ok\<close>.
\<close>

definition evaluator_deps_ok :: "evaluator_deps \<Rightarrow> bool" where
  "evaluator_deps_ok d \<longleftrightarrow>
     NewAggregate_ok (NewAggregate d)
     \<and> (\<forall>a b. EqualKeyUsagesUnsorted d a b \<longleftrightarrow> mset a = mset b)"

text \<open>The username Kubernetes gives a service account.\<close>

definition serviceAccountUsername :: "string \<Rightarrow> string \<Rightarrow> string" where
  "serviceAccountUsername ns sa = ''system:serviceaccount:'' @ ns @ '':'' @ sa"

text \<open>
  The specification of an approval in the default mode: the request decodes to a signed CSR
  with exactly one URI, the SPIFFE ID of the service account that made the request.
\<close>

definition identity_bound :: "evaluator_deps \<Rightarrow> internal \<Rightarrow> CertificateRequest \<Rightarrow> bool" where
  "identity_bound d i req \<longleftrightarrow>
     (\<exists>csr uri ns sa. DecodeX509CertificateRequestBytes d (cr_Request req) = Inr csr
        \<and> CheckSignature d csr = None \<and> csr_URIs csr = [uri] \<and> u_Scheme uri = ''spiffe''
        \<and> cr_Username req = serviceAccountUsername ns sa
        \<and> CHR '':'' \<notin> set ns \<and> CHR '':'' \<notin> set sa
        \<and> url_String uri = spiffeID (trustDomain i) ns sa)"

text \<open>The same when the driver requests with its own service account.\<close>

definition driver_bound :: "evaluator_deps \<Rightarrow> internal \<Rightarrow> CertificateRequest \<Rightarrow> bool" where
  "driver_bound d i req \<longleftrightarrow>
     (\<exists>csr uri. DecodeX509CertificateRequestBytes d (cr_Request req) = Inr csr
        \<and> CheckSignature d csr = None \<and> csr_URIs csr = [uri] \<and> u_Scheme uri = ''spiffe''
        \<and> u_Host uri = trustDomain i \<and> cr_Username req = driverServiceAccount i)"

section \<open>The interface\<close>

text \<open>
  \<open>evaluator.Interface\<close> as its clients may use it: an evaluator that answers \<open>nil\<close> only
  for requests that satisfy \<open>Good\<close>, and whose answer does not depend on the status of the
  request, the part the client changes.
\<close>

locale evaluator_interface =
  fixes Eval :: "CertificateRequest \<Rightarrow> goerr option"
    and Good :: "CertificateRequest \<Rightarrow> bool"
  assumes eval_sound: "Eval req = None \<Longrightarrow> Good req"
    and eval_status: "Eval (req\<lparr>cr_Conditions := cs\<rparr>) = Eval req"

section \<open>Lemmas\<close>

lemma length_1_conv: "length xs = 1 \<longleftrightarrow> (\<exists>x. xs = [x])"
  by (auto simp: length_Suc_conv)

lemma username_parts:
  "length (Split u (CHR '':'')) = 4 \<and> Split u (CHR '':'') ! 0 = ''system''
     \<and> Split u (CHR '':'') ! 1 = ''serviceaccount'' \<longleftrightarrow>
   (\<exists>ns sa. u = serviceAccountUsername ns sa \<and> CHR '':'' \<notin> set ns \<and> CHR '':'' \<notin> set sa)"
  (is "?L \<longleftrightarrow> ?R")
proof
  assume ?L
  then obtain ns sa where "Split u (CHR '':'') = [''system'', ''serviceaccount'', ns, sa]"
    by (auto simp: numeral_eq_Suc length_Suc_conv)
  then show ?R
    by (auto simp: Split_eq_iff serviceAccountUsername_def)
next
  assume ?R
  then obtain ns sa where u: "u = serviceAccountUsername ns sa"
    and c: "CHR '':'' \<notin> set ns" "CHR '':'' \<notin> set sa" by auto
  have "Split u (CHR '':'') = [''system'', ''serviceaccount'', ns, sa]"
    using c by (subst Split_eq_iff) (simp_all add: u serviceAccountUsername_def)
  then show ?L by simp
qed

lemma Split_serviceAccountUsername:
  "CHR '':'' \<notin> set ns \<Longrightarrow> CHR '':'' \<notin> set sa \<Longrightarrow>
   Split (serviceAccountUsername ns sa) (CHR '':'') = [''system'', ''serviceaccount'', ns, sa]"
  by (subst Split_eq_iff) (simp_all add: serviceAccountUsername_def)

lemma validateIdentity_None:
  "validateIdentity i csr username = None \<longleftrightarrow>
     (\<exists>ns sa uri. username = serviceAccountUsername ns sa
        \<and> CHR '':'' \<notin> set ns \<and> CHR '':'' \<notin> set sa
        \<and> csr_URIs csr = [uri] \<and> u_Scheme uri = ''spiffe''
        \<and> url_String uri = spiffeID (trustDomain i) ns sa)"
  (is "?L \<longleftrightarrow> ?R")
proof
  assume L: ?L
  then have "length (Split username (CHR '':'')) = 4 \<and> Split username (CHR '':'') ! 0 = ''system''
     \<and> Split username (CHR '':'') ! 1 = ''serviceaccount''"
    by (auto simp: validateIdentity_def Let_def split: if_splits)
  then obtain ns sa where u: "username = serviceAccountUsername ns sa"
    "CHR '':'' \<notin> set ns" "CHR '':'' \<notin> set sa" unfolding username_parts by blast
  with L obtain uri where "csr_URIs csr = [uri]" "u_Scheme uri = ''spiffe''"
    "url_String uri = spiffeID (trustDomain i) ns sa"
    by (auto simp: validateIdentity_def Split_serviceAccountUsername Let_def length_Suc_conv
        split: if_splits)
  with u show ?R by blast
next
  assume ?R
  then show ?L
    by (auto simp: validateIdentity_def Split_serviceAccountUsername)
qed

lemma validateDriverServiceAccount_None:
  "validateDriverServiceAccount i csr username = None \<longleftrightarrow>
     (\<exists>uri. csr_URIs csr = [uri] \<and> u_Scheme uri = ''spiffe'' \<and> u_Host uri = trustDomain i)
     \<and> username = driverServiceAccount i"
  by (auto simp: validateDriverServiceAccount_def length_Suc_conv split: if_splits)

text \<open>Acceptance as a conjunction of the checks, for any dependencies.\<close>

lemma Evaluate_None:
  "Evaluate d i req = None \<longleftrightarrow>
     (\<exists>csr. DecodeX509CertificateRequestBytes d (cr_Request req) = Inr csr
        \<and> cr_Duration req = Some (certificateRequestDuration i)
        \<and> CheckSignature d csr = None
        \<and> csr_DNSNames csr = [] \<and> csr_IPAddresses csr = []
        \<and> name_CommonName (csr_Subject csr) = [] \<and> csr_EmailAddresses csr = []
        \<and> validateCSRExtentions (NewAggregate d) csr = None
        \<and> \<not> cr_IsCA req \<and> EqualKeyUsagesUnsorted d (cr_Usages req) requiredUsages
        \<and> (if useOwnServiceAccount i then validateDriverServiceAccount i csr (cr_Username req)
           else validateIdentity i csr (cr_Username req)) = None)"
  unfolding Evaluate_def
  by (cases "DecodeX509CertificateRequestBytes d (cr_Request req)")
    (auto split: if_split option.split)

lemma spiffeID_inject_slash_free:
  assumes "spiffeID td ns sa = spiffeID td ns' sa'"
    and "CHR ''/'' \<notin> set ns" and "CHR ''/'' \<notin> set ns'"
  shows "ns = ns' \<and> sa = sa'"
  using assms append_Cons_unique [of ns "CHR ''/''" "''sa/'' @ sa" ns' "''sa/'' @ sa'"]
  by (simp add: spiffeID_def)


lemma Evaluate_identity_bound:
  "\<not> useOwnServiceAccount i \<Longrightarrow> Evaluate d i req = None \<Longrightarrow> identity_bound d i req"
  by (fastforce simp: Evaluate_None validateIdentity_None identity_bound_def)

lemma Evaluate_driver_bound:
  "useOwnServiceAccount i \<Longrightarrow> Evaluate d i req = None \<Longrightarrow> driver_bound d i req"
  by (fastforce simp: Evaluate_None validateDriverServiceAccount_None driver_bound_def)

lemma Evaluate_status: "Evaluate d i (req\<lparr>cr_Conditions := cs\<rparr>) = Evaluate d i req"
  unfolding Evaluate_def CertificateRequest.select_convs
  by (cases req) (simp only: CertificateRequest.select_convs CertificateRequest.update_convs)

lemma Evaluate_issuer: "Evaluate d i (req\<lparr>cr_IssuerRef := r\<rparr>) = Evaluate d i req"
  unfolding Evaluate_def CertificateRequest.select_convs
  by (cases req) (simp only: CertificateRequest.select_convs CertificateRequest.update_convs)

lemma Evaluate_version: "Evaluate d i (req\<lparr>cr_ResourceVersion := v\<rparr>) = Evaluate d i req"
  unfolding Evaluate_def CertificateRequest.select_convs
  by (cases req) (simp only: CertificateRequest.select_convs CertificateRequest.update_convs)

text \<open>Whatever its mode, the evaluator of the program implements the interface.\<close>

definition evaluator_Good :: "evaluator_deps \<Rightarrow> internal \<Rightarrow> CertificateRequest \<Rightarrow> bool" where
  "evaluator_Good d i req \<longleftrightarrow>
     (if useOwnServiceAccount i then driver_bound d i req else identity_bound d i req)"

interpretation eval: evaluator_interface "Evaluate d i" "evaluator_Good d i" for d i
  by unfold_locales
    (simp_all add: evaluator_Good_def Evaluate_identity_bound Evaluate_driver_bound Evaluate_status)

text \<open>A request and dependencies to evaluate the properties on.\<close>

definition exampleCSR :: X509CSR where
  "exampleCSR = emptyCSR\<lparr>csr_URIs := [hierURL ''spiffe'' ''foo.bar'' ''/ns/sandbox/sa/sleep'']\<rparr>"

definition exampleDeps :: evaluator_deps where
  "exampleDeps = \<lparr>DecodeX509CertificateRequestBytes = (\<lambda>_. Inr exampleCSR),
     CheckSignature = (\<lambda>_. None), EqualKeyUsagesUnsorted = (\<lambda>a b. mset a = mset b),
     NewAggregate = exampleNewAggregate\<rparr>"

definition exampleInternal :: internal where
  "exampleInternal = \<lparr>trustDomain = ''foo.bar'', certificateRequestDuration = 3600000000000,
     useOwnServiceAccount = False, driverServiceAccount = []\<rparr>"

definition exampleRequest :: CertificateRequest where
  "exampleRequest = \<lparr>cr_Namespace = ''sandbox'', cr_Name = ''req'', cr_ResourceVersion = 0,
     cr_Annotations = [SPIFFEIdentityAnnnotationKey \<mapsto> ''x''], cr_Request = [],
     cr_Duration = Some 3600000000000, cr_IsCA = False,
     cr_Usages = [UsageServerAuth, UsageClientAuth, UsageDigitalSignature, UsageKeyEncipherment],
     cr_Username = ''system:serviceaccount:sandbox:sleep'',
     cr_IssuerRef = \<lparr>ir_Name = ''ca'', ir_Kind = ''ClusterIssuer'', ir_Group = ''cert-manager.io''\<rparr>,
     cr_Conditions = []\<rparr>"

lemmas example_defs =
  exampleCSR_def exampleDeps_def exampleInternal_def exampleRequest_def emptyCSR_def emptyName_def

lemma exampleDeps_ok: "evaluator_deps_ok exampleDeps"
  by (simp add: evaluator_deps_ok_def exampleDeps_def exampleNewAggregate_ok)

lemma example_String:
  "url_String (hierURL ''spiffe'' ''foo.bar'' ''/ns/sandbox/sa/sleep'') =
   spiffeID ''foo.bar'' ''sandbox'' ''sleep''"
  by (subst url_String_hierURL) (simp_all add: plainChar_def isAlnum_def spiffeID_def)

lemma exampleUsername:
  "cr_Username exampleRequest = serviceAccountUsername ''sandbox'' ''sleep''"
  by (simp add: exampleRequest_def serviceAccountUsername_def)

lemma example_identity:
  "validateIdentity exampleInternal exampleCSR (serviceAccountUsername ''sandbox'' ''sleep'') = None"
  unfolding validateIdentity_None
  by (rule exI [of _ "''sandbox''"], rule exI [of _ "''sleep''"])
    (simp add: exampleCSR_def exampleInternal_def hierURL_def example_String [unfolded hierURL_def])

lemma example_extensions: "validateCSRExtentions exampleNewAggregate exampleCSR = None"
  by (simp add: validateCSRExtentions_def example_defs exampleNewAggregate_def map_filter_def)

lemma example_accepted: "Evaluate exampleDeps exampleInternal exampleRequest = None"
  using example_identity example_extensions
  by (simp add: Evaluate_None exampleUsername) (simp add: example_defs requiredUsages_def)

section \<open>Properties\<close>

text \<open>C1: In the default mode \<open>Evaluate\<close> approves a request if and only if it decodes to a CSR
  whose signature checks, the requested duration is the configured one, the CSR has no DNS
  name, IP address, common name or email address and only allowed extensions, the request is not
  for a CA, its usages are the four required ones in any order, and the CSR holds exactly one
  URI, with scheme \<open>spiffe\<close>, whose text is the SPIFFE ID, in the configured trust domain, of
  the service account that made the request.\<close>

theorem evaluate_approves_iff:
  assumes "evaluator_deps_ok d" and "\<not> useOwnServiceAccount i"
  shows "Evaluate d i req = None \<longleftrightarrow>
    (\<exists>csr ns sa uri.
        DecodeX509CertificateRequestBytes d (cr_Request req) = Inr csr
        \<and> cr_Duration req = Some (certificateRequestDuration i)
        \<and> CheckSignature d csr = None
        \<and> csr_DNSNames csr = [] \<and> csr_IPAddresses csr = []
        \<and> name_CommonName (csr_Subject csr) = [] \<and> csr_EmailAddresses csr = []
        \<and> validateCSRExtentions (NewAggregate d) csr = None
        \<and> \<not> cr_IsCA req
        \<and> mset (cr_Usages req) = {#UsageKeyEncipherment, UsageDigitalSignature, UsageClientAuth,
                                   UsageServerAuth#}
        \<and> cr_Username req = ''system:serviceaccount:'' @ ns @ '':'' @ sa
        \<and> CHR '':'' \<notin> set ns \<and> CHR '':'' \<notin> set sa
        \<and> csr_URIs csr = [uri] \<and> u_Scheme uri = ''spiffe''
        \<and> url_String uri = ''spiffe://'' @ trustDomain i @ ''/ns/'' @ ns @ ''/sa/'' @ sa)"
proof -
  have "EqualKeyUsagesUnsorted d (cr_Usages req) requiredUsages \<longleftrightarrow>
    mset (cr_Usages req) = {#UsageKeyEncipherment, UsageDigitalSignature, UsageClientAuth,
                              UsageServerAuth#}"
    using assms(1) by (simp add: evaluator_deps_ok_def requiredUsages_def)
  then show ?thesis
    unfolding Evaluate_None if_not_P [OF assms(2)] validateIdentity_None
      serviceAccountUsername_def spiffeID_def
    by blast
qed

theorem evaluate_approves_iff_witness:
  "Evaluate exampleDeps exampleInternal exampleRequest = None
   \<and> Evaluate exampleDeps exampleInternal (exampleRequest\<lparr>cr_IsCA := True\<rparr>) \<noteq> None"
  using example_accepted
    evaluate_approves_iff [OF exampleDeps_ok, of exampleInternal "exampleRequest\<lparr>cr_IsCA := True\<rparr>"]
  by (simp add: exampleInternal_def)

text \<open>C5: No impersonation. If the same CSR is approved for two requests made under different
  usernames, one of the two namespaces contains a slash, which no Kubernetes namespace does:
  for slash-free namespaces the CSR of one service account is never approved for another.\<close>

theorem identity_not_shared:
  assumes "validateIdentity i csr (serviceAccountUsername ns sa) = None"
    and "validateIdentity i csr (serviceAccountUsername ns' sa') = None"
    and "CHR '':'' \<notin> set ns" "CHR '':'' \<notin> set sa" "CHR '':'' \<notin> set ns'" "CHR '':'' \<notin> set sa'"
    and "CHR ''/'' \<notin> set ns" "CHR ''/'' \<notin> set ns'"
  shows "ns = ns' \<and> sa = sa'"
proof -
  have inj: "n = m \<and> s = t" if "serviceAccountUsername n s = serviceAccountUsername m t"
    "CHR '':'' \<notin> set n" "CHR '':'' \<notin> set m" for n m s t
    using that append_Cons_unique [of n "CHR '':''" s m t] by (simp add: serviceAccountUsername_def)
  obtain uri where uri: "csr_URIs csr = [uri]"
    and id: "url_String uri = spiffeID (trustDomain i) ns sa"
    using assms(1,3) inj unfolding validateIdentity_None by metis
  obtain uri' where "csr_URIs csr = [uri']"
    and "url_String uri' = spiffeID (trustDomain i) ns' sa'"
    using assms(2,5) inj unfolding validateIdentity_None by metis
  with uri id assms(7,8) show ?thesis by (auto dest: spiffeID_inject_slash_free)
qed

theorem identity_not_shared_witness:
  "validateIdentity exampleInternal exampleCSR (serviceAccountUsername ''sandbox'' ''sleep'') = None
   \<and> validateIdentity exampleInternal exampleCSR (serviceAccountUsername ''sandbox'' ''httpbin'') \<noteq> None"
  using identity_not_shared [of exampleInternal exampleCSR "''sandbox''" "''sleep''" "''sandbox''" "''httpbin''"]
    example_identity by auto

text \<open>C30: With \<open>UseOwnServiceAccount\<close> set, an approved request was made by the configured driver
  service account and its CSR holds exactly one URI, with scheme \<open>spiffe\<close> and the configured
  trust domain as its host; the path of the URI is the driver's word.\<close>

theorem own_service_account_sound:
  assumes "useOwnServiceAccount i" and "Evaluate d i req = None"
  shows "cr_Username req = driverServiceAccount i \<and>
    (\<exists>csr uri. DecodeX509CertificateRequestBytes d (cr_Request req) = Inr csr
       \<and> CheckSignature d csr = None
       \<and> csr_URIs csr = [uri] \<and> u_Scheme uri = ''spiffe'' \<and> u_Host uri = trustDomain i)"
  using Evaluate_driver_bound [OF assms] by (auto simp: driver_bound_def)

theorem own_service_account_sound_witness:
  "cr_Username exampleRequest = driverServiceAccount
     (exampleInternal\<lparr>useOwnServiceAccount := True,
        driverServiceAccount := ''system:serviceaccount:sandbox:sleep''\<rparr>)"
proof -
  let ?i = "exampleInternal\<lparr>useOwnServiceAccount := True,
        driverServiceAccount := ''system:serviceaccount:sandbox:sleep''\<rparr>"
  have "Evaluate exampleDeps ?i exampleRequest = None"
    using example_extensions unfolding Evaluate_None
    by (simp add: validateDriverServiceAccount_None)
      (simp add: example_defs hierURL_def requiredUsages_def)
  with own_service_account_sound [of ?i exampleDeps exampleRequest] show ?thesis by simp
qed

end
