(* ===== verification/RuntimeConfig.thy ===== *)
theory RuntimeConfig
  imports APITypes
begin

text \<open>
  \<open>internal/csi/runtimeconfig\<close>: which issuer the two programs use now. \<open>memory.go\<close> holds a
  configuration in memory, \<open>configmap.go\<close> follows a Kubernetes ConfigMap, \<open>runtimeconfig.go\<close>
  chooses between them. Every access to \<open>active\<close> is under the lock, so an operation is one
  step. The goroutines are step functions over what they can receive: the result of
  \<open>Watch\<close>, an event, the end of the channel, the end of the context. The locale
  \<open>config_source\<close> is the contract of \<open>runtimeconfig.Interface\<close>; both implementations are
  interpreted in it.
\<close>

section \<open>Definitions\<close>

record Config =
  cfg_IssuerRef :: IssuerReference

record DynamicConfig =
  dc_ConfigMapName :: string
  dc_ConfigMapNamespace :: string

record RCOptions =
  ro_StaticConfig :: Config
  ro_DynamicConfig :: DynamicConfig

definition zeroConfig :: Config where
  "zeroConfig = \<lparr>cfg_IssuerRef = \<lparr>ir_Name = [], ir_Kind = [], ir_Group = []\<rparr>\<rparr>"

subsection \<open>memory.go\<close>

text \<open>\<open>mem_running\<close> says whether the goroutine of \<open>NewMemory\<close> is alive.\<close>

record memory =
  mem_active :: Config
  mem_running :: bool

datatype memEvent =
    MemUpdate Config  \<comment> \<open>a value arrives on \<open>updates\<close>\<close>
  | MemClosed         \<comment> \<open>\<open>updates\<close> was closed: receiving gives the zero value\<close>
  | MemDone           \<comment> \<open>the context ended\<close>

definition rc_NewMemory :: "Config \<Rightarrow> bool \<Rightarrow> memory" where
  "rc_NewMemory initial hasUpdates = \<lparr>mem_active = initial, mem_running = hasUpdates\<rparr>"

fun memory_step :: "memory \<Rightarrow> memEvent \<Rightarrow> memory" where
  "memory_step m (MemUpdate cfg) = (if mem_running m then m\<lparr>mem_active := cfg\<rparr> else m)"
| "memory_step m MemClosed = (if mem_running m then m\<lparr>mem_active := zeroConfig\<rparr> else m)"
| "memory_step m MemDone = m\<lparr>mem_running := False\<rparr>"

definition memory_Config :: "memory \<Rightarrow> Config" where
  "memory_Config m = mem_active m"

subsection \<open>configmap.go\<close>

definition issuerNameKey :: string where "issuerNameKey = ''issuer-name''"
definition issuerKindKey :: string where "issuerKindKey = ''issuer-kind''"
definition issuerGroupKey :: string where "issuerGroupKey = ''issuer-group''"

text \<open>Where the goroutine \<open>start\<close> is: before a call of \<open>Watch\<close>, in the inner loop, returned.\<close>

datatype watchPhase = Starting | Watching | Stopped

record configmap =
  cm_configMapName :: string
  cm_configMapNamespace :: string
  cm_active :: Config
  cm_static :: Config
  cm_phase :: watchPhase

definition NewConfigMap :: "string \<Rightarrow> string \<Rightarrow> Config \<Rightarrow> configmap" where
  "NewConfigMap name ns static =
     \<lparr>cm_configMapName = name, cm_configMapNamespace = ns, cm_active = static,
      cm_static = static, cm_phase = Starting\<rparr>"

text \<open>The object of a watch event: a ConfigMap with its data, or something else.\<close>

datatype watchObject = ConfigMapObject "string \<rightharpoonup> string" | OtherObject

datatype watchEvent =
    WatchAdded watchObject
  | WatchModified watchObject
  | WatchDeleted watchObject
  | WatchBookmark
  | WatchError watchObject
  | WatchUnknown string

text \<open>A Go map lookup with the comma-ok form: the zero value when the key is absent.\<close>

definition lookupKey :: "(string \<rightharpoonup> string) \<Rightarrow> string \<Rightarrow> string \<times> bool" where
  "lookupKey m k = (case m k of None \<Rightarrow> ([], False) | Some v \<Rightarrow> (v, True))"

text \<open>One of the three key checks: the value and the error it appends.\<close>

definition requireKey :: "(string \<rightharpoonup> string) \<Rightarrow> string \<Rightarrow> string \<Rightarrow> string \<times> goerr list" where
  "requireKey m k fmt =
     (case lookupKey m k of (v, exists) \<Rightarrow>
        (v, if \<not> exists \<or> length v = 0 then [Errorf fmt [VStr k]] else []))"

definition handleChange :: "configmap \<Rightarrow> watchObject \<Rightarrow> goerr option \<times> configmap" where
  "handleChange c obj =
     (case obj of
        OtherObject \<Rightarrow>
          (Some (Errorf
             ''got unexpected type for runtime configuration source; this is likely a programming error''
             []), c)
      | ConfigMapObject cm \<Rightarrow>
          let (name, e1) = requireKey cm issuerNameKey ''missing key/value in ConfigMap data: %s'';
              (kind, e2) = requireKey cm issuerKindKey ''missing key/value in ConfigMap data: %s'';
              (group, e3) = requireKey cm issuerGroupKey ''missing key/value in ConfigMap data; %s'';
              dataErrs = e1 @ e2 @ e3
          in if length dataErrs > 0 then (errors_Join dataErrs, c)
             else (None, c\<lparr>cm_active :=
                     \<lparr>cfg_IssuerRef = \<lparr>ir_Name = name, ir_Kind = kind, ir_Group = group\<rparr>\<rparr>\<rparr>))"

definition handleDeletion :: "configmap \<Rightarrow> configmap" where
  "handleDeletion c = c\<lparr>cm_active := cm_static c\<rparr>"

definition configmap_Config :: "configmap \<Rightarrow> Config" where
  "configmap_Config c = cm_active c"

text \<open>The \<open>switch\<close> on the event type; an error of \<open>handleChange\<close> is logged only.\<close>

fun handleWatchEvent :: "configmap \<Rightarrow> watchEvent \<Rightarrow> configmap" where
  "handleWatchEvent c (WatchDeleted obj) = handleDeletion c"
| "handleWatchEvent c (WatchAdded obj) = snd (handleChange c obj)"
| "handleWatchEvent c (WatchModified obj) = snd (handleChange c obj)"
| "handleWatchEvent c WatchBookmark = c"
| "handleWatchEvent c (WatchError obj) = c"
| "handleWatchEvent c (WatchUnknown t) = c"

text \<open>
  The loop of \<open>start\<close>. Before the watch exists the goroutine only looks at the result of
  \<open>Watch\<close> (on an error it sleeps and tries again); in the inner loop it takes the end of
  the context, the end of the channel or an event.
\<close>

datatype loopEvent =
    WatchFailed goerr
  | WatchStarted
  | CtxDone
  | ChanClosed
  | ChanEvent watchEvent

fun start_step :: "configmap \<Rightarrow> loopEvent \<Rightarrow> configmap" where
  "start_step c (WatchFailed e) = c"
| "start_step c WatchStarted = (if cm_phase c = Starting then c\<lparr>cm_phase := Watching\<rparr> else c)"
| "start_step c CtxDone = (if cm_phase c = Watching then c\<lparr>cm_phase := Stopped\<rparr> else c)"
| "start_step c ChanClosed = (if cm_phase c = Watching then c\<lparr>cm_phase := Starting\<rparr> else c)"
| "start_step c (ChanEvent ev) = (if cm_phase c = Watching then handleWatchEvent c ev else c)"

subsection \<open>runtimeconfig.go\<close>

datatype rtConfig = MemoryImpl memory | ConfigMapImpl configmap

fun rt_Config :: "rtConfig \<Rightarrow> Config" where
  "rt_Config (MemoryImpl m) = memory_Config m"
| "rt_Config (ConfigMapImpl c) = configmap_Config c"

text \<open>\<open>hasClient\<close>: the client argument is not \<open>nil\<close>.\<close>

definition runtimeconfig_New :: "bool \<Rightarrow> RCOptions \<Rightarrow> goerr + rtConfig" where
  "runtimeconfig_New hasClient opts =
     (if dc_ConfigMapName (ro_DynamicConfig opts) \<noteq> [] then
        (if \<not> hasClient
         then Inl (Errorf ''a Kubernetes client is required when ConfigMapName is set'' [])
         else Inr (ConfigMapImpl (NewConfigMap (dc_ConfigMapName (ro_DynamicConfig opts))
                     (dc_ConfigMapNamespace (ro_DynamicConfig opts)) (ro_StaticConfig opts))))
      else if ir_Name (cfg_IssuerRef (ro_StaticConfig opts)) = []
      then Inl (Errorf
             ''runtime issuance configuration is required if no issuer is provided at startup'' [])
      else Inr (MemoryImpl (rc_NewMemory (ro_StaticConfig opts) False)))"

section \<open>The interface\<close>

text \<open>Every field of the issuer reference is set.\<close>

definition complete :: "Config \<Rightarrow> bool" where
  "complete cfg \<longleftrightarrow> ir_Name (cfg_IssuerRef cfg) \<noteq> [] \<and> ir_Kind (cfg_IssuerRef cfg) \<noteq> []
     \<and> ir_Group (cfg_IssuerRef cfg) \<noteq> []"

text \<open>
  The contract: a source starts with the static configuration, and what it returns after
  any sequence of events is the static configuration or a complete one.
\<close>

locale config_source =
  fixes init :: "'s"
    and step :: "'s \<Rightarrow> 'e \<Rightarrow> 's"
    and config :: "'s \<Rightarrow> Config"
    and static :: Config
    and inv :: "'s \<Rightarrow> bool"
  assumes init_config: "config init = static"
    and inv_init: "inv init"
    and inv_step: "inv s \<Longrightarrow> inv (step s e)"
    and inv_config: "inv s \<Longrightarrow> config s = static \<or> complete (config s)"
begin

lemma run_inv: "inv s \<Longrightarrow> inv (foldl step s es)"
  by (induction es arbitrary: s) (simp_all add: inv_step)

lemma run_config: "config (foldl step init es) = static \<or> complete (config (foldl step init es))"
  by (rule inv_config [OF run_inv [OF inv_init]])

lemma run_named:
  "ir_Name (cfg_IssuerRef static) \<noteq> [] \<Longrightarrow> ir_Name (cfg_IssuerRef (config (foldl step init es))) \<noteq> []"
  using run_config [of es] by (auto simp: complete_def)

end

section \<open>Lemmas\<close>

lemma requireKey_simps:
  "snd (requireKey m k fmt) = [] \<longleftrightarrow> (\<exists>v. m k = Some v \<and> v \<noteq> [])"
  "m k = Some v \<Longrightarrow> fst (requireKey m k fmt) = v"
  by (auto simp: requireKey_def lookupKey_def split: option.splits)

text \<open>The configuration a ConfigMap's data describes, if it is complete.\<close>

definition dataConfig :: "(string \<rightharpoonup> string) \<Rightarrow> Config option" where
  "dataConfig cm =
     (case (cm issuerNameKey, cm issuerKindKey, cm issuerGroupKey) of
        (Some n, Some k, Some g) \<Rightarrow>
          if n \<noteq> [] \<and> k \<noteq> [] \<and> g \<noteq> []
          then Some \<lparr>cfg_IssuerRef = \<lparr>ir_Name = n, ir_Kind = k, ir_Group = g\<rparr>\<rparr> else None
      | _ \<Rightarrow> None)"

lemma dataConfig_complete: "dataConfig cm = Some cfg \<Longrightarrow> complete cfg"
  by (auto simp: dataConfig_def complete_def split: option.splits if_splits)

lemma handleChange_ConfigMap:
  "snd (handleChange c (ConfigMapObject cm)) =
     (case dataConfig cm of None \<Rightarrow> c | Some cfg \<Rightarrow> c\<lparr>cm_active := cfg\<rparr>)"
  "fst (handleChange c (ConfigMapObject cm)) = None \<longleftrightarrow> dataConfig cm \<noteq> None"
  by (auto simp: handleChange_def requireKey_def lookupKey_def dataConfig_def errors_Join_def Let_def
      split: option.splits)

lemma handleChange_Other [simp]: "snd (handleChange c OtherObject) = c"
  by (simp add: handleChange_def)

lemma handleChange_active:
  "cm_active (snd (handleChange c obj)) = cm_active c \<or> complete (cm_active (snd (handleChange c obj)))"
  "cm_static (snd (handleChange c obj)) = cm_static c"
  "cm_phase (snd (handleChange c obj)) = cm_phase c"
  by (cases obj; auto simp: handleChange_ConfigMap dest: dataConfig_complete split: option.splits)+

definition cm_inv :: "Config \<Rightarrow> configmap \<Rightarrow> bool" where
  "cm_inv static c \<longleftrightarrow> cm_static c = static \<and> (cm_active c = static \<or> complete (cm_active c))"

lemma handleChange_inv: "cm_inv static c \<Longrightarrow> cm_inv static (snd (handleChange c obj))"
  using handleChange_active [of c obj] by (auto simp: cm_inv_def)

lemma handleWatchEvent_inv: "cm_inv static c \<Longrightarrow> cm_inv static (handleWatchEvent c ev)"
  by (cases ev) (simp_all add: handleChange_inv, simp add: cm_inv_def handleDeletion_def)

interpretation cmsrc: config_source "NewConfigMap name ns static" start_step configmap_Config
    static "cm_inv static" for name ns static
proof unfold_locales
  show "configmap_Config (NewConfigMap name ns static) = static"
    by (simp add: configmap_Config_def NewConfigMap_def)
  show "cm_inv static (NewConfigMap name ns static)"
    by (simp add: cm_inv_def NewConfigMap_def)
  show "cm_inv static (start_step s e)" if "cm_inv static s" for s e
    using that by (cases "(s, e)" rule: start_step.cases)
      (auto simp: handleWatchEvent_inv, auto simp: cm_inv_def)
  show "configmap_Config s = static \<or> complete (configmap_Config s)" if "cm_inv static s" for s
    using that by (simp add: cm_inv_def configmap_Config_def)
qed

interpretation memsrc: config_source "rc_NewMemory static False" memory_step memory_Config
    static "\<lambda>m. mem_active m = static \<and> \<not> mem_running m" for static
proof unfold_locales
  show "mem_active (memory_step s e) = static \<and> \<not> mem_running (memory_step s e)"
    if "mem_active s = static \<and> \<not> mem_running s" for s e
    using that by (cases "(s, e)" rule: memory_step.cases) auto
qed (simp_all add: memory_Config_def rc_NewMemory_def)


text \<open>
  The abstract specification of the watcher: the events that reach the inner loop, and the
  configuration the latest decisive one of them (newest first) stands for.
\<close>

fun delivered :: "watchPhase \<Rightarrow> loopEvent list \<Rightarrow> watchEvent list" where
  "delivered ph [] = []"
| "delivered Starting (WatchStarted # es) = delivered Watching es"
| "delivered Watching (CtxDone # es) = []"
| "delivered Watching (ChanClosed # es) = delivered Starting es"
| "delivered Watching (ChanEvent ev # es) = ev # delivered Watching es"
| "delivered ph (_ # es) = delivered ph es"

fun decisive :: "Config \<Rightarrow> watchEvent list \<Rightarrow> Config" where
  "decisive static [] = static"
| "decisive static (WatchDeleted obj # es) = static"
| "decisive static (WatchAdded (ConfigMapObject cm) # es) =
     (case dataConfig cm of Some cfg \<Rightarrow> cfg | None \<Rightarrow> decisive static es)"
| "decisive static (WatchModified (ConfigMapObject cm) # es) =
     (case dataConfig cm of Some cfg \<Rightarrow> cfg | None \<Rightarrow> decisive static es)"
| "decisive static (_ # es) = decisive static es"

lemma handleWatchEvent_frame [simp]:
  "cm_static (handleWatchEvent c ev) = cm_static c"
  "cm_phase (handleWatchEvent c ev) = cm_phase c"
  by (cases ev; simp add: handleDeletion_def handleChange_active)+

lemma handleWatchEvent_decisive:
  "cm_active c = decisive (cm_static c) es \<Longrightarrow>
   cm_active (handleWatchEvent c ev) = decisive (cm_static c) (ev # es)"
proof (cases ev)
  case (WatchAdded obj)
  then show "cm_active c = decisive (cm_static c) es \<Longrightarrow> ?thesis"
    by (cases obj) (auto simp: handleChange_ConfigMap split: option.splits)
next
  case (WatchModified obj)
  then show "cm_active c = decisive (cm_static c) es \<Longrightarrow> ?thesis"
    by (cases obj) (auto simp: handleChange_ConfigMap split: option.splits)
qed (simp_all add: handleDeletion_def)

lemma stopped_stays: "cm_phase c = Stopped \<Longrightarrow> foldl start_step c es = c"
proof (induction es)
  case (Cons e es)
  then show ?case by (cases e) auto
qed simp

lemma run_decisive:
  "cm_active c = decisive (cm_static c) past \<Longrightarrow>
   cm_active (foldl start_step c es) = decisive (cm_static c) (rev (delivered (cm_phase c) es) @ past)"
proof (induction es arbitrary: c past)
  case (Cons e es)
  show ?case
  proof (cases "cm_phase c")
    case Starting
    with Cons show ?thesis by (cases e) auto
  next
    case Watching
    show ?thesis
    proof (cases e)
      case (ChanEvent ev)
      with Cons.IH [of "handleWatchEvent c ev" "ev # past"] Cons.prems Watching show ?thesis
        by (simp add: handleWatchEvent_decisive)
    qed (use Cons Watching stopped_stays [of "c\<lparr>cm_phase := Stopped\<rparr>"] in auto)
  next
    case Stopped
    then have "delivered (cm_phase c) (e # es) = delivered Stopped es" by (cases e) auto
    moreover have "delivered Stopped xs = []" for xs
    proof (induction xs)
      case (Cons x xs)
      then show ?case by (cases x) auto
    qed simp
    ultimately show ?thesis
      using Stopped Cons.prems stopped_stays [of c "e # es"] by (simp del: foldl_Cons)
  qed
qed simp

text \<open>Restarting the watch keeps the active configuration: the end of the channel, failed
  \<open>Watch\<close> calls and the new watch change nothing. A ConfigMap that is deleted while no watch is
  open therefore stays in force until some later event of the watch replaces it.\<close>

lemma restart_keeps_configuration:
  assumes "\<forall>e \<in> set es. \<not> (\<exists>ev. e = ChanEvent ev)"
  shows "configmap_Config (foldl start_step c es) = configmap_Config c"
  using assms
proof (induction es arbitrary: c)
  case (Cons e es)
  then have "configmap_Config (start_step c e) = configmap_Config c"
    by (cases e) (auto simp: configmap_Config_def)
  with Cons show ?case by simp
qed simp

text \<open>\<open>New\<close> fails exactly in the two documented cases: neither a ConfigMap name nor a static
  issuer name is set, or a ConfigMap name is set and there is no client.\<close>

lemma runtimeconfig_New_fails_iff:
  "(\<exists>e. runtimeconfig_New hasClient opts = Inl e) \<longleftrightarrow>
     (if dc_ConfigMapName (ro_DynamicConfig opts) = []
      then ir_Name (cfg_IssuerRef (ro_StaticConfig opts)) = [] else \<not> hasClient)"
  by (simp add: runtimeconfig_New_def)

section \<open>Properties\<close>

text \<open>C16: The ConfigMap watcher refines its history. After any sequence of watch failures,
  restarts, closed channels, context ends and events, the configuration it returns is the one
  of the latest decisive event it received: the data of the latest complete ConfigMap, or the
  static configuration if a deletion came later or nothing decisive was received. Incomplete
  or foreign objects, bookmarks, error events and unknown events change nothing.\<close>

theorem watcher_refines_history:
  "configmap_Config (foldl start_step (NewConfigMap name ns static) es) =
   decisive static (rev (delivered Starting es))"
  using run_decisive [of "NewConfigMap name ns static" "[]" es]
  by (simp add: NewConfigMap_def configmap_Config_def)

text \<open>C33: \<open>handleChange\<close> on a ConfigMap: it returns \<open>nil\<close> exactly when the three keys have
  non-empty values, the active configuration is then these values, and otherwise it is left as
  it was. The static fallback is never changed.\<close>

theorem handleChange_spec:
  "(fst (handleChange c (ConfigMapObject cm)) = None \<longleftrightarrow>
      (\<exists>n k g. cm issuerNameKey = Some n \<and> cm issuerKindKey = Some k \<and> cm issuerGroupKey = Some g
         \<and> n \<noteq> [] \<and> k \<noteq> [] \<and> g \<noteq> []))
   \<and> (case dataConfig cm of
        Some cfg \<Rightarrow> configmap_Config (snd (handleChange c (ConfigMapObject cm))) = cfg
                    \<and> complete cfg
      | None \<Rightarrow> snd (handleChange c (ConfigMapObject cm)) = c)
   \<and> cm_static (snd (handleChange c (ConfigMapObject cm))) = cm_static c"
  by (auto simp: handleChange_ConfigMap configmap_Config_def complete_def dataConfig_def
      split: option.splits)

text \<open>C32: What \<open>runtimeconfig.New\<close> builds is a source that never loses its issuer: whatever
  events reach it, a source built with a static issuer always returns a configuration with an
  issuer name, and what a source returns is always the static configuration or one with name,
  kind and group set.\<close>

theorem configured_issuer_never_lost:
  assumes "runtimeconfig_New hasClient opts = Inr src"
  shows "(\<forall>m es. src = MemoryImpl m \<longrightarrow>
            rt_Config (MemoryImpl (foldl memory_step m es)) = ro_StaticConfig opts
            \<and> ir_Name (cfg_IssuerRef (ro_StaticConfig opts)) \<noteq> [])
       \<and> (\<forall>c es. src = ConfigMapImpl c \<longrightarrow>
            (let cfg = rt_Config (ConfigMapImpl (foldl start_step c es)) in
             (cfg = ro_StaticConfig opts \<or> complete cfg)
             \<and> (ir_Name (cfg_IssuerRef (ro_StaticConfig opts)) \<noteq> [] \<longrightarrow> ir_Name (cfg_IssuerRef cfg) \<noteq> [])))"
proof -
  have mem: "mem_active (foldl memory_step (rc_NewMemory static False) es) = static" for static es
    using memsrc.run_inv [where es = es, OF memsrc.inv_init] by auto
  show ?thesis
    using assms cmsrc.run_config cmsrc.run_named
    by (auto simp: runtimeconfig_New_def Let_def memory_Config_def mem split: if_splits)
qed

theorem configured_issuer_never_lost_witness:
  "\<exists>c. runtimeconfig_New True
     \<lparr>ro_StaticConfig = \<lparr>cfg_IssuerRef = \<lparr>ir_Name = ''ca'', ir_Kind = ''k'', ir_Group = ''g''\<rparr>\<rparr>,
      ro_DynamicConfig = \<lparr>dc_ConfigMapName = ''cm'', dc_ConfigMapNamespace = ''ns''\<rparr>\<rparr>
     = Inr (ConfigMapImpl c)
   \<and> ir_Name (cfg_IssuerRef (rt_Config (ConfigMapImpl (foldl start_step c
        [WatchStarted, ChanEvent (WatchAdded (ConfigMapObject Map.empty))])))) \<noteq> []"
proof -
  let ?opts = "\<lparr>ro_StaticConfig = \<lparr>cfg_IssuerRef = \<lparr>ir_Name = ''ca'', ir_Kind = ''k'', ir_Group = ''g''\<rparr>\<rparr>,
      ro_DynamicConfig = \<lparr>dc_ConfigMapName = ''cm'', dc_ConfigMapNamespace = ''ns''\<rparr>\<rparr>"
  let ?c = "NewConfigMap ''cm'' ''ns'' (ro_StaticConfig ?opts)"
  have new: "runtimeconfig_New True ?opts = Inr (ConfigMapImpl ?c)"
    by (simp add: runtimeconfig_New_def)
  show ?thesis
    using new configured_issuer_never_lost [OF new]
    by (simp add: Let_def del: foldl_Cons foldl_Nil)
qed

text \<open>C40: While \<open>Watch\<close> keeps failing the goroutine \<open>start\<close> never returns: any sequence of failed
  \<open>Watch\<close> calls leaves it before the next call, also when the context has ended in between,
  since only the inner loop looks at the context. The comment on \<open>start\<close> says that it returns
  when the context is cancelled.\<close>

theorem watch_retry_ignores_cancellation:
  assumes "cm_phase c = Starting" and "\<forall>e \<in> set es. e = CtxDone \<or> (\<exists>err. e = WatchFailed err)"
  shows "foldl start_step c es = c"
  using assms
proof (induction es)
  case (Cons e es)
  then show ?case by (cases e) auto
qed simp

theorem watch_retry_ignores_cancellation_witness:
  "cm_phase (foldl start_step (NewConfigMap ''cm'' ''ns'' zeroConfig)
     [WatchFailed (ErrLib ''refused''), CtxDone, WatchFailed (ErrLib ''context canceled'')]) \<noteq> Stopped"
  using watch_retry_ignores_cancellation [of "NewConfigMap ''cm'' ''ns'' zeroConfig"
      "[WatchFailed (ErrLib ''refused''), CtxDone, WatchFailed (ErrLib ''context canceled'')]"]
  by (simp add: NewConfigMap_def)

end
