(* ===== verification/Approver.thy ===== *)
theory Approver
  imports Evaluator RuntimeConfig
begin

text \<open>
  \<open>internal/approver/controller/controller.go\<close>: the controller that approves or denies
  CertificateRequests. \<open>AddApprover\<close> builds the approver and installs the event filter
  (\<open>eventFilter\<close>); \<open>Reconcile\<close> reads one request from the cache, decides, and updates its
  status. The Kubernetes client and cache are a record of functions over a world
  (\<open>kube\<close>); cert-manager's condition functions, its CSR decoder and the text of an error are
  the record \<open>controller_deps\<close>. The second half places the controller in a cluster with a
  work queue: a step relation with other parties that create, edit and delete requests.
\<close>

section \<open>Definitions\<close>

datatype getResult = GetOk CertificateRequest | GetNotFound | GetErr goerr

record 'w kube =
  kube_Get :: "'w \<Rightarrow> string \<times> string \<Rightarrow> getResult"
  kube_UpdateStatus :: "CertificateRequest \<Rightarrow> 'w \<Rightarrow> goerr option \<times> 'w"

record controller_deps =
  CertificateRequestIsApproved :: "CertificateRequest \<Rightarrow> bool"
  CertificateRequestIsDenied :: "CertificateRequest \<Rightarrow> bool"
  SetCertificateRequestCondition ::
    "CertificateRequest \<Rightarrow> ConditionType \<Rightarrow> ConditionStatus \<Rightarrow> string \<Rightarrow> string \<Rightarrow> CertificateRequest"
  cd_Decode :: "bytes \<Rightarrow> goerr + X509CSR"
  cd_Error :: "goerr \<Rightarrow> string"

text \<open>\<open>controller.Options\<close> and the structure \<open>approver\<close>, without logger and client.\<close>

record ControllerOptions =
  co_Evaluator :: "CertificateRequest \<Rightarrow> goerr option"
  co_RuntimeConfig :: rtConfig
  co_AutoApproveNonSPIFFE :: bool

record approver =
  ap_evaluator :: "CertificateRequest \<Rightarrow> goerr option"
  ap_runtimeConfig :: rtConfig
  ap_autoApproveNonSPIFFE :: bool

definition AddApprover :: "ControllerOptions \<Rightarrow> approver" where
  "AddApprover opts =
     \<lparr>ap_evaluator = co_Evaluator opts,
      ap_runtimeConfig = co_RuntimeConfig opts,
      ap_autoApproveNonSPIFFE = co_AutoApproveNonSPIFFE opts\<rparr>"

abbreviation annotated :: "CertificateRequest \<Rightarrow> bool" where
  "annotated cr \<equiv> cr_Annotations cr SPIFFEIdentityAnnnotationKey \<noteq> None"

text \<open>The predicate given to \<open>WithEventFilter\<close>: pass the event on, drop it, or \<open>os.Exit(1)\<close>.\<close>

datatype filterResult = Process | Ignore | ExitError

definition eventFilter ::
    "controller_deps \<Rightarrow> approver \<Rightarrow> 'w kube \<Rightarrow> 'w \<Rightarrow> string \<times> string \<Rightarrow> filterResult" where
  "eventFilter d a k w key =
     (case kube_Get k w key of
        GetNotFound \<Rightarrow> Ignore
      | GetErr e \<Rightarrow> ExitError
      | GetOk req \<Rightarrow>
          if CertificateRequestIsApproved d req \<or> CertificateRequestIsDenied d req then Ignore
          else if annotated req \<or> ap_autoApproveNonSPIFFE a then Process
          else Ignore)"

definition reasonText :: string where
  "reasonText = ''spiffe.csi.cert-manager.io''"

definition approveRequest :: "controller_deps \<Rightarrow> CertificateRequest \<Rightarrow> CertificateRequest" where
  "approveRequest d cr =
     SetCertificateRequestCondition d cr ConditionApproved ConditionTrue reasonText ''Approved request''"

definition denyRequest :: "controller_deps \<Rightarrow> CertificateRequest \<Rightarrow> string \<Rightarrow> CertificateRequest" where
  "denyRequest d cr msg =
     SetCertificateRequestCondition d cr ConditionDenied ConditionTrue reasonText
       (''Denied request: '' @ msg)"

text \<open>The CSR decodes and one of its URIs has the scheme \<open>spiffe\<close>.\<close>

definition hasSpiffeURI :: "controller_deps \<Rightarrow> CertificateRequest \<Rightarrow> bool" where
  "hasSpiffeURI d cr =
     (case cd_Decode d (cr_Request cr) of
        Inl _ \<Rightarrow> False
      | Inr csr \<Rightarrow> list_ex (\<lambda>uri. u_Scheme uri = ''spiffe'') (csr_URIs csr))"

text \<open>The body of \<open>Reconcile\<close> after the request was read: the object its status is updated from.\<close>

definition decideRequest :: "controller_deps \<Rightarrow> approver \<Rightarrow> CertificateRequest \<Rightarrow> CertificateRequest" where
  "decideRequest d a cr =
     (if annotated cr then
        (case ap_evaluator a cr of
           Some err \<Rightarrow> denyRequest d cr (cd_Error d err)
         | None \<Rightarrow> approveRequest d cr)
      else if hasSpiffeURI d cr
      then denyRequest d cr ''non-SPIFFE certificate request contains SPIFFE URI SAN''
      else if cr_IssuerRef cr = cfg_IssuerRef (rt_Config (ap_runtimeConfig a))
      then denyRequest d cr ''non-SPIFFE certificate targeting configured SPIFFE issuer''
      else approveRequest d cr)"

definition Reconcile ::
    "controller_deps \<Rightarrow> approver \<Rightarrow> 'w kube \<Rightarrow> string \<times> string \<Rightarrow> 'w \<Rightarrow> goerr option \<times> 'w" where
  "Reconcile d a k key w =
     (case kube_Get k w key of
        GetNotFound \<Rightarrow> (None, w)
      | GetErr e \<Rightarrow> (Some e, w)
      | GetOk cr \<Rightarrow> kube_UpdateStatus k (decideRequest d a cr) w)"

text \<open>
  What the controller relies on of cert-manager's condition functions: setting a condition to
  true makes the matching test true, leaves the other test alone, and changes nothing of the
  request but its conditions; the tests do not look at its resource version.
\<close>

definition conditions_ok :: "controller_deps \<Rightarrow> bool" where
  "conditions_ok d \<longleftrightarrow>
     (\<forall>cr r m. CertificateRequestIsApproved d
                 (SetCertificateRequestCondition d cr ConditionApproved ConditionTrue r m))
     \<and> (\<forall>cr r m. CertificateRequestIsDenied d
                 (SetCertificateRequestCondition d cr ConditionDenied ConditionTrue r m))
     \<and> (\<forall>cr st r m. CertificateRequestIsApproved d
                 (SetCertificateRequestCondition d cr ConditionDenied st r m)
               = CertificateRequestIsApproved d cr)
     \<and> (\<forall>cr st r m. CertificateRequestIsDenied d
                 (SetCertificateRequestCondition d cr ConditionApproved st r m)
               = CertificateRequestIsDenied d cr)
     \<and> (\<forall>cr t st r m. (SetCertificateRequestCondition d cr t st r m)\<lparr>cr_Conditions := cr_Conditions cr\<rparr>
               = cr)
     \<and> (\<forall>cr v. CertificateRequestIsApproved d (cr\<lparr>cr_ResourceVersion := v\<rparr>)
               = CertificateRequestIsApproved d cr)
     \<and> (\<forall>cr v. CertificateRequestIsDenied d (cr\<lparr>cr_ResourceVersion := v\<rparr>)
               = CertificateRequestIsDenied d cr)"

section \<open>The controller in a cluster\<close>

text \<open>
  The requests the API server holds (the informer cache is up to date), the keys in the work
  queue, and the controller. \<open>edits\<close> says whether other parties may also edit the metadata of a
  request or delete it.
\<close>

record cluster =
  cl_store :: "string \<times> string \<rightharpoonup> CertificateRequest"
  cl_queue :: "(string \<times> string) set"
  cl_approver :: approver

definition clusterKube :: "(string \<times> string \<rightharpoonup> CertificateRequest) kube" where
  "clusterKube =
     \<lparr>kube_Get = (\<lambda>w key. case w key of None \<Rightarrow> GetNotFound | Some cr \<Rightarrow> GetOk cr),
      kube_UpdateStatus = (\<lambda>cr w.
        let key = (cr_Namespace cr, cr_Name cr) in
        case w key of
          None \<Rightarrow> (Some (ErrLib ''not found''), w)
        | Some old \<Rightarrow> (None, w(key \<mapsto> old\<lparr>cr_Conditions := cr_Conditions cr\<rparr>)))\<rparr>"

inductive cluster_step :: "controller_deps \<Rightarrow> bool \<Rightarrow> cluster \<Rightarrow> cluster \<Rightarrow> bool"
  for d edits where
  create: "cl_store c key = None \<Longrightarrow> key = (cr_Namespace cr, cr_Name cr) \<Longrightarrow>
    \<not> CertificateRequestIsApproved d cr \<Longrightarrow> \<not> CertificateRequestIsDenied d cr \<Longrightarrow>
    cluster_step d edits c (c\<lparr>cl_store := (cl_store c)(key \<mapsto> cr)\<rparr>)"
| sync: "eventFilter d (cl_approver c) clusterKube (cl_store c) key = Process \<Longrightarrow>
    cluster_step d edits c (c\<lparr>cl_queue := insert key (cl_queue c)\<rparr>)"
| reconcile: "key \<in> cl_queue c \<Longrightarrow>
    cluster_step d edits c
      (c\<lparr>cl_store := snd (Reconcile d (cl_approver c) clusterKube key (cl_store c)),
         cl_queue := cl_queue c - {key}\<rparr>)"
| configure: "cluster_step d edits c (c\<lparr>cl_approver := (cl_approver c)\<lparr>ap_runtimeConfig := rt\<rparr>\<rparr>)"
| annotate: "edits \<Longrightarrow> cl_store c key = Some cr \<Longrightarrow>
    cluster_step d edits c (c\<lparr>cl_store := (cl_store c)(key \<mapsto> cr\<lparr>cr_Annotations := an\<rparr>)\<rparr>)"
| delete: "edits \<Longrightarrow>
    cluster_step d edits c (c\<lparr>cl_store := (cl_store c)(key := None)\<rparr>)"

definition cluster_init :: "approver \<Rightarrow> cluster" where
  "cluster_init a = \<lparr>cl_store = Map.empty, cl_queue = {}, cl_approver = a\<rparr>"

inductive cluster_reachable :: "controller_deps \<Rightarrow> bool \<Rightarrow> approver \<Rightarrow> cluster \<Rightarrow> bool"
  for d edits a where
  start: "cluster_reachable d edits a (cluster_init a)"
| step: "cluster_reachable d edits a c \<Longrightarrow> cluster_step d edits c c' \<Longrightarrow>
    cluster_reachable d edits a c'"

section \<open>Lemmas\<close>

lemmas conditions_simps = conditions_ok_def approveRequest_def denyRequest_def

lemma approveRequest_ok:
  assumes "conditions_ok d"
  shows "CertificateRequestIsApproved d (approveRequest d cr)"
    and "CertificateRequestIsDenied d (approveRequest d cr) = CertificateRequestIsDenied d cr"
    and "(approveRequest d cr)\<lparr>cr_Conditions := cr_Conditions cr\<rparr> = cr"
  using assms by (simp_all add: conditions_simps)

lemma conditions_version:
  assumes "conditions_ok d"
  shows "CertificateRequestIsApproved d (cr\<lparr>cr_ResourceVersion := v\<rparr>) = CertificateRequestIsApproved d cr"
    and "CertificateRequestIsDenied d (cr\<lparr>cr_ResourceVersion := v\<rparr>) = CertificateRequestIsDenied d cr"
  using assms by (simp_all add: conditions_ok_def)

lemma denyRequest_ok:
  assumes "conditions_ok d"
  shows "CertificateRequestIsDenied d (denyRequest d cr m)"
    and "CertificateRequestIsApproved d (denyRequest d cr m) = CertificateRequestIsApproved d cr"
    and "(denyRequest d cr m)\<lparr>cr_Conditions := cr_Conditions cr\<rparr> = cr"
  using assms by (simp_all add: conditions_simps)

text \<open>The verdict as a predicate of the request alone.\<close>

definition approves :: "controller_deps \<Rightarrow> approver \<Rightarrow> CertificateRequest \<Rightarrow> bool" where
  "approves d a cr \<longleftrightarrow>
     (if annotated cr then ap_evaluator a cr = None
      else \<not> hasSpiffeURI d cr \<and> cr_IssuerRef cr \<noteq> cfg_IssuerRef (rt_Config (ap_runtimeConfig a)))"

lemma decideRequest_cases:
  "if approves d a cr then decideRequest d a cr = approveRequest d cr
   else \<exists>m. decideRequest d a cr = denyRequest d cr m"
  by (auto simp: approves_def decideRequest_def split: option.splits)

lemma decideRequest_ok:
  assumes "conditions_ok d"
  shows "CertificateRequestIsApproved d (decideRequest d a cr) \<longleftrightarrow>
           approves d a cr \<or> CertificateRequestIsApproved d cr"
    and "CertificateRequestIsDenied d (decideRequest d a cr) \<longleftrightarrow>
           \<not> approves d a cr \<or> CertificateRequestIsDenied d cr"
    and "(decideRequest d a cr)\<lparr>cr_Conditions := cr_Conditions cr\<rparr> = cr"
  using decideRequest_cases [of d a cr] approveRequest_ok [OF assms] denyRequest_ok [OF assms]
  by (auto split: if_splits)


lemma decideRequest_frame:
  assumes "conditions_ok d"
  shows "cr_Namespace (decideRequest d a cr) = cr_Namespace cr"
    and "cr_Name (decideRequest d a cr) = cr_Name cr"
    and "cr_ResourceVersion (decideRequest d a cr) = cr_ResourceVersion cr"
    and "cr_Annotations (decideRequest d a cr) = cr_Annotations cr"
    and "cr_Request (decideRequest d a cr) = cr_Request cr"
    and "cr\<lparr>cr_Conditions := cr_Conditions (decideRequest d a cr)\<rparr> = decideRequest d a cr"
proof -
  obtain cs where "decideRequest d a cr = cr\<lparr>cr_Conditions := cs\<rparr>"
  proof
    show "decideRequest d a cr = cr\<lparr>cr_Conditions := cr_Conditions (decideRequest d a cr)\<rparr>"
      using decideRequest_ok(3) [OF assms, of cr a]
      by (cases "decideRequest d a cr"; cases cr) simp
  qed
  then show "cr_Namespace (decideRequest d a cr) = cr_Namespace cr"
    and "cr_Name (decideRequest d a cr) = cr_Name cr"
    and "cr_ResourceVersion (decideRequest d a cr) = cr_ResourceVersion cr"
    and "cr_Annotations (decideRequest d a cr) = cr_Annotations cr"
    and "cr_Request (decideRequest d a cr) = cr_Request cr"
    and "cr\<lparr>cr_Conditions := cr_Conditions (decideRequest d a cr)\<rparr> = decideRequest d a cr"
    by simp_all
qed

lemma Reconcile_cluster:
  assumes "conditions_ok d" and "w key = Some cr" and "key = (cr_Namespace cr, cr_Name cr)"
  shows "Reconcile d a clusterKube key w = (None, w(key \<mapsto> decideRequest d a cr))"
  using assms by (simp add: Reconcile_def clusterKube_def decideRequest_frame Let_def)

lemma eventFilter_cluster:
  "eventFilter d a clusterKube w key = Process \<longleftrightarrow>
     (\<exists>cr. w key = Some cr \<and> \<not> CertificateRequestIsApproved d cr \<and> \<not> CertificateRequestIsDenied d cr
        \<and> (annotated cr \<or> ap_autoApproveNonSPIFFE a))"
  by (auto simp: eventFilter_def clusterKube_def split: option.splits)

text \<open>One request alone in the cluster: created, queued, decided.\<close>

definition aloneState ::
    "approver \<Rightarrow> CertificateRequest \<Rightarrow> (string \<times> string) set \<Rightarrow> cluster" where
  "aloneState a cr q =
     \<lparr>cl_store = [(cr_Namespace cr, cr_Name cr) \<mapsto> cr], cl_queue = q, cl_approver = a\<rparr>"

lemma reach_created:
  assumes "\<not> CertificateRequestIsApproved d cr" and "\<not> CertificateRequestIsDenied d cr"
  shows "cluster_reachable d edits a (aloneState a cr {})"
proof -
  have "cluster_step d edits (cluster_init a) (aloneState a cr {})"
    using create [of "cluster_init a" "(cr_Namespace cr, cr_Name cr)" cr d edits] assms
    by (simp add: cluster_init_def aloneState_def)
  then show ?thesis using cluster_reachable.start cluster_reachable.step by blast
qed

lemma reach_queued:
  assumes "\<not> CertificateRequestIsApproved d cr" and "\<not> CertificateRequestIsDenied d cr"
    and "annotated cr \<or> ap_autoApproveNonSPIFFE a"
  shows "cluster_reachable d edits a (aloneState a cr {(cr_Namespace cr, cr_Name cr)})"
proof -
  have "cluster_step d edits (aloneState a cr {}) (aloneState a cr {(cr_Namespace cr, cr_Name cr)})"
    using sync [where c = "aloneState a cr {}" and key = "(cr_Namespace cr, cr_Name cr)"] assms
    by (simp add: eventFilter_cluster aloneState_def)
  then show ?thesis using reach_created [OF assms(1,2)] cluster_reachable.step by blast
qed

lemma reach_decided:
  assumes "conditions_ok d"
    and "cluster_reachable d edits a (aloneState a cr {(cr_Namespace cr, cr_Name cr)})"
  shows "cluster_reachable d edits a (aloneState a (decideRequest d a cr) {})"
proof -
  let ?c = "aloneState a cr {(cr_Namespace cr, cr_Name cr)}"
  have "Reconcile d a clusterKube (cr_Namespace cr, cr_Name cr) (cl_store ?c) =
      (None, [(cr_Namespace cr, cr_Name cr) \<mapsto> decideRequest d a cr])"
    using Reconcile_cluster [OF assms(1), of "cl_store ?c" "(cr_Namespace cr, cr_Name cr)" cr a]
    by (simp add: aloneState_def)
  then have "cluster_step d edits ?c (aloneState a (decideRequest d a cr) {})"
    using reconcile [of "(cr_Namespace cr, cr_Name cr)" ?c d edits]
    by (simp add: aloneState_def decideRequest_frame [OF assms(1)])
  then show ?thesis using assms(2) cluster_reachable.step by blast
qed

text \<open>
  The invariant of the cluster when nobody edits requests: names agree with keys, an approved
  request went through the check that is right for it, no request has both verdicts, and what
  is queued is undecided and may be processed.
\<close>

definition approval_justified :: "controller_deps \<Rightarrow> approver \<Rightarrow> CertificateRequest \<Rightarrow> bool" where
  "approval_justified d a cr \<longleftrightarrow>
     (if annotated cr then ap_evaluator a cr = None
      else ap_autoApproveNonSPIFFE a \<and> \<not> hasSpiffeURI d cr)"

definition entry_ok :: "controller_deps \<Rightarrow> approver \<Rightarrow> string \<times> string \<Rightarrow> CertificateRequest \<Rightarrow> bool" where
  "entry_ok d a key cr \<longleftrightarrow>
     key = (cr_Namespace cr, cr_Name cr)
     \<and> \<not> (CertificateRequestIsApproved d cr \<and> CertificateRequestIsDenied d cr)
     \<and> (CertificateRequestIsApproved d cr \<longrightarrow> approval_justified d a cr)"

definition queued_ok :: "controller_deps \<Rightarrow> approver \<Rightarrow> CertificateRequest \<Rightarrow> bool" where
  "queued_ok d a cr \<longleftrightarrow>
     \<not> CertificateRequestIsApproved d cr \<and> \<not> CertificateRequestIsDenied d cr
     \<and> (annotated cr \<or> ap_autoApproveNonSPIFFE a)"

definition cluster_inv :: "controller_deps \<Rightarrow> approver \<Rightarrow> cluster \<Rightarrow> bool" where
  "cluster_inv d a c \<longleftrightarrow>
     ap_evaluator (cl_approver c) = ap_evaluator a
     \<and> ap_autoApproveNonSPIFFE (cl_approver c) = ap_autoApproveNonSPIFFE a
     \<and> (\<forall>key cr. cl_store c key = Some cr \<longrightarrow> entry_ok d a key cr)
     \<and> (\<forall>key \<in> cl_queue c. \<exists>cr. cl_store c key = Some cr \<and> queued_ok d a cr)"

lemma cluster_inv_entry: "cluster_inv d a c \<Longrightarrow> cl_store c key = Some cr \<Longrightarrow> entry_ok d a key cr"
  unfolding cluster_inv_def by blast

lemma cluster_inv_queued:
  "cluster_inv d a c \<Longrightarrow> key \<in> cl_queue c \<Longrightarrow> \<exists>cr. cl_store c key = Some cr \<and> queued_ok d a cr"
  unfolding cluster_inv_def by blast

lemma cluster_inv_approver:
  "cluster_inv d a c \<Longrightarrow> ap_evaluator (cl_approver c) = ap_evaluator a"
  "cluster_inv d a c \<Longrightarrow> ap_autoApproveNonSPIFFE (cl_approver c) = ap_autoApproveNonSPIFFE a"
  unfolding cluster_inv_def by blast+

lemma cluster_inv_upd:
  assumes "cluster_inv d a c" and "entry_ok d a key cr"
  shows "cluster_inv d a (c\<lparr>cl_store := (cl_store c)(key \<mapsto> cr), cl_queue := cl_queue c - {key}\<rparr>)"
  using assms unfolding cluster_inv_def by (simp del: split_paired_All)

context evaluator_interface
begin

lemma decideRequest_justified:
  assumes "conditions_ok d" and "ap_evaluator a = Eval"
    and "annotated cr \<or> ap_autoApproveNonSPIFFE a" and "approves d a cr"
  shows "approval_justified d a (decideRequest d a cr)"
proof -
  have "Eval (decideRequest d a cr) = Eval cr"
    using eval_status [where req = cr and cs = "cr_Conditions (decideRequest d a cr)"]
    by (simp add: decideRequest_frame [OF assms(1)])
  then show ?thesis
    using assms(2-4)
    by (simp add: approval_justified_def approves_def hasSpiffeURI_def
        decideRequest_frame [OF assms(1)] split: if_splits)
qed

lemma cluster_inv_reconcile:
  assumes "conditions_ok d" and "ap_evaluator a = Eval" and "cluster_inv d a c" and "key \<in> cl_queue c"
  shows "cluster_inv d a
      (c\<lparr>cl_store := snd (Reconcile d (cl_approver c) clusterKube key (cl_store c)),
         cl_queue := cl_queue c - {key}\<rparr>)"
proof -
  let ?a = "cl_approver c"
  from cluster_inv_queued [OF assms(3,4)] obtain cr where
    cr: "cl_store c key = Some cr" "queued_ok d a cr" by blast
  then have entry: "entry_ok d a key cr"
    using cluster_inv_entry [OF assms(3)] by blast
  have st: "snd (Reconcile d ?a clusterKube key (cl_store c)) =
      (cl_store c)(key \<mapsto> decideRequest d ?a cr)"
    using Reconcile_cluster [OF assms(1), of "cl_store c" key cr ?a] cr(1) entry
    by (simp add: entry_ok_def)
  have just: "approval_justified d a (decideRequest d ?a cr)" if "approves d ?a cr"
    using decideRequest_justified [OF assms(1) _ _ that] cr(2)
      cluster_inv_approver [OF assms(3)] assms(2)
    by (simp add: approval_justified_def queued_ok_def split: if_splits)
  have "entry_ok d a key (decideRequest d ?a cr)"
    using entry just cr(2)
    by (simp add: entry_ok_def queued_ok_def decideRequest_frame [OF assms(1)]
        decideRequest_ok [OF assms(1)])
  from cluster_inv_upd [OF assms(3) this] show ?thesis unfolding st .
qed

lemma cluster_inv_step:
  assumes "conditions_ok d" and "ap_evaluator a = Eval" and "cluster_inv d a c"
    and "cluster_step d False c c'"
  shows "cluster_inv d a c'"
  using assms(4)
proof cases
  case (create key cr)
  then have "entry_ok d a key cr" by (simp add: entry_ok_def)
  moreover have "key \<notin> cl_queue c"
    using create(2) cluster_inv_queued [OF assms(3), of key] by auto
  ultimately show ?thesis
    using cluster_inv_upd [OF assms(3)] create(1) by fastforce
next
  case (sync key)
  then have "\<exists>cr. cl_store c key = Some cr \<and> queued_ok d a cr"
    using cluster_inv_approver [OF assms(3)] by (auto simp: eventFilter_cluster queued_ok_def)
  with assms(3) show ?thesis unfolding sync(1) cluster_inv_def by (simp del: split_paired_All)
next
  case (reconcile key)
  with cluster_inv_reconcile [OF assms(1,2,3)] show ?thesis by simp
next
  case (configure rt)
  with assms(3) show ?thesis unfolding cluster_inv_def by (simp del: split_paired_All)
qed simp_all

lemma reachable_cluster_inv:
  assumes "conditions_ok d" and "ap_evaluator a = Eval" and "cluster_reachable d False a c"
  shows "cluster_inv d a c"
  using assms(3)
proof (induction rule: cluster_reachable.induct)
  case start
  show ?case by (simp add: cluster_inv_def cluster_init_def)
next
  case (step c c')
  then show ?case using cluster_inv_step [OF assms(1,2)] by blast
qed

lemma reachable_approved_justified:
  assumes "conditions_ok d" and "ap_evaluator a = Eval" and "cluster_reachable d False a c"
    and "cl_store c key = Some cr" and "CertificateRequestIsApproved d cr"
  shows "approval_justified d a cr"
  using cluster_inv_entry [OF reachable_cluster_inv [OF assms(1-3)] assms(4)] assms(5)
  by (simp add: entry_ok_def)

lemma reachable_approved_good:
  assumes "conditions_ok d" and "ap_evaluator a = Eval" and "cluster_reachable d False a c"
    and "cl_store c key = Some cr" and "CertificateRequestIsApproved d cr" and "annotated cr"
  shows "Good cr"
  using reachable_approved_justified [OF assms(1-5)] assms(2,6)
  by (simp add: approval_justified_def eval_sound)

end

section \<open>An instance\<close>

text \<open>Conditions kept in the request's list, one per type, and a decoder to choose.\<close>

fun setCondition :: "Condition \<Rightarrow> Condition list \<Rightarrow> Condition list" where
  "setCondition n [] = [n]"
| "setCondition n (c # cs) = (if cond_Type c = cond_Type n then n # cs else c # setCondition n cs)"

definition hasTrueCondition :: "ConditionType \<Rightarrow> CertificateRequest \<Rightarrow> bool" where
  "hasTrueCondition t cr =
     list_ex (\<lambda>c. cond_Type c = t \<and> cond_Status c = ConditionTrue) (cr_Conditions cr)"

definition exampleControllerDeps :: "(bytes \<Rightarrow> goerr + X509CSR) \<Rightarrow> controller_deps" where
  "exampleControllerDeps dec =
     \<lparr>CertificateRequestIsApproved = hasTrueCondition ConditionApproved,
      CertificateRequestIsDenied = hasTrueCondition ConditionDenied,
      SetCertificateRequestCondition = (\<lambda>cr t st r m. cr\<lparr>cr_Conditions :=
        setCondition \<lparr>cond_Type = t, cond_Status = st, cond_Reason = r, cond_Message = m\<rparr>
          (cr_Conditions cr)\<rparr>),
      cd_Decode = dec, cd_Error = (\<lambda>_. [])\<rparr>"

lemma setCondition_same:
  "list_ex (\<lambda>c. cond_Type c = cond_Type n \<and> cond_Status c = cond_Status n) (setCondition n cs)"
  by (induction cs) auto

lemma setCondition_other:
  "t \<noteq> cond_Type n \<Longrightarrow>
   list_ex (\<lambda>c. cond_Type c = t \<and> P c) (setCondition n cs) = list_ex (\<lambda>c. cond_Type c = t \<and> P c) cs"
  by (induction cs) auto

lemma exampleControllerDeps_ok: "conditions_ok (exampleControllerDeps dec)"
  using setCondition_same
    [of "\<lparr>cond_Type = t, cond_Status = s, cond_Reason = r, cond_Message = m\<rparr>" for t s r m]
  by (simp add: conditions_ok_def exampleControllerDeps_def hasTrueCondition_def setCondition_other)

definition exampleRtConfig :: rtConfig where
  "exampleRtConfig = MemoryImpl (rc_NewMemory \<lparr>cfg_IssuerRef =
     \<lparr>ir_Name = ''ca'', ir_Kind = ''ClusterIssuer'', ir_Group = ''cert-manager.io''\<rparr>\<rparr> False)"

definition exampleApprover :: "bool \<Rightarrow> approver" where
  "exampleApprover auto = AddApprover
     \<lparr>co_Evaluator = Evaluate exampleDeps exampleInternal, co_RuntimeConfig = exampleRtConfig,
      co_AutoApproveNonSPIFFE = auto\<rparr>"

lemmas exampleApprover_simps =
  exampleApprover_def AddApprover_def exampleRtConfig_def memory_Config_def rc_NewMemory_def

definition exampleD :: controller_deps where
  "exampleD = exampleControllerDeps (\<lambda>_. Inr exampleCSR)"

definition exampleDecided :: CertificateRequest where
  "exampleDecided = decideRequest exampleD (exampleApprover False) exampleRequest"

lemma exampleD_ok: "conditions_ok exampleD"
  by (simp add: exampleD_def exampleControllerDeps_ok)

lemma exampleRequest_key: "(cr_Namespace exampleRequest, cr_Name exampleRequest) = (''sandbox'', ''req'')"
  by (simp add: exampleRequest_def)

lemma example_undecided:
  "\<not> CertificateRequestIsApproved exampleD exampleRequest"
  "\<not> CertificateRequestIsDenied exampleD exampleRequest"
  by (simp_all add: exampleD_def exampleControllerDeps_def hasTrueCondition_def exampleRequest_def)

lemma example_annotated: "annotated exampleRequest"
  by (simp add: exampleRequest_def)

lemma example_approves: "approves exampleD (exampleApprover False) exampleRequest"
  using example_accepted example_annotated by (simp add: approves_def exampleApprover_simps)

lemma example_approved:
  "CertificateRequestIsApproved exampleD exampleDecided"
  "annotated exampleDecided"
  "cl_store (aloneState (exampleApprover False) exampleDecided {}) (''sandbox'', ''req'') = Some exampleDecided"
  using example_approves example_annotated exampleRequest_key
  by (simp_all add: exampleDecided_def decideRequest_ok [OF exampleD_ok] aloneState_def
      decideRequest_frame [OF exampleD_ok])

lemma example_created_reachable:
  "cluster_reachable exampleD False (exampleApprover False)
     (aloneState (exampleApprover False) exampleRequest {})"
  by (rule reach_created [OF example_undecided])

lemma example_approved_reachable:
  "cluster_reachable exampleD False (exampleApprover False)
     (aloneState (exampleApprover False) exampleDecided {})"
  unfolding exampleDecided_def
  by (rule reach_decided [OF exampleD_ok reach_queued [OF example_undecided]])
    (use example_annotated in simp)

section \<open>Properties\<close>

text \<open>C6: For a request in the cache that has no verdict yet, \<open>Reconcile\<close> submits to the status
  update an object that differs from the request in its conditions only, carries exactly one
  verdict, and is approved if and only if: the request has the identity annotation and the
  evaluator answers \<open>nil\<close>, or it has no annotation, its CSR has no URI with scheme \<open>spiffe\<close> and
  it targets another issuer than the configured one. The result is that of the update.\<close>

theorem reconcile_verdict:
  assumes "conditions_ok d" and "kube_Get k w key = GetOk cr"
    and "\<not> CertificateRequestIsApproved d cr" and "\<not> CertificateRequestIsDenied d cr"
  shows "\<exists>cr'. Reconcile d a k key w = kube_UpdateStatus k cr' w
     \<and> cr'\<lparr>cr_Conditions := cr_Conditions cr\<rparr> = cr
     \<and> (CertificateRequestIsDenied d cr' \<longleftrightarrow> \<not> CertificateRequestIsApproved d cr')
     \<and> (CertificateRequestIsApproved d cr' \<longleftrightarrow>
          (if cr_Annotations cr SPIFFEIdentityAnnnotationKey \<noteq> None then ap_evaluator a cr = None
           else \<not> hasSpiffeURI d cr
                \<and> cr_IssuerRef cr \<noteq> cfg_IssuerRef (rt_Config (ap_runtimeConfig a))))"
  using assms decideRequest_ok [OF assms(1), where a = a and cr = cr] unfolding approves_def
  by (intro exI [of _ "decideRequest d a cr"]) (simp add: Reconcile_def)

theorem reconcile_verdict_witness:
  "\<exists>cr'. Reconcile exampleD (exampleApprover False) clusterKube
       (''sandbox'', ''req'') [(''sandbox'', ''req'') \<mapsto> exampleRequest]
     = kube_UpdateStatus clusterKube cr' [(''sandbox'', ''req'') \<mapsto> exampleRequest]
     \<and> CertificateRequestIsApproved exampleD cr'"
  using reconcile_verdict [OF exampleD_ok _ example_undecided,
      of clusterKube "[(''sandbox'', ''req'') \<mapsto> exampleRequest]" "(''sandbox'', ''req'')"
         "exampleApprover False"] example_approves
  by (auto simp: clusterKube_def approves_def)

text \<open>C2: In a cluster where requests are created without a verdict and nobody rewrites them,
  whatever the order of creations, events, reconciliations and configuration changes, an
  approved request with the identity annotation is bound to its creator: its CSR is signed and
  holds exactly the SPIFFE ID of the service account that made the request; an approved request
  without the annotation has no \<open>spiffe\<close> URI and exists only with \<open>AutoApproveNonSPIFFE\<close>.\<close>

theorem approved_only_if_justified:
  assumes "conditions_ok d" and "ap_evaluator a = Evaluate ed i" and "\<not> useOwnServiceAccount i"
    and "cluster_reachable d False a c" and "cl_store c key = Some cr"
    and "CertificateRequestIsApproved d cr"
  shows "if annotated cr then identity_bound ed i cr
         else ap_autoApproveNonSPIFFE a \<and> \<not> hasSpiffeURI d cr"
  using eval.reachable_approved_good [OF assms(1,2,4,5,6)] assms(3)
    eval.reachable_approved_justified [OF assms(1,2,4,5,6)]
  by (simp add: evaluator_Good_def approval_justified_def split: if_splits)

theorem approved_only_if_justified_witness:
  "\<exists>cr. cluster_reachable exampleD False (exampleApprover False)
           (aloneState (exampleApprover False) cr {})
     \<and> hasTrueCondition ConditionApproved cr \<and> identity_bound exampleDeps exampleInternal cr"
  using approved_only_if_justified [OF exampleD_ok _ _ example_approved_reachable,
      of exampleDeps exampleInternal "(''sandbox'', ''req'')" exampleDecided] example_approved
    example_approved_reachable
  by (auto simp: exampleApprover_simps exampleInternal_def exampleD_def exampleControllerDeps_def)

text \<open>In the same cluster no request ever carries both verdicts.\<close>

lemma one_verdict:
  assumes "conditions_ok d" and "ap_evaluator a = Evaluate ed i"
    and "cluster_reachable d False a c" and "cl_store c key = Some cr"
  shows "\<not> (CertificateRequestIsApproved d cr \<and> CertificateRequestIsDenied d cr)"
  using eval.reachable_cluster_inv [OF assms(1-3)] assms(4)
  by (auto dest: cluster_inv_entry simp: entry_ok_def)

text \<open>Progress. From every such state an undecided request that the filter passes can be
  brought to a verdict, the one of \<open>Reconcile\<close>'s rule under the configuration of that state.\<close>

lemma pending_request_decided:
  assumes "conditions_ok d" and "ap_evaluator a = Evaluate ed i"
    and "cluster_reachable d False a c" and "cl_store c key = Some cr"
    and "eventFilter d (cl_approver c) clusterKube (cl_store c) key = Process"
  shows "\<exists>c' cr'. (cluster_step d False)\<^sup>*\<^sup>* c c' \<and> cl_store c' key = Some cr'
     \<and> (CertificateRequestIsApproved d cr' \<longleftrightarrow> approves d (cl_approver c) cr)
     \<and> (CertificateRequestIsDenied d cr' \<longleftrightarrow> \<not> approves d (cl_approver c) cr)"
proof -
  let ?a = "cl_approver c" and ?c1 = "c\<lparr>cl_queue := insert key (cl_queue c)\<rparr>"
  let ?c2 = "?c1\<lparr>cl_store := snd (Reconcile d ?a clusterKube key (cl_store c)),
               cl_queue := cl_queue ?c1 - {key}\<rparr>"
  have "key = (cr_Namespace cr, cr_Name cr)"
    using cluster_inv_entry [OF eval.reachable_cluster_inv [OF assms(1-3)] assms(4)]
    by (simp add: entry_ok_def)
  then have "cl_store ?c2 key = Some (decideRequest d ?a cr)"
    using Reconcile_cluster [OF assms(1), of "cl_store c" key cr ?a] assms(4) by simp
  moreover have "(cluster_step d False)\<^sup>*\<^sup>* c ?c2"
    using sync [OF assms(5)] reconcile [of key ?c1 d False]
    by (auto intro: converse_rtranclp_into_rtranclp)
  moreover have "\<not> CertificateRequestIsApproved d cr" "\<not> CertificateRequestIsDenied d cr"
    using assms(4,5) by (simp_all add: eventFilter_cluster)
  ultimately show ?thesis
    using decideRequest_ok [OF assms(1), where a = ?a and cr = cr] by blast
qed

text \<open>C31: \<open>Reconcile\<close> does not look at \<open>AutoApproveNonSPIFFE\<close>: only the event filter does.
  With the option off, a request that is queued with the annotation and loses it before it is
  reconciled is approved without having been evaluated, when it has no \<open>spiffe\<close> URI and targets
  another issuer.\<close>

theorem edited_request_escapes_filter:
  assumes "conditions_ok d" and "\<not> ap_autoApproveNonSPIFFE a" and "annotated cr"
    and "\<not> CertificateRequestIsApproved d cr" and "\<not> CertificateRequestIsDenied d cr"
    and "\<not> hasSpiffeURI d cr"
    and "cr_IssuerRef cr \<noteq> cfg_IssuerRef (rt_Config (ap_runtimeConfig a))"
  shows "\<exists>c cr'. cluster_reachable d True a c \<and> cl_approver c = a
     \<and> cl_store c (cr_Namespace cr, cr_Name cr) = Some cr' \<and> cr_Request cr' = cr_Request cr
     \<and> CertificateRequestIsApproved d cr' \<and> \<not> annotated cr'"
proof -
  let ?key = "(cr_Namespace cr, cr_Name cr)" and ?cr = "cr\<lparr>cr_Annotations := Map.empty\<rparr>"
  have "cluster_step d True (aloneState a cr {?key}) (aloneState a ?cr {?key})"
    using annotate [of True "aloneState a cr {?key}" ?key cr d Map.empty]
    by (simp add: aloneState_def)
  moreover have "cluster_reachable d True a (aloneState a cr {?key})"
    using assms(3-5) by (intro reach_queued) simp_all
  ultimately have "cluster_reachable d True a (aloneState a ?cr {?key})"
    using cluster_reachable.step by blast
  then have "cluster_reachable d True a (aloneState a (decideRequest d a ?cr) {})"
    using reach_decided [OF assms(1), of True a ?cr] by simp
  moreover have "approves d a ?cr"
    using assms(6,7) by (simp add: approves_def hasSpiffeURI_def)
  ultimately show ?thesis
    using decideRequest_ok(1) [OF assms(1), where a = a and cr = ?cr]
      decideRequest_frame [OF assms(1), where a = a and cr = ?cr]
    by (intro exI [of _ "aloneState a (decideRequest d a ?cr) {}"]
        exI [of _ "decideRequest d a ?cr"]) (simp add: aloneState_def)
qed

theorem edited_request_escapes_filter_witness:
  "\<exists>c cr'. cluster_reachable (exampleControllerDeps (\<lambda>_. Inr emptyCSR)) True (exampleApprover False) c
     \<and> cl_store c (''sandbox'', ''req'') = Some cr'
     \<and> hasTrueCondition ConditionApproved cr' \<and> \<not> annotated cr'"
  using edited_request_escapes_filter [OF exampleControllerDeps_ok [of "\<lambda>_. Inr emptyCSR"],
      of "exampleApprover False"
         "exampleRequest\<lparr>cr_IssuerRef := \<lparr>ir_Name = [], ir_Kind = [], ir_Group = []\<rparr>\<rparr>"]
  by (auto simp: exampleControllerDeps_def hasTrueCondition_def exampleRequest_def hasSpiffeURI_def
      emptyCSR_def exampleApprover_simps)

text \<open>For a request with the identity annotation the verdict does not depend on its
  \<open>issuerRef\<close> nor on the configured issuer, contrary to the comment of \<open>Reconcile\<close>.\<close>

lemma annotated_verdict_ignores_issuer:
  assumes "ap_evaluator a = Evaluate ed i" and "annotated cr"
  shows "approves d (a\<lparr>ap_runtimeConfig := rt\<rparr>) (cr\<lparr>cr_IssuerRef := r\<rparr>) = approves d a cr"
  using assms by (simp add: approves_def Evaluate_issuer)

end
