(* ===== verification/ApproverCache.thy ===== *)
theory ApproverCache
  imports Approver
begin

text \<open>
  The controller behind its cache. \<open>Reconcile\<close> and the event filter read requests from the
  informer cache (\<open>a.lister\<close>), which lags behind the API server, and write with the client, which
  refuses an object that is not of the current resource version. Other parties may create, rewrite
  and delete requests at any moment, verdicts included. A failed reconciliation is queued again.
  The controller itself is that of \<open>Approver\<close>. The API server, the cache and the other parties are
  parameters: a \<open>kube\<close>, the requests \<open>st\<close> that are stored in a world, and a relation \<open>others\<close> for the
  changes that are not the controller's; \<open>updates_ok\<close>, \<open>reads_ok\<close> and \<open>api_ok\<close> are the documented
  optimistic concurrency. An instance with a store, a cache and version numbers closes the theory.
\<close>

section \<open>Definitions\<close>

type_synonym key = "string \<times> string"

abbreviation cr_key :: "CertificateRequest \<Rightarrow> key" where
  "cr_key cr \<equiv> (cr_Namespace cr, cr_Name cr)"

text \<open>
  A status update either fails and changes nothing that is stored, or the object given is of the
  version stored under its name and the stored object gets the new conditions and another version.
  An update that was made may still be reported as an error, when the connection is lost.
\<close>

definition updates_ok :: "'w kube \<Rightarrow> ('w \<Rightarrow> key \<rightharpoonup> CertificateRequest) \<Rightarrow> bool" where
  "updates_ok k st \<longleftrightarrow>
     (\<forall>cr w err w'. kube_UpdateStatus k cr w = (err, w') \<longrightarrow>
        (err \<noteq> None \<and> st w' = st w)
        \<or> (\<exists>old v. st w (cr_key cr) = Some old \<and> cr_ResourceVersion cr = cr_ResourceVersion old
            \<and> st w' = (st w)(cr_key cr \<mapsto>
                old\<lparr>cr_Conditions := cr_Conditions cr, cr_ResourceVersion := v\<rparr>)))"

text \<open>
  What the cache returns for a key is an object of that name, perhaps an old one; with the version
  of the stored object it is the stored object.
\<close>

definition reads_ok :: "'w kube \<Rightarrow> ('w \<Rightarrow> key \<rightharpoonup> CertificateRequest) \<Rightarrow> 'w \<Rightarrow> bool" where
  "reads_ok k st w \<longleftrightarrow>
     (\<forall>key cr. kube_Get k w key = GetOk cr \<longrightarrow> key = cr_key cr
        \<and> (\<forall>old. st w key = Some old \<longrightarrow> cr_ResourceVersion cr = cr_ResourceVersion old \<longrightarrow> cr = old))"

text \<open>
  All that is relied on, in worlds with \<open>I\<close>: the above, and that the cache catches up and updates
  get through again when nothing else happens meanwhile.
\<close>

definition api_ok ::
    "'w kube \<Rightarrow> ('w \<Rightarrow> key \<rightharpoonup> CertificateRequest) \<Rightarrow> ('w \<Rightarrow> bool) \<Rightarrow> ('w \<Rightarrow> 'w \<Rightarrow> bool) \<Rightarrow> bool" where
  "api_ok k st I others \<longleftrightarrow> updates_ok k st
     \<and> (\<forall>w. I w \<longrightarrow> reads_ok k st w)
     \<and> (\<forall>w cr. I w \<longrightarrow> I (snd (kube_UpdateStatus k cr w)))
     \<and> (\<forall>w w'. I w \<longrightarrow> others w w' \<longrightarrow> I w')
     \<and> (\<forall>w key cr. I w \<longrightarrow> st w key = Some cr \<longrightarrow>
          (\<exists>w'. others\<^sup>*\<^sup>* w w' \<and> st w' = st w \<and> kube_Get k w' key = GetOk cr
             \<and> (\<forall>cs. fst (kube_UpdateStatus k (cr\<lparr>cr_Conditions := cs\<rparr>) w') = None)))"

text \<open>The controller and its work queue in such a world.\<close>

record 'w cached_cluster =
  cc_world :: 'w
  cc_queue :: "key set"
  cc_approver :: approver

definition cached_reconcile ::
    "controller_deps \<Rightarrow> 'w kube \<Rightarrow> key \<Rightarrow> 'w cached_cluster \<Rightarrow> 'w cached_cluster" where
  "cached_reconcile d k key c =
     (case Reconcile d (cc_approver c) k key (cc_world c) of
        (err, w) \<Rightarrow> c\<lparr>cc_world := w,
                     cc_queue := if err = None then cc_queue c - {key} else cc_queue c\<rparr>)"

inductive cached_step ::
    "controller_deps \<Rightarrow> 'w kube \<Rightarrow> ('w \<Rightarrow> 'w \<Rightarrow> bool) \<Rightarrow> 'w cached_cluster \<Rightarrow> 'w cached_cluster \<Rightarrow> bool"
  for d k others where
  cother: "others (cc_world c) w \<Longrightarrow> cached_step d k others c (c\<lparr>cc_world := w\<rparr>)"
| csync: "eventFilter d (cc_approver c) k (cc_world c) key = Process \<Longrightarrow>
    cached_step d k others c (c\<lparr>cc_queue := insert key (cc_queue c)\<rparr>)"
| creconcile: "key \<in> cc_queue c \<Longrightarrow> cached_step d k others c (cached_reconcile d k key c)"
| cconfigure: "cached_step d k others c (c\<lparr>cc_approver := (cc_approver c)\<lparr>ap_runtimeConfig := rt\<rparr>\<rparr>)"

definition cached_init :: "approver \<Rightarrow> 'w \<Rightarrow> 'w cached_cluster" where
  "cached_init a w = \<lparr>cc_world = w, cc_queue = {}, cc_approver = a\<rparr>"

section \<open>Lemmas\<close>

lemma reads_okD:
  assumes "reads_ok k st w" and "kube_Get k w key = GetOk cr"
  shows "key = cr_key cr"
    and "st w key = Some old \<Longrightarrow> cr_ResourceVersion cr = cr_ResourceVersion old \<Longrightarrow> cr = old"
  using assms unfolding reads_ok_def by blast+

lemma api_okD:
  assumes "api_ok k st I others"
  shows "updates_ok k st" and "I w \<Longrightarrow> reads_ok k st w"
    and "I w \<Longrightarrow> I (snd (kube_UpdateStatus k cr w))" and "I w \<Longrightarrow> others w w' \<Longrightarrow> I w'"
    and "I w \<Longrightarrow> st w key = Some cr \<Longrightarrow>
      \<exists>w'. others\<^sup>*\<^sup>* w w' \<and> st w' = st w \<and> kube_Get k w' key = GetOk cr
        \<and> (\<forall>cs. fst (kube_UpdateStatus k (cr\<lparr>cr_Conditions := cs\<rparr>) w') = None)"
  using assms unfolding api_ok_def by blast+

text \<open>The three outcomes of \<open>Reconcile\<close>.\<close>

lemma Reconcile_api:
  assumes "conditions_ok d" and "updates_ok k st" and "reads_ok k st w"
    and "Reconcile d a k key w = (err, w')"
  obtains (nothing) "st w' = st w" "err \<noteq> None \<or> kube_Get k w key = GetNotFound"
  | (decided) cr v where "st w key = Some cr" "kube_Get k w key = GetOk cr"
      "st w' = (st w)(key \<mapsto> (decideRequest d a cr)\<lparr>cr_ResourceVersion := v\<rparr>)"
proof (cases "kube_Get k w key")
  case (GetOk cr)
  note frame = decideRequest_frame [OF assms(1), of a cr]
  have key: "cr_key (decideRequest d a cr) = key" using reads_okD(1) [OF assms(3) GetOk] frame by simp
  have "kube_UpdateStatus k (decideRequest d a cr) w = (err, w')"
    using assms(4) GetOk by (simp add: Reconcile_def)
  from assms(2) [unfolded updates_ok_def, rule_format, OF this, unfolded key frame(3)]
  consider "err \<noteq> None" "st w' = st w"
    | old v where "st w key = Some old" "cr_ResourceVersion cr = cr_ResourceVersion old"
        "st w' = (st w)(key \<mapsto>
          old\<lparr>cr_Conditions := cr_Conditions (decideRequest d a cr), cr_ResourceVersion := v\<rparr>)"
    by blast
  then show ?thesis
  proof cases
    case 2
    then have "old = cr" using reads_okD(2) [OF assms(3) GetOk] by blast
    then show ?thesis using 2 GetOk frame(6) by (intro that(2)) simp_all
  qed (rule that(1), simp_all)
qed (use assms(4) in \<open>auto simp: Reconcile_def intro: that(1)\<close>)

lemma cached_reconcile_inv:
  assumes "api_ok k st I others" and "I (cc_world c)"
  shows "I (cc_world (cached_reconcile d k key c))"
  using api_okD(3) [OF assms] assms(2)
  by (auto simp: cached_reconcile_def Reconcile_def split: prod.splits getResult.splits)
    (metis snd_conv)

lemma cached_step_inv:
  assumes "api_ok k st I others" and "cached_step d k others c c'" and "I (cc_world c)"
  shows "I (cc_world c')"
  using assms(2)
proof cases
  case (cother w)
  then show ?thesis using api_okD(4) [OF assms(1,3)] by simp
next
  case (creconcile key)
  then show ?thesis using cached_reconcile_inv [OF assms(1,3)] by simp
qed (use assms(3) in simp_all)

lemma cached_steps_inv:
  assumes "api_ok k st I others" and "(cached_step d k others)\<^sup>*\<^sup>* c c'" and "I (cc_world c)"
  shows "I (cc_world c')"
  using assms(2,3) by (induction rule: rtranclp_induct) (blast dest: cached_step_inv [OF assms(1)])+

lemma cached_others:
  "others\<^sup>*\<^sup>* (cc_world c) w \<Longrightarrow> (cached_step d k others)\<^sup>*\<^sup>* c (c\<lparr>cc_world := w\<rparr>)"
proof (induction rule: rtranclp_induct)
  case (step w w')
  have "cached_step d k others (c\<lparr>cc_world := w\<rparr>) (c\<lparr>cc_world := w'\<rparr>)"
    using cother [of others "c\<lparr>cc_world := w\<rparr>" w' d k] step(2) by simp
  with step(3) show ?case by simp
qed simp

text \<open>A fresh cache lets the reconciliation through.\<close>

lemma refreshed_reconcile:
  assumes "conditions_ok d" and "api_ok k st I others" and "I (cc_world c)" and "key \<in> cc_queue c"
    and "st (cc_world c) key = Some cr"
  shows "\<exists>c' v. (cached_step d k others)\<^sup>*\<^sup>* c c' \<and> cc_approver c' = cc_approver c
    \<and> st (cc_world c') key = Some ((decideRequest d (cc_approver c) cr)\<lparr>cr_ResourceVersion := v\<rparr>)
    \<and> cc_queue c' = cc_queue c - {key}"
proof -
  let ?a = "cc_approver c"
  obtain w where w: "others\<^sup>*\<^sup>* (cc_world c) w" "st w = st (cc_world c)" "kube_Get k w key = GetOk cr"
    "\<And>cs. fst (kube_UpdateStatus k (cr\<lparr>cr_Conditions := cs\<rparr>) w) = None"
    using api_okD(5) [OF assms(2,3,5)] by blast
  let ?c1 = "c\<lparr>cc_world := w\<rparr>"
  have 1: "(cached_step d k others)\<^sup>*\<^sup>* c ?c1" by (rule cached_others [OF w(1)])
  have "I w" using cached_steps_inv [OF assms(2) 1 assms(3)] by simp
  note reads = api_okD(2) [OF assms(2) this]
  have "fst (kube_UpdateStatus k (decideRequest d ?a cr) w) = None"
    using w(4) [of "cr_Conditions (decideRequest d ?a cr)"] decideRequest_frame(6) [OF assms(1)] by simp
  then obtain w' where w': "Reconcile d ?a k key w = (None, w')"
    using w(3) by (cases "kube_UpdateStatus k (decideRequest d ?a cr) w") (simp add: Reconcile_def)
  from assms(1) api_okD(1) [OF assms(2)] reads w'
  obtain v where "st w' key = Some ((decideRequest d ?a cr)\<lparr>cr_ResourceVersion := v\<rparr>)"
    by (cases rule: Reconcile_api) (use w(3) in auto)
  moreover have "cached_step d k others ?c1 (cached_reconcile d k key ?c1)"
    by (rule creconcile) (simp add: assms(4))
  moreover have "cached_reconcile d k key ?c1 = c\<lparr>cc_world := w', cc_queue := cc_queue c - {key}\<rparr>"
    by (simp add: cached_reconcile_def w')
  ultimately show ?thesis using 1 by (intro exI [of _ "cached_reconcile d k key ?c1"]) auto
qed

section \<open>An instance\<close>

record cached =
  cw_store :: "key \<rightharpoonup> CertificateRequest"
  cw_cache :: "key \<rightharpoonup> CertificateRequest"
  cw_version :: nat  \<comment> \<open>the resource version of the next write\<close>

definition writeRequest :: "key \<Rightarrow> CertificateRequest \<Rightarrow> cached \<Rightarrow> cached" where
  "writeRequest key cr w =
     w\<lparr>cw_store := (cw_store w)(key \<mapsto> cr\<lparr>cr_ResourceVersion := cw_version w\<rparr>),
       cw_version := cw_version w + 1\<rparr>"

definition cachedKube :: "cached kube" where
  "cachedKube =
     \<lparr>kube_Get = (\<lambda>w key. case cw_cache w key of None \<Rightarrow> GetNotFound | Some cr \<Rightarrow> GetOk cr),
      kube_UpdateStatus = (\<lambda>cr w.
        case cw_store w (cr_key cr) of
          None \<Rightarrow> (Some (ErrLib ''not found''), w)
        | Some old \<Rightarrow>
            if cr_ResourceVersion cr \<noteq> cr_ResourceVersion old then (Some (ErrLib ''conflict''), w)
            else (None, writeRequest (cr_key cr) (old\<lparr>cr_Conditions := cr_Conditions cr\<rparr>) w))\<rparr>"

inductive cached_other :: "cached \<Rightarrow> cached \<Rightarrow> bool" where
  cwrite: "cached_other w (writeRequest (cr_key cr) cr w)"
| cdelete: "cached_other w (w\<lparr>cw_store := (cw_store w)(key := None)\<rparr>)"
| refresh: "cached_other w (w\<lparr>cw_cache := (cw_cache w)(key := cw_store w key)\<rparr>)"

text \<open>
  Worlds in which requests are created without a verdict and nobody but the controller writes to
  them afterwards.
\<close>

inductive quiet_other :: "controller_deps \<Rightarrow> cached \<Rightarrow> cached \<Rightarrow> bool" for d where
  qcreate: "cw_store w (cr_key cr) = None \<Longrightarrow> \<not> CertificateRequestIsApproved d cr \<Longrightarrow>
    \<not> CertificateRequestIsDenied d cr \<Longrightarrow> quiet_other d w (writeRequest (cr_key cr) cr w)"
| qrefresh: "quiet_other d w (w\<lparr>cw_cache := (cw_cache w)(key := cw_store w key)\<rparr>)"

definition cached_empty :: cached where
  "cached_empty = \<lparr>cw_store = Map.empty, cw_cache = Map.empty, cw_version = 1\<rparr>"

text \<open>
  Names agree with keys, versions are older than the next one, and an object in the cache that has
  the version of the stored one is the stored one.
\<close>

definition cache_ok :: "cached \<Rightarrow> bool" where
  "cache_ok w \<longleftrightarrow>
     (\<forall>key cr. cw_store w key = Some cr \<longrightarrow>
        key = (cr_Namespace cr, cr_Name cr) \<and> cr_ResourceVersion cr < cw_version w)
     \<and> (\<forall>key cr. cw_cache w key = Some cr \<longrightarrow>
        key = (cr_Namespace cr, cr_Name cr) \<and> cr_ResourceVersion cr < cw_version w)
     \<and> (\<forall>key cr old. cw_cache w key = Some cr \<longrightarrow> cw_store w key = Some old \<longrightarrow>
        cr_ResourceVersion cr = cr_ResourceVersion old \<longrightarrow> cr = old)"

lemma cache_okD:
  assumes "cache_ok w"
  shows "cw_store w key = Some cr \<Longrightarrow> key = (cr_Namespace cr, cr_Name cr) \<and> cr_ResourceVersion cr < cw_version w"
    and "cw_cache w key = Some cr \<Longrightarrow> key = (cr_Namespace cr, cr_Name cr) \<and> cr_ResourceVersion cr < cw_version w"
    and "cw_cache w key = Some cr \<Longrightarrow> cw_store w key = Some old \<Longrightarrow>
      cr_ResourceVersion cr = cr_ResourceVersion old \<Longrightarrow> cr = old"
  using assms unfolding cache_ok_def by blast+

lemma cache_ok_write:
  assumes "cache_ok w" and "key = (cr_Namespace cr, cr_Name cr)"
  shows "cache_ok (writeRequest key cr w)"
proof -
  have v: "cr_ResourceVersion c \<noteq> cw_version w" if "cw_cache w k = Some c" for k c
    using cache_okD(2) [OF assms(1) that] by simp
  have "c = c'" if "cw_cache w k = Some c" "((cw_store w)(key \<mapsto> cr\<lparr>cr_ResourceVersion := cw_version w\<rparr>)) k = Some c'"
    "cr_ResourceVersion c = cr_ResourceVersion c'" for k c c'
    using that v [of k c] cache_okD(3) [OF assms(1), of k c c'] by (cases "k = key") auto
  moreover have "k = (cr_Namespace c, cr_Name c) \<and> cr_ResourceVersion c < cw_version w + 1"
    if "((cw_store w)(key \<mapsto> cr\<lparr>cr_ResourceVersion := cw_version w\<rparr>)) k = Some c" for k c
    using that cache_okD(1) [OF assms(1), of k c] assms(2) by (cases "k = key") auto
  moreover have "k = (cr_Namespace c, cr_Name c) \<and> cr_ResourceVersion c < cw_version w + 1"
    if "cw_cache w k = Some c" for k c
    using cache_okD(2) [OF assms(1) that] by simp
  ultimately show ?thesis unfolding cache_ok_def writeRequest_def by simp
qed

lemma cache_ok_other: "cached_other w w' \<Longrightarrow> cache_ok w \<Longrightarrow> cache_ok w'"
proof (induction rule: cached_other.induct)
  case (cwrite w cr)
  then show ?case by (simp add: cache_ok_write)
next
  case (cdelete w key)
  then show ?case unfolding cache_ok_def by (simp del: split_paired_All)
next
  case (refresh w key)
  then show ?case unfolding cache_ok_def by (simp del: split_paired_All)
qed

lemma cachedKube_updates: "updates_ok cachedKube cw_store"
  by (auto simp: updates_ok_def cachedKube_def writeRequest_def split: option.splits if_splits)

lemma cachedKube_reads: "cache_ok w \<Longrightarrow> reads_ok cachedKube cw_store w"
  using cache_okD(2,3) [of w] unfolding reads_ok_def
  by (auto simp: cachedKube_def split: option.splits)

lemma cachedKube_keeps:
  assumes "cache_ok w"
  shows "cache_ok (snd (kube_UpdateStatus cachedKube cr w))"
proof (cases "cw_store w (cr_key cr)")
  case (Some old)
  from cache_okD(1) [OF assms Some]
  have "cache_ok (writeRequest (cr_key cr) (old\<lparr>cr_Conditions := cr_Conditions cr\<rparr>) w)"
    by (intro cache_ok_write assms) simp
  with Some assms show ?thesis by (simp add: cachedKube_def)
qed (simp add: cachedKube_def assms)

lemma cachedKube_recovers:
  assumes "cache_ok w" and "cw_store w key = Some cr"
  shows "\<exists>w'. (quiet_other d)\<^sup>*\<^sup>* w w' \<and> cw_store w' = cw_store w \<and> kube_Get cachedKube w' key = GetOk cr
    \<and> (\<forall>cs. fst (kube_UpdateStatus cachedKube (cr\<lparr>cr_Conditions := cs\<rparr>) w') = None)"
proof -
  let ?w = "w\<lparr>cw_cache := (cw_cache w)(key := cw_store w key)\<rparr>"
  have "(quiet_other d)\<^sup>*\<^sup>* w ?w" using qrefresh by blast
  moreover have "kube_Get cachedKube ?w key = GetOk cr" by (simp add: cachedKube_def assms(2))
  moreover have "fst (kube_UpdateStatus cachedKube (cr\<lparr>cr_Conditions := cs\<rparr>) ?w) = None" for cs
    using cache_okD(1) [OF assms] assms(2) by (simp add: cachedKube_def)
  ultimately show ?thesis by (intro exI [of _ ?w]) simp
qed

lemma quiet_is_other: "quiet_other d w w' \<Longrightarrow> cached_other w w'"
  by (induction rule: quiet_other.induct) (rule cwrite refresh)+

lemma cachedKube_ok:
  shows "api_ok cachedKube cw_store cache_ok cached_other" and "api_ok cachedKube cw_store cache_ok (quiet_other d)"
proof -
  have "cached_other\<^sup>*\<^sup>* w w'" if "(quiet_other d)\<^sup>*\<^sup>* w w'" for w w'
    using that by (rule rtranclp_mono [THEN predicate2D, rotated]) (auto intro: quiet_is_other)
  then show "api_ok cachedKube cw_store cache_ok cached_other"
    unfolding api_ok_def
    using cachedKube_updates cachedKube_reads cachedKube_keeps cache_ok_other cachedKube_recovers by blast
  show "api_ok cachedKube cw_store cache_ok (quiet_other d)"
    unfolding api_ok_def
    using cachedKube_updates cachedKube_reads cachedKube_keeps cache_ok_other [OF quiet_is_other]
      cachedKube_recovers by blast
qed

lemma cached_empty_ok: "cache_ok cached_empty"
  by (simp add: cache_ok_def cached_empty_def)

text \<open>A request is written, seen and queued.\<close>

lemma reach_cached_queued:
  assumes "conditions_ok d" and "\<not> CertificateRequestIsApproved d cr" and "\<not> CertificateRequestIsDenied d cr"
    and "annotated cr \<or> ap_autoApproveNonSPIFFE a" and "key = cr_key cr"
    and "\<And>w w'. quiet_other d w w' \<Longrightarrow> others w w'"
  shows "(cached_step d cachedKube others)\<^sup>*\<^sup>* (cached_init a cached_empty)
    \<lparr>cc_world = \<lparr>cw_store = [key \<mapsto> cr\<lparr>cr_ResourceVersion := 1\<rparr>], cw_cache = [key \<mapsto> cr\<lparr>cr_ResourceVersion := 1\<rparr>],
       cw_version = 2\<rparr>, cc_queue = {key}, cc_approver = a\<rparr>"
proof -
  let ?cr = "cr\<lparr>cr_ResourceVersion := 1\<rparr>"
  let ?w = "\<lambda>cache. \<lparr>cw_store = [key \<mapsto> ?cr], cw_cache = cache, cw_version = 2\<rparr>"
  let ?c = "\<lambda>q. \<lparr>cc_world = ?w [key \<mapsto> ?cr], cc_queue = q, cc_approver = a\<rparr>"
  have "quiet_other d cached_empty (?w Map.empty)"
    using qcreate [of cached_empty cr d] assms(2,3,5) by (simp add: cached_empty_def writeRequest_def numeral_2_eq_2)
  then have 1: "others cached_empty (?w Map.empty)" by (rule assms(6))
  have "quiet_other d (?w Map.empty) (?w [key \<mapsto> ?cr])"
    using qrefresh [of d "?w Map.empty" key] by simp
  then have 2: "others (?w Map.empty) (?w [key \<mapsto> ?cr])" by (rule assms(6))
  from 1 2 have "others\<^sup>*\<^sup>* (cc_world (cached_init a cached_empty)) (?w [key \<mapsto> ?cr])"
    unfolding cached_init_def by simp
  from cached_others [OF this] have "(cached_step d cachedKube others)\<^sup>*\<^sup>* (cached_init a cached_empty) (?c {})"
    by (simp add: cached_init_def)
  moreover have "cached_step d cachedKube others (?c {}) (?c {key})"
    using csync [of d "?c {}" cachedKube key others] assms(2-4)
    by (simp add: eventFilter_def cachedKube_def conditions_version [OF assms(1)])
  ultimately show ?thesis by simp
qed

text \<open>A world in which the cache is up to date, and one in which the request has been rewritten since.\<close>

definition exampleWorld :: "CertificateRequest \<Rightarrow> cached" where
  "exampleWorld stored =
     \<lparr>cw_store = [(''sandbox'', ''req'') \<mapsto> stored], cw_cache = [(''sandbox'', ''req'') \<mapsto> exampleRequest], cw_version = 5\<rparr>"

definition rewritten :: CertificateRequest where
  "rewritten = exampleRequest\<lparr>cr_Duration := None, cr_ResourceVersion := 4\<rparr>"

lemma exampleWorld_ok:
  shows "cache_ok (exampleWorld exampleRequest)" and "cache_ok (exampleWorld rewritten)"
  by (simp_all add: cache_ok_def exampleWorld_def rewritten_def exampleRequest_def)

section \<open>Properties\<close>

text \<open>C7: The cache may be stale and requests may be rewritten at any moment, under the optimistic
  concurrency of the API server. Still a reconciliation either leaves every stored request as it is,
  and then returns an error, for which the request is queued again, unless the cache does not know the
  request; or the request it read is the stored one, and that request alone is changed: it becomes
  approved exactly if the rule \<open>approves\<close> holds of it and denied exactly if not (earlier verdicts of it
  remain), and nothing of it but conditions and version is new. A verdict never rests on an
  outdated version of a request.\<close>

theorem verdict_on_current_object:
  assumes "conditions_ok d" and "updates_ok k st" and "reads_ok k st w"
    and "Reconcile d a k key w = (err, w')"
  shows "(st w' = st w \<and> (err \<noteq> None \<or> kube_Get k w key = GetNotFound))
    \<or> (\<exists>cr x. st w key = Some cr \<and> kube_Get k w key = GetOk cr \<and> st w' = (st w)(key \<mapsto> x)
        \<and> (CertificateRequestIsApproved d x \<longleftrightarrow> approves d a cr \<or> CertificateRequestIsApproved d cr)
        \<and> (CertificateRequestIsDenied d x \<longleftrightarrow> \<not> approves d a cr \<or> CertificateRequestIsDenied d cr)
        \<and> x\<lparr>cr_Conditions := cr_Conditions cr, cr_ResourceVersion := cr_ResourceVersion cr\<rparr> = cr)"
  using assms
proof (cases rule: Reconcile_api)
  case (decided cr v)
  let ?x = "(decideRequest d a cr)\<lparr>cr_ResourceVersion := v\<rparr>"
  have "?x\<lparr>cr_Conditions := cr_Conditions cr, cr_ResourceVersion := cr_ResourceVersion cr\<rparr> = cr"
    by (subst decideRequest_frame(6) [OF assms(1), of a cr, symmetric]) simp
  then show ?thesis
    using decided decideRequest_ok(1,2) [OF assms(1), of a cr] conditions_version [OF assms(1)] by auto
qed simp

theorem verdict_on_current_object_witness:
  "(\<exists>w' x. Reconcile exampleD (exampleApprover False) cachedKube (''sandbox'', ''req'') (exampleWorld exampleRequest)
        = (None, w')
      \<and> cw_store w' (''sandbox'', ''req'') = Some x \<and> CertificateRequestIsApproved exampleD x)
   \<and> (\<exists>err w'. Reconcile exampleD (exampleApprover False) cachedKube (''sandbox'', ''req'') (exampleWorld rewritten)
        = (Some err, w') \<and> cw_store w' = cw_store (exampleWorld rewritten))"
proof -
  let ?a = "exampleApprover False" and ?key = "(''sandbox'', ''req'')"
  let ?R = "Reconcile exampleD ?a cachedKube ?key"
  have get: "kube_Get cachedKube (exampleWorld cr) ?key = GetOk exampleRequest" for cr
    by (simp add: cachedKube_def exampleWorld_def)
  have key: "cr_key (decideRequest exampleD ?a exampleRequest) = ?key"
    using exampleRequest_key by (simp add: decideRequest_frame [OF exampleD_ok])
  obtain w' where 1: "?R (exampleWorld exampleRequest) = (None, w')"
    using key by (simp add: Reconcile_def get decideRequest_frame [OF exampleD_ok])
      (simp add: cachedKube_def exampleWorld_def decideRequest_frame [OF exampleD_ok])
  have "\<exists>x. cw_store w' ?key = Some x \<and> CertificateRequestIsApproved exampleD x"
    using verdict_on_current_object [OF exampleD_ok cachedKube_updates cachedKube_reads [OF exampleWorld_ok(1)] 1]
      example_approves get by auto
  moreover obtain err w'' where 2: "?R (exampleWorld rewritten) = (err, w'')" by fastforce
  have "err \<noteq> None \<and> cw_store w'' = cw_store (exampleWorld rewritten)"
    using verdict_on_current_object [OF exampleD_ok cachedKube_updates cachedKube_reads [OF exampleWorld_ok(2)] 2] get
    by (auto simp: exampleWorld_def rewritten_def exampleRequest_def)
  ultimately show ?thesis using 1 2 by auto
qed

text \<open>C18: Progress. Whatever happened before, a queued request that exists can be brought to the
  verdict of the rule: when the cache has caught up with it and the update gets through, a
  reconciliation gives it that verdict and takes it out of the queue.\<close>

theorem queued_request_decided:
  assumes "conditions_ok d" and "api_ok k st I others" and "I w0"
    and "(cached_step d k others)\<^sup>*\<^sup>* (cached_init a w0) c" and "key \<in> cc_queue c"
    and "st (cc_world c) key = Some cr"
    and "\<not> CertificateRequestIsApproved d cr" and "\<not> CertificateRequestIsDenied d cr"
  shows "\<exists>c' cr'. (cached_step d k others)\<^sup>*\<^sup>* c c' \<and> st (cc_world c') key = Some cr' \<and> key \<notin> cc_queue c'
    \<and> (CertificateRequestIsApproved d cr' \<longleftrightarrow> approves d (cc_approver c) cr)
    \<and> (CertificateRequestIsDenied d cr' \<longleftrightarrow> \<not> approves d (cc_approver c) cr)"
proof -
  have "I (cc_world c)" using cached_steps_inv [OF assms(2,4)] assms(3) by (simp add: cached_init_def)
  from refreshed_reconcile [OF assms(1,2) this assms(5,6)] obtain c' v where
    "(cached_step d k others)\<^sup>*\<^sup>* c c'" "key \<notin> cc_queue c'"
    "st (cc_world c') key = Some ((decideRequest d (cc_approver c) cr)\<lparr>cr_ResourceVersion := v\<rparr>)" by auto
  moreover have "CertificateRequestIsApproved d ((decideRequest d (cc_approver c) cr)\<lparr>cr_ResourceVersion := v\<rparr>)
      \<longleftrightarrow> approves d (cc_approver c) cr"
    "CertificateRequestIsDenied d ((decideRequest d (cc_approver c) cr)\<lparr>cr_ResourceVersion := v\<rparr>)
      \<longleftrightarrow> \<not> approves d (cc_approver c) cr"
    using decideRequest_ok(1,2) [OF assms(1)] conditions_version [OF assms(1)] assms(7,8) by simp_all
  ultimately show ?thesis by blast
qed

theorem queued_request_decided_witness:
  "\<exists>c c' cr'. (cached_step exampleD cachedKube cached_other)\<^sup>*\<^sup>* (cached_init (exampleApprover False) cached_empty) c
     \<and> (cached_step exampleD cachedKube cached_other)\<^sup>*\<^sup>* c c'
     \<and> cw_store (cc_world c') (''sandbox'', ''req'') = Some cr' \<and> (''sandbox'', ''req'') \<notin> cc_queue c'"
proof -
  let ?cr = "exampleRequest\<lparr>cr_ResourceVersion := 1\<rparr>"
  obtain c where c: "(cached_step exampleD cachedKube cached_other)\<^sup>*\<^sup>* (cached_init (exampleApprover False) cached_empty) c"
    "(''sandbox'', ''req'') \<in> cc_queue c" "cw_store (cc_world c) (''sandbox'', ''req'') = Some ?cr"
    using reach_cached_queued [OF exampleD_ok example_undecided disjI1 [OF example_annotated] exampleRequest_key [symmetric]
        quiet_is_other, where a = "exampleApprover False"] by fastforce
  from queued_request_decided [OF exampleD_ok cachedKube_ok(1) cached_empty_ok c] example_undecided
    conditions_version [OF exampleD_ok] c(1)
  show ?thesis by metis
qed

text \<open>C36: The controller alone can give a request both verdicts, since \<open>Reconcile\<close> does not look at the
  verdict a request has by then. Take an unannotated request that is created undecided, without a
  \<open>spiffe\<close> URI and for another issuer than the configured one, and let nobody but the controller
  write to it. It is approved; an event (of a resync, say) that reaches the filter while the cache
  still has the undecided version queues it once more; when the issuer configuration changes to
  the issuer of the request before that is worked off, the approved request is denied as well.
  (Only cert-manager's admission webhook, if it is installed, refuses the second verdict.)\<close>

theorem verdict_given_twice:
  assumes "conditions_ok d" and "ap_autoApproveNonSPIFFE a" and "\<not> annotated cr" and "\<not> hasSpiffeURI d cr"
    and "\<not> CertificateRequestIsApproved d cr" and "\<not> CertificateRequestIsDenied d cr"
    and "cr_IssuerRef cr \<noteq> cfg_IssuerRef (rt_Config (ap_runtimeConfig a))"
    and "cr_IssuerRef cr = cfg_IssuerRef (rt_Config rt)"
  shows "\<exists>c x. (cached_step d cachedKube (quiet_other d))\<^sup>*\<^sup>* (cached_init a cached_empty) c
    \<and> cw_store (cc_world c) (cr_key cr) = Some x \<and> cr_Request x = cr_Request cr
    \<and> CertificateRequestIsApproved d x \<and> CertificateRequestIsDenied d x"
proof -
  let ?steps = "(cached_step d cachedKube (quiet_other d))\<^sup>*\<^sup>*" and ?init = "cached_init a cached_empty"
  let ?key = "cr_key cr" and ?cr = "cr\<lparr>cr_ResourceVersion := 1\<rparr>" and ?a = "a\<lparr>ap_runtimeConfig := rt\<rparr>"
  let ?x = "(decideRequest d a ?cr)\<lparr>cr_ResourceVersion := 2\<rparr>"
  let ?w1 = "\<lparr>cw_store = [?key \<mapsto> ?cr], cw_cache = [?key \<mapsto> ?cr], cw_version = 2\<rparr>"
  let ?w2 = "\<lparr>cw_store = [?key \<mapsto> ?x], cw_cache = [?key \<mapsto> ?cr], cw_version = 3\<rparr>"
  let ?c = "\<lambda>w q a. \<lparr>cc_world = w, cc_queue = q, cc_approver = a\<rparr>"
  note frame = decideRequest_frame [OF assms(1), of a ?cr]
  have 1: "?steps ?init (?c ?w1 {?key} a)"
    by (rule reach_cached_queued [OF assms(1,5,6) disjI2 [OF assms(2)] refl])
  have "Reconcile d a cachedKube ?key ?w1 = (None, ?w2)"
    using frame by (simp add: Reconcile_def cachedKube_def writeRequest_def)
  then have 2: "cached_step d cachedKube (quiet_other d) (?c ?w1 {?key} a) (?c ?w2 {} a)"
    using creconcile [of ?key "?c ?w1 {?key} a" d cachedKube "quiet_other d"] by (simp add: cached_reconcile_def)
  have 3: "cached_step d cachedKube (quiet_other d) (?c ?w2 {} a) (?c ?w2 {?key} a)"
    using csync [of d "?c ?w2 {} a" cachedKube ?key] assms(2,5,6)
    by (simp add: eventFilter_def cachedKube_def conditions_version [OF assms(1)])
  have 4: "cached_step d cachedKube (quiet_other d) (?c ?w2 {?key} a) (?c ?w2 {?key} ?a)"
    using cconfigure [of d cachedKube "quiet_other d" "?c ?w2 {?key} a" rt] by simp
  from 1 2 3 4 have steps: "?steps ?init (?c ?w2 {?key} ?a)" by simp
  from cached_steps_inv [OF cachedKube_ok(2) this] have "cache_ok (cc_world (?c ?w2 {?key} ?a))"
    using cached_empty_ok by (simp add: cached_init_def)
  from refreshed_reconcile [OF assms(1) cachedKube_ok(2) [of d] this, of ?key ?x] obtain c v where
    5: "?steps (?c ?w2 {?key} ?a) c"
    and c: "cw_store (cc_world c) ?key = Some ((decideRequest d ?a ?x)\<lparr>cr_ResourceVersion := v\<rparr>)" by auto
  obtain cs where "decideRequest d a ?cr = ?cr\<lparr>cr_Conditions := cs\<rparr>" using frame(6) by metis
  then have "approves d a ?cr" "\<not> approves d ?a ?x"
    using assms(3,4,7,8) by (simp_all add: approves_def hasSpiffeURI_def)
  then have "CertificateRequestIsApproved d (decideRequest d ?a ?x)" "CertificateRequestIsDenied d (decideRequest d ?a ?x)"
    unfolding decideRequest_ok(1,2) [OF assms(1)] conditions_version [OF assms(1)] by blast+
  then have "CertificateRequestIsApproved d ((decideRequest d ?a ?x)\<lparr>cr_ResourceVersion := v\<rparr>)"
    "CertificateRequestIsDenied d ((decideRequest d ?a ?x)\<lparr>cr_ResourceVersion := v\<rparr>)"
    unfolding conditions_version [OF assms(1)] .
  moreover have "cr_Request ((decideRequest d ?a ?x)\<lparr>cr_ResourceVersion := v\<rparr>) = cr_Request cr"
    using frame(5) decideRequest_frame(5) [OF assms(1), of ?a ?x] by simp
  ultimately show ?thesis using rtranclp_trans [OF steps 5] c by blast
qed

theorem verdict_given_twice_witness:
  "\<exists>c x. (cached_step (exampleControllerDeps (\<lambda>_. Inr emptyCSR)) cachedKube
         (quiet_other (exampleControllerDeps (\<lambda>_. Inr emptyCSR))))\<^sup>*\<^sup>*
       (cached_init (exampleApprover True) cached_empty) c
     \<and> cw_store (cc_world c) (''sandbox'', ''req'') = Some x
     \<and> hasTrueCondition ConditionApproved x \<and> hasTrueCondition ConditionDenied x"
proof -
  let ?d = "exampleControllerDeps (\<lambda>_. Inr emptyCSR)"
  let ?r = "\<lparr>ir_Name = ''other'', ir_Kind = [], ir_Group = []\<rparr>"
  let ?cr = "exampleRequest\<lparr>cr_Annotations := Map.empty, cr_IssuerRef := ?r\<rparr>"
  have 1: "ap_autoApproveNonSPIFFE (exampleApprover True)" "\<not> annotated ?cr" "\<not> hasSpiffeURI ?d ?cr"
    by (simp_all add: exampleApprover_simps exampleControllerDeps_def hasSpiffeURI_def emptyCSR_def)
  have 2: "\<not> CertificateRequestIsApproved ?d ?cr" "\<not> CertificateRequestIsDenied ?d ?cr"
    by (simp_all add: exampleControllerDeps_def hasTrueCondition_def exampleRequest_def)
  have 3: "cr_IssuerRef ?cr \<noteq> cfg_IssuerRef (rt_Config (ap_runtimeConfig (exampleApprover True)))"
    "cr_IssuerRef ?cr = cfg_IssuerRef (rt_Config (MemoryImpl (rc_NewMemory \<lparr>cfg_IssuerRef = ?r\<rparr> False)))"
    by (simp_all add: exampleApprover_simps)
  have d: "CertificateRequestIsApproved ?d = hasTrueCondition ConditionApproved"
    "CertificateRequestIsDenied ?d = hasTrueCondition ConditionDenied" "cr_key ?cr = (''sandbox'', ''req'')"
    by (simp_all add: exampleControllerDeps_def exampleRequest_def)
  show ?thesis
    using verdict_given_twice [OF exampleControllerDeps_ok 1 2 3] unfolding d by blast
qed

end
