(* ===== verification/CSIStorage.thy ===== *)
theory CSIStorage
  imports Prelude
begin

text \<open>
  The storage of csi-lib as the driver calls it: a record of functions over the state \<open>'s\<close> of
  the file system, a parameter of the driver's model. \<open>storage_ok\<close> states what the driver
  relies on. \<open>exampleStorage\<close> keeps the volumes in memory and shows that it can be met.
\<close>

section \<open>The parameter\<close>

record Metadata =
  md_VolumeID :: string
  md_NextIssuanceTime :: "int option"  \<comment> \<open>nanoseconds\<close>
  md_VolumeContext :: "string \<rightharpoonup> string"

record 's storage =
  ListVolumes :: "'s \<Rightarrow> goerr + string list"
  ReadMetadata :: "'s \<Rightarrow> string \<Rightarrow> goerr + Metadata"
  ReadFile :: "'s \<Rightarrow> string \<Rightarrow> string \<Rightarrow> goerr + bytes"
  WriteFiles :: "Metadata \<Rightarrow> (string \<rightharpoonup> bytes) \<Rightarrow> 's \<Rightarrow> goerr option \<times> 's"
  WriteMetadata :: "string \<Rightarrow> Metadata \<Rightarrow> 's \<Rightarrow> goerr option \<times> 's"

text \<open>
  Metadata is stored under its volume's id. A successful write of files can be read back; a
  write, successful or not, touches no other volume and no metadata. A successful write of
  metadata can be read back; it touches no file and no other volume.
\<close>

definition storage_ok :: "'s storage \<Rightarrow> bool" where
  "storage_ok st \<longleftrightarrow>
     (\<forall>s v m. ReadMetadata st s v = Inr m \<longrightarrow> md_VolumeID m = v)
     \<and> (\<forall>s s' m data n b. WriteFiles st m data s = (None, s') \<longrightarrow> data n = Some b \<longrightarrow>
          ReadFile st s' (md_VolumeID m) n = Inr b)
     \<and> (\<forall>s s' r m data v n. WriteFiles st m data s = (r, s') \<longrightarrow> v \<noteq> md_VolumeID m \<longrightarrow>
          ReadFile st s' v n = ReadFile st s v n)
     \<and> (\<forall>s s' r m data. WriteFiles st m data s = (r, s') \<longrightarrow>
          ReadMetadata st s' = ReadMetadata st s \<and> ListVolumes st s' = ListVolumes st s)
     \<and> (\<forall>s s' v m. WriteMetadata st v m s = (None, s') \<longrightarrow> md_VolumeID m = v \<longrightarrow>
          ReadMetadata st s' v = Inr m)
     \<and> (\<forall>s s' r v m. WriteMetadata st v m s = (r, s') \<longrightarrow>
          ReadFile st s' = ReadFile st s
          \<and> (\<forall>u. u \<noteq> v \<longrightarrow> ReadMetadata st s' u = ReadMetadata st s u))"

lemma ReadMetadata_id:
  "storage_ok st \<Longrightarrow> ReadMetadata st s v = Inr m \<Longrightarrow> md_VolumeID m = v"
  unfolding storage_ok_def by metis

lemma WriteFiles_same:
  "storage_ok st \<Longrightarrow> WriteFiles st m data s = (None, s') \<Longrightarrow> data n = Some b \<Longrightarrow>
   md_VolumeID m = v \<Longrightarrow> ReadFile st s' v n = Inr b"
  unfolding storage_ok_def by metis

lemma WriteFiles_other:
  "storage_ok st \<Longrightarrow> WriteFiles st m data s = (r, s') \<Longrightarrow> v \<noteq> md_VolumeID m \<Longrightarrow>
   ReadFile st s' v n = ReadFile st s v n"
  unfolding storage_ok_def by metis

lemma WriteFiles_meta:
  "storage_ok st \<Longrightarrow> WriteFiles st m data s = (r, s') \<Longrightarrow> ReadMetadata st s' = ReadMetadata st s"
  unfolding storage_ok_def by metis

lemma WriteMetadata_same:
  "storage_ok st \<Longrightarrow> WriteMetadata st v m s = (None, s') \<Longrightarrow> md_VolumeID m = v \<Longrightarrow>
   ReadMetadata st s' v = Inr m"
  unfolding storage_ok_def by metis

lemma WriteMetadata_files:
  "storage_ok st \<Longrightarrow> WriteMetadata st v m s = (r, s') \<Longrightarrow> ReadFile st s' = ReadFile st s"
  unfolding storage_ok_def by metis

section \<open>An instance\<close>

record volumes =
  vol_ids :: "string list"
  vol_meta :: "string \<rightharpoonup> Metadata"
  vol_files :: "string \<Rightarrow> string \<rightharpoonup> bytes"

definition fromMap :: "'a option \<Rightarrow> goerr + 'a" where
  "fromMap x = (case x of None \<Rightarrow> Inl (ErrLib ''not found'') | Some a \<Rightarrow> Inr a)"

definition exampleStorage :: "volumes storage" where
  "exampleStorage =
     \<lparr>ListVolumes = (\<lambda>s. Inr (vol_ids s)),
      ReadMetadata = (\<lambda>s v. fromMap (map_option (\<lambda>m. m\<lparr>md_VolumeID := v\<rparr>) (vol_meta s v))),
      ReadFile = (\<lambda>s v n. fromMap (vol_files s v n)),
      WriteFiles = (\<lambda>m data s. (None, s\<lparr>vol_files := (vol_files s)(md_VolumeID m := data)\<rparr>)),
      WriteMetadata = (\<lambda>v m s. (None, s\<lparr>vol_meta := (vol_meta s)(v \<mapsto> m)\<rparr>))\<rparr>"

lemma exampleStorage_ok: "storage_ok exampleStorage"
  by (auto simp: storage_ok_def exampleStorage_def fromMap_def split: option.splits if_splits)

end
