(* ===== verification/RootCA.thy ===== *)
theory RootCA
  imports Prelude
begin

text \<open>
  \<open>internal/csi/rootca\<close>: the root CA sources (\<open>file.go\<close>, \<open>memory.go\<close>) behind
  \<open>rootca.Interface\<close>. A subscriber is an unbuffered channel; a broadcast starts one goroutine
  per subscriber that blocks until the subscriber receives. The model keeps, for each
  subscriber, the number of those goroutines (\<open>f_subscribers\<close>, \<open>m_subscribers\<close>). What the
  goroutine of a source takes from its \<open>select\<close> is an event with the results of the calls its
  branch makes. The constants of fsnotify are a parameter. The locale \<open>rootca_interface\<close> is
  the contract of the interface, interpreted on both sources.
\<close>

section \<open>Definitions\<close>

subsection \<open>file.go\<close>

record fsOps =
  fs_Write :: "32 word"
  fs_Remove :: "32 word"

record fileCA =
  f_filepath :: string
  f_certificatesPEM :: bytes
  f_subscribers :: "nat list"
  f_running :: bool

datatype fileEvent =
    FsEvent "32 word" "goerr option" "goerr option" "goerr + bytes"
      \<comment> \<open>\<open>event.Op\<close>, the results of \<open>watcher.Remove\<close>, \<open>watcher.Add\<close> and \<open>os.ReadFile\<close>\<close>
  | FsError goerr
  | FsCtxDone

definition broadcast :: "nat list \<Rightarrow> nat list" where
  "broadcast subs = map Suc subs"

definition reloadCertificatesPEM :: "goerr + bytes \<Rightarrow> fileCA \<Rightarrow> fileCA" where
  "reloadCertificatesPEM rd f =
     (case rd of
        Inl err \<Rightarrow> f
      | Inr pem \<Rightarrow>
          if pem = f_certificatesPEM f then f
          else f\<lparr>f_certificatesPEM := pem, f_subscribers := broadcast (f_subscribers f)\<rparr>)"

text \<open>The errors of \<open>watcher.Remove\<close> and \<open>watcher.Add\<close> are logged.\<close>

fun file_start :: "fsOps \<Rightarrow> fileCA \<Rightarrow> fileEvent \<Rightarrow> fileCA" where
  "file_start ops f FsCtxDone = f\<lparr>f_running := False\<rparr>"
| "file_start ops f (FsEvent op remErr addErr rd) =
     (if \<not> f_running f then f
      else if op = fs_Remove ops then reloadCertificatesPEM rd f
      else if and op (fs_Write ops) = fs_Write ops then reloadCertificatesPEM rd f
      else f)"
| "file_start ops f (FsError err) = f"

definition NewFile ::
    "string \<Rightarrow> goerr + bytes \<Rightarrow> goerr option \<Rightarrow> goerr option \<Rightarrow> goerr + fileCA" where
  "NewFile path rd newWatcherErr addErr =
     (case rd of
        Inl err \<Rightarrow> Inl (Wrapf ''failed to read root CAs file %q: %s'' [VStr path] err)
      | Inr pem \<Rightarrow>
          case newWatcherErr of
            Some err \<Rightarrow> Inl (Wrapf ''failed to create file watch: %w'' [] err)
          | None \<Rightarrow>
              case addErr of
                Some err \<Rightarrow> Inl (Wrapf ''failed to add root CAs file for watching %q: %w'' [VStr path] err)
              | None \<Rightarrow> Inr \<lparr>f_filepath = path, f_certificatesPEM = pem, f_subscribers = [],
                             f_running = True\<rparr>)"

definition file_CertificatesPEM :: "fileCA \<Rightarrow> bytes" where
  "file_CertificatesPEM f = f_certificatesPEM f"

text \<open>The channel returned is named by its index.\<close>

definition file_Subscribe :: "fileCA \<Rightarrow> nat \<times> fileCA" where
  "file_Subscribe f = (length (f_subscribers f), f\<lparr>f_subscribers := f_subscribers f @ [0]\<rparr>)"

text \<open>A receive on channel \<open>i\<close> releases one of the goroutines that send on it.\<close>

definition takeOne :: "nat \<Rightarrow> nat list \<Rightarrow> nat list" where
  "takeOne i subs = (if i < length subs then subs[i := subs ! i - 1] else subs)"

definition file_receive :: "nat \<Rightarrow> fileCA \<Rightarrow> fileCA" where
  "file_receive i f = f\<lparr>f_subscribers := takeOne i (f_subscribers f)\<rparr>"

subsection \<open>memory.go\<close>

record memoryCA =
  m_certificatesPEM :: bytes
  m_subscribers :: "nat list"
  m_running :: bool

datatype memoryCAEvent = MemCA bytes | MemCtxDone

definition ca_NewMemory :: memoryCA where
  "ca_NewMemory = \<lparr>m_certificatesPEM = [], m_subscribers = [], m_running = True\<rparr>"

fun memoryCA_step :: "memoryCA \<Rightarrow> memoryCAEvent \<Rightarrow> memoryCA" where
  "memoryCA_step m MemCtxDone = m\<lparr>m_running := False\<rparr>"
| "memoryCA_step m (MemCA pem) =
     (if m_running m
      then m\<lparr>m_certificatesPEM := pem, m_subscribers := broadcast (m_subscribers m)\<rparr>
      else m)"

definition memory_CertificatesPEM :: "memoryCA \<Rightarrow> bytes" where
  "memory_CertificatesPEM m = m_certificatesPEM m"

definition memory_Subscribe :: "memoryCA \<Rightarrow> nat \<times> memoryCA" where
  "memory_Subscribe m = (length (m_subscribers m), m\<lparr>m_subscribers := m_subscribers m @ [0]\<rparr>)"

definition memory_receive :: "nat \<Rightarrow> memoryCA \<Rightarrow> memoryCA" where
  "memory_receive i m = m\<lparr>m_subscribers := takeOne i (m_subscribers m)\<rparr>"

section \<open>The interface\<close>

text \<open>
  A consumer of the interface holds the certificates it last read. \<open>SourceEvent\<close> is an event of
  the source, \<open>OtherSubscribe\<close> and \<open>OtherReceive\<close> what other consumers do, \<open>Receive\<close> a receive
  of this consumer, possible when a notification is pending, after which it reads.
\<close>

datatype 'e consumerEvent = SourceEvent 'e | OtherSubscribe | OtherReceive nat | Receive

fun consumer_step ::
    "('s \<Rightarrow> 'e \<Rightarrow> 's) \<Rightarrow> ('s \<Rightarrow> bytes) \<Rightarrow> ('s \<Rightarrow> nat list) \<Rightarrow> ('s \<Rightarrow> nat \<times> 's) \<Rightarrow> (nat \<Rightarrow> 's \<Rightarrow> 's) \<Rightarrow>
     nat \<Rightarrow> 's \<times> bytes \<Rightarrow> 'e consumerEvent \<Rightarrow> 's \<times> bytes" where
  "consumer_step stp pem pending sub rcv i (s, seen) (SourceEvent e) = (stp s e, seen)"
| "consumer_step stp pem pending sub rcv i (s, seen) OtherSubscribe = (snd (sub s), seen)"
| "consumer_step stp pem pending sub rcv i (s, seen) (OtherReceive j) =
     (if j = i then s else rcv j s, seen)"
| "consumer_step stp pem pending sub rcv i (s, seen) Receive =
     (if pending s ! i = 0 then (s, seen) else (rcv i s, pem (rcv i s)))"

locale rootca_interface =
  fixes stp :: "'s \<Rightarrow> 'e \<Rightarrow> 's"
    and pem :: "'s \<Rightarrow> bytes"
    and pending :: "'s \<Rightarrow> nat list"
    and sub :: "'s \<Rightarrow> nat \<times> 's"
    and rcv :: "nat \<Rightarrow> 's \<Rightarrow> 's"
  assumes step_pending: "pending (stp s e) = pending s \<or> pending (stp s e) = map Suc (pending s)"
    and step_change: "pem (stp s e) \<noteq> pem s \<Longrightarrow> pending (stp s e) = map Suc (pending s)"
    and sub_fst: "fst (sub s) = length (pending s)"
    and sub_pending: "pending (snd (sub s)) = pending s @ [0]"
    and sub_pem: "pem (snd (sub s)) = pem s"
    and rcv_pending: "pending (rcv i s) = takeOne i (pending s)"
    and rcv_pem: "pem (rcv i s) = pem s"
begin

definition fresh :: "nat \<Rightarrow> 's \<times> bytes \<Rightarrow> bool" where
  "fresh i x \<longleftrightarrow> i < length (pending (fst x)) \<and> (pem (fst x) = snd x \<or> 0 < pending (fst x) ! i)"

text \<open>An event of the source changes nothing a consumer sees, or notifies every subscriber.\<close>

lemma step_cases:
  obtains (same) "pem (stp s e) = pem s" "pending (stp s e) = pending s"
  | (more) "pending (stp s e) = map Suc (pending s)"
  using step_pending [of s e] step_change [of s e] by blast

lemma fresh_step: "fresh i x \<Longrightarrow> fresh i (consumer_step stp pem pending sub rcv i x e)"
proof (cases x)
  case (Pair s seen)
  assume "fresh i x"
  then have i: "i < length (pending s)" "pem s = seen \<or> 0 < pending s ! i"
    by (simp_all add: fresh_def Pair)
  show ?thesis
  proof (cases e)
    case (SourceEvent ev)
    show ?thesis
      by (cases rule: step_cases [of s ev]) (use i in \<open>auto simp: fresh_def Pair SourceEvent\<close>)
  qed (use i in \<open>auto simp: fresh_def Pair sub_pending sub_pem rcv_pending rcv_pem takeOne_def nth_append\<close>)
qed

lemma fresh_run: "fresh i x \<Longrightarrow> fresh i (foldl (consumer_step stp pem pending sub rcv i) x es)"
  by (induction es arbitrary: x) (simp_all add: fresh_step)

text \<open>A consumer that subscribes and then reads never misses a change.\<close>

lemma no_lost_change:
  assumes "sub s0 = (i, s1)"
    and "foldl (consumer_step stp pem pending sub rcv i) (s1, pem s1) es = (s, seen)"
  shows "i < length (pending s) \<and> (pem s = seen \<or> 0 < pending s ! i)"
proof -
  have "fresh i (s1, pem s1)"
    using sub_fst [of s0] sub_pending [of s0] assms(1) by (simp add: fresh_def)
  from fresh_run [OF this, of es] show ?thesis by (simp add: fresh_def assms(2))
qed

end

lemma file_start_cases:
  "file_start ops f e = f \<or> file_start ops f e = f\<lparr>f_running := False\<rparr>
   \<or> (\<exists>rd. file_start ops f e = reloadCertificatesPEM rd f)"
  by (cases e) auto

lemma reload_pending:
  "f_certificatesPEM (reloadCertificatesPEM rd f) = f_certificatesPEM f
     \<and> f_subscribers (reloadCertificatesPEM rd f) = f_subscribers f
   \<or> f_subscribers (reloadCertificatesPEM rd f) = map Suc (f_subscribers f)"
  by (auto simp: reloadCertificatesPEM_def broadcast_def split: sum.split)

interpretation fileca: rootca_interface "file_start ops" file_CertificatesPEM f_subscribers
    file_Subscribe file_receive for ops
proof
  fix f e
  show "f_subscribers (file_start ops f e) = f_subscribers f
      \<or> f_subscribers (file_start ops f e) = map Suc (f_subscribers f)"
    using file_start_cases [of ops f e] reload_pending [of _ f] by force
  show "file_CertificatesPEM (file_start ops f e) \<noteq> file_CertificatesPEM f \<Longrightarrow>
      f_subscribers (file_start ops f e) = map Suc (f_subscribers f)"
    using file_start_cases [of ops f e] reload_pending [of _ f]
    by (force simp: file_CertificatesPEM_def)
qed (simp_all add: file_Subscribe_def file_receive_def file_CertificatesPEM_def)

interpretation memoryca: rootca_interface memoryCA_step memory_CertificatesPEM m_subscribers
    memory_Subscribe memory_receive
proof
  fix m e
  show "m_subscribers (memoryCA_step m e) = m_subscribers m
      \<or> m_subscribers (memoryCA_step m e) = map Suc (m_subscribers m)"
    by (cases e) (simp_all add: broadcast_def)
  show "memory_CertificatesPEM (memoryCA_step m e) \<noteq> memory_CertificatesPEM m \<Longrightarrow>
      m_subscribers (memoryCA_step m e) = map Suc (m_subscribers m)"
    by (cases e) (simp_all add: broadcast_def memory_CertificatesPEM_def split: if_splits)
qed (simp_all add: memory_Subscribe_def memory_receive_def memory_CertificatesPEM_def)

section \<open>Lemmas\<close>

text \<open>What the file source read while it ran: the contents of the successful reloads.\<close>

definition reloads :: "fsOps \<Rightarrow> 32 word \<Rightarrow> bool" where
  "reloads ops op \<longleftrightarrow> op = fs_Remove ops \<or> and op (fs_Write ops) = fs_Write ops"

fun contentsRead :: "fsOps \<Rightarrow> fileEvent list \<Rightarrow> bytes list" where
  "contentsRead ops [] = []"
| "contentsRead ops (FsCtxDone # es) = []"
| "contentsRead ops (FsError err # es) = contentsRead ops es"
| "contentsRead ops (FsEvent op r a rd # es) =
     (case rd of Inr pem \<Rightarrow> if reloads ops op then pem # contentsRead ops es else contentsRead ops es
               | Inl err \<Rightarrow> contentsRead ops es)"

text \<open>The number of positions at which a list of contents changes.\<close>

fun changes :: "bytes list \<Rightarrow> nat" where
  "changes (x # y # xs) = (if x = y then 0 else 1) + changes (y # xs)"
| "changes xs = 0"

lemma file_stopped: "\<not> f_running f \<Longrightarrow> foldl (file_start ops) f es = f"
proof (induction es)
  case (Cons e es)
  then have "file_start ops f e = f" by (cases e) simp_all
  with Cons show ?case by simp
qed simp

lemma file_event:
  "f_running f \<Longrightarrow> file_start ops f (FsEvent op r a rd) =
     (if reloads ops op then reloadCertificatesPEM rd f else f)"
  by (simp add: reloads_def)

lemma reload_Inr:
  "reloadCertificatesPEM (Inr pem) f =
     f\<lparr>f_certificatesPEM := pem,
       f_subscribers := map (\<lambda>n. changes [f_certificatesPEM f, pem] + n) (f_subscribers f)\<rparr>"
  by (simp add: reloadCertificatesPEM_def broadcast_def)

lemma file_run:
  "f_running f \<Longrightarrow>
   let cs = f_certificatesPEM f # contentsRead ops es; f' = foldl (file_start ops) f es in
   f_certificatesPEM f' = last cs
   \<and> f_subscribers f' = map (\<lambda>n. changes cs + n) (f_subscribers f)"
proof (induction ops es arbitrary: f rule: contentsRead.induct)
  case (4 ops op r a rd es)
  show ?case
  proof (cases "\<exists>pem. rd = Inr pem \<and> reloads ops op")
    case True
    then obtain pem where rd: "rd = Inr pem" "reloads ops op" by blast
    show ?thesis
      using "4.IH"(2) [OF rd, of "reloadCertificatesPEM rd f"] "4.prems" rd
      by (simp add: Let_def file_event reload_Inr comp_def add.assoc add.left_commute
          del: file_start.simps)
  next
    case False
    then have "file_start ops f (FsEvent op r a rd) = f"
      using "4.prems" by (auto simp: reloadCertificatesPEM_def reloads_def split: sum.split)
    with False 4 show ?thesis by (auto split: sum.splits)
  qed
qed (simp_all add: Let_def file_stopped map_idI)

definition exampleOps :: fsOps where
  "exampleOps = \<lparr>fs_Write = 2, fs_Remove = 4\<rparr>"

definition exampleFile :: fileCA where
  "exampleFile = \<lparr>f_filepath = ''/ca.pem'', f_certificatesPEM = [1], f_subscribers = [], f_running = True\<rparr>"

text \<open>\<open>start\<close> compares \<open>event.Op\<close> with \<open>fsnotify.Remove\<close> for equality although it is a set
  of bits: an event that reports the removal together with other operations than a write is
  ignored, and the certificates that replaced the file are not read.\<close>

lemma combined_remove_ignored:
  assumes "and op (fs_Remove ops) = fs_Remove ops" and "op \<noteq> fs_Remove ops"
    and "and op (fs_Write ops) \<noteq> fs_Write ops"
  shows "file_start ops f (FsEvent op r a rd) = f"
  using assms by simp

lemma combined_remove_example:
  "and (20 :: 32 word) (fs_Remove exampleOps) = fs_Remove exampleOps
   \<and> file_start exampleOps exampleFile (FsEvent 20 None None (Inr [2])) = exampleFile"
  using combined_remove_ignored [of 20 exampleOps exampleFile None None "Inr [2]"]
  by (simp add: exampleOps_def)

text \<open>A subscriber of the memory source misses no change either.\<close>

lemma memory_no_lost_change:
  assumes "memory_Subscribe m0 = (i, m1)"
    and "foldl (consumer_step memoryCA_step memory_CertificatesPEM m_subscribers memory_Subscribe
           memory_receive i) (m1, memory_CertificatesPEM m1) es = (m, seen)"
  shows "memory_CertificatesPEM m = seen \<or> 0 < m_subscribers m ! i"
  by (rule conjunct2 [OF memoryca.no_lost_change [OF assms]])

section \<open>Properties\<close>

text \<open>C24: No lost notification. A consumer of the file source that subscribes, reads the
  certificates and reads them again after each notification it receives has, at every moment and
  whatever the source and the other consumers do, either read the current certificates or a
  notification waiting for it.\<close>

theorem file_no_lost_change:
  assumes "file_Subscribe f0 = (i, f1)"
    and "foldl (consumer_step (file_start ops) file_CertificatesPEM f_subscribers file_Subscribe
           file_receive i) (f1, file_CertificatesPEM f1) es = (f, seen)"
  shows "file_CertificatesPEM f = seen \<or> 0 < f_subscribers f ! i"
  by (rule conjunct2 [OF fileca.no_lost_change [OF assms]])

theorem file_no_lost_change_witness:
  "\<exists>f seen. foldl (consumer_step (file_start exampleOps) file_CertificatesPEM f_subscribers
       file_Subscribe file_receive 0) (snd (file_Subscribe exampleFile), [1])
       [SourceEvent (FsEvent 4 None None (Inr [2])), SourceEvent (FsEvent 6 None None (Inr [3])), Receive]
       = (f, seen)
     \<and> seen = [3] \<and> (file_CertificatesPEM f = seen \<or> 0 < f_subscribers f ! 0)"
  using file_no_lost_change [of exampleFile 0 "snd (file_Subscribe exampleFile)" exampleOps
      "[SourceEvent (FsEvent 4 None None (Inr [2])), SourceEvent (FsEvent 6 None None (Inr [3])), Receive]"]
  by (simp add: exampleFile_def exampleOps_def file_Subscribe_def file_CertificatesPEM_def
      reloadCertificatesPEM_def broadcast_def file_receive_def takeOne_def)

text \<open>C25: The file source built by \<open>NewFile\<close> holds, after any events, the content of the last
  successful read of a reloading event before the context ended (the initial content when there
  is none), and each subscriber has received exactly one notification per change of content:
  failed reads, errors of the watcher, other operations and unchanged contents give none.\<close>

theorem file_tracks_last_read:
  assumes "NewFile path (Inr pem) None None = Inr f0" and "(i, f1) = file_Subscribe f0"
  shows "file_CertificatesPEM (foldl (file_start ops) f1 es) = last (pem # contentsRead ops es)
    \<and> f_subscribers (foldl (file_start ops) f1 es) ! i = changes (pem # contentsRead ops es)"
proof -
  have "f_running f1" "f_certificatesPEM f1 = pem" "f_subscribers f1 = [0]" "i = 0"
    using assms by (auto simp: NewFile_def file_Subscribe_def)
  then show ?thesis
    using file_run [of f1 ops es] by (simp add: Let_def file_CertificatesPEM_def)
qed

theorem file_tracks_last_read_witness:
  "file_CertificatesPEM (foldl (file_start exampleOps) (snd (file_Subscribe exampleFile))
     [FsEvent 2 None None (Inr [1]), FsEvent 16 None None (Inr [9]), FsEvent 4 None None (Inr [2]),
      FsEvent 2 None None (Inl (ErrLib ''io'')), FsCtxDone, FsEvent 2 None None (Inr [5])]) = [2]"
  using file_tracks_last_read [of "''/ca.pem''" "[1]" exampleFile 0
      "snd (file_Subscribe exampleFile)" exampleOps
      "[FsEvent 2 None None (Inr [1]), FsEvent 16 None None (Inr [9]), FsEvent 4 None None (Inr [2]),
        FsEvent 2 None None (Inl (ErrLib ''io'')), FsCtxDone, FsEvent 2 None None (Inr [5])]"]
  by (simp add: NewFile_def exampleFile_def exampleOps_def file_Subscribe_def reloads_def)

end
