(* ===== verification/CAManager.thy ===== *)
theory CAManager
  imports CSIStorage RootCA
begin

text \<open>
  \<open>internal/csi/driver/camanager.go\<close>: the process that distributes new trust bundles to the
  mounted volumes. \<open>updateRootCAFiles\<close> is the update of all volumes over the storage
  parameter; \<open>run_step\<close> is the loop of \<open>run\<close> with the goroutines it shares channels with, as
  a step relation: the goroutines of the root CA source that send on \<open>watcher\<close>, the buffer of
  \<open>updateChan\<close> (capacity 1), the retry goroutines before and after their timer.
\<close>

section \<open>Definitions\<close>

subsection \<open>The update\<close>

record camanager =
  cam_certFileName :: string
  cam_keyFileName :: string
  cam_caFileName :: string
  cam_rootCAs :: bool  \<comment> \<open>\<open>rootCAs\<close> is configured\<close>

definition newCAManager :: "bool \<Rightarrow> string \<Rightarrow> string \<Rightarrow> string \<Rightarrow> camanager" where
  "newCAManager rootCAs certFileName keyFileName caFileName =
     \<lparr>cam_certFileName = certFileName, cam_keyFileName = keyFileName,
      cam_caFileName = caFileName, cam_rootCAs = rootCAs\<rparr>"

text \<open>
  The source may change while the volumes are visited, so \<open>rd k\<close> is what call number \<open>k\<close> of
  \<open>CertificatesPEM\<close> returns. One volume: the result, the storage, the number of calls so far.
\<close>

definition updateVolume ::
    "'s storage \<Rightarrow> camanager \<Rightarrow> (nat \<Rightarrow> bytes) \<Rightarrow> string \<Rightarrow> nat \<Rightarrow> 's \<Rightarrow> goerr option \<times> nat \<times> 's" where
  "updateVolume st c rd volumeID k s =
     (case ReadMetadata st s volumeID of
        Inl err \<Rightarrow> (Some (Wrapf ''%q: failed to read metadata from volume: %w'' [VStr volumeID] err), k, s)
      | Inr meta \<Rightarrow>
      case ReadFile st s volumeID (cam_certFileName c) of
        Inl err \<Rightarrow> (Some (Wrapf
          ''%q: failed to read certificate file from volume to perform write: %w'' [VStr volumeID] err), k, s)
      | Inr certData \<Rightarrow>
      case ReadFile st s volumeID (cam_keyFileName c) of
        Inl err \<Rightarrow> (Some (Wrapf
          ''%q: failed to read key file from volume to perform write: %w'' [VStr volumeID] err), k, s)
      | Inr keyData \<Rightarrow>
      let (same, k) = (case ReadFile st s volumeID (cam_caFileName c) of
                         Inl err \<Rightarrow> (False, k)
                       | Inr caData \<Rightarrow> (caData = rd k, k + 1)) in
      if same then (None, k, s)
      else case WriteFiles st meta
             [cam_certFileName c \<mapsto> certData, cam_keyFileName c \<mapsto> keyData, cam_caFileName c \<mapsto> rd k] s of
        (Some err, s') \<Rightarrow>
          (Some (Wrapf ''%q: failed to write new ca data to volume: %w'' [VStr volumeID] err), k + 1, s')
      | (None, s') \<Rightarrow> (None, k + 1, s'))"

fun updateVolumes ::
    "'s storage \<Rightarrow> camanager \<Rightarrow> (nat \<Rightarrow> bytes) \<Rightarrow> string list \<Rightarrow> nat \<Rightarrow> 's \<Rightarrow> goerr option \<times> 's" where
  "updateVolumes st c rd [] k s = (None, s)"
| "updateVolumes st c rd (volumeID # vs) k s =
     (case updateVolume st c rd volumeID k s of
        (Some err, k', s') \<Rightarrow> (Some err, s')
      | (None, k', s') \<Rightarrow> updateVolumes st c rd vs k' s')"

definition updateRootCAFiles ::
    "'s storage \<Rightarrow> camanager \<Rightarrow> (nat \<Rightarrow> bytes) \<Rightarrow> 's \<Rightarrow> goerr option \<times> 's" where
  "updateRootCAFiles st c rd s =
     (if \<not> cam_rootCAs c then (None, s)
      else case ListVolumes st s of
        Inl err \<Rightarrow> (Some (Wrapf ''failed to list managed volumes: %w'' [] err), s)
      | Inr volumeIDs \<Rightarrow> updateVolumes st c rd volumeIDs 0 s)"

subsection \<open>The loop\<close>

text \<open>
  Where the goroutine of \<open>run\<close> is: at the \<open>select\<close>, at the send on \<open>updateChan\<close> after a
  receive from \<open>watcher\<close>, in the update (with the version of the bundle it read), or returned.
\<close>

datatype pc = Select | Sending | Updating nat | Returned

text \<open>
  \<open>r_version\<close> counts the changes of the bundle since the subscription, \<open>r_synced\<close> is the
  version of the last successful update.
\<close>

record run_state =
  r_pc :: pc
  r_watcher :: nat     \<comment> \<open>goroutines that send on \<open>watcher\<close>\<close>
  r_chan :: nat        \<comment> \<open>messages in \<open>updateChan\<close>\<close>
  r_timers :: nat      \<comment> \<open>retry goroutines that wait\<close>
  r_retries :: nat     \<comment> \<open>retry goroutines that send on \<open>updateChan\<close>\<close>
  r_cancelled :: bool
  r_version :: nat
  r_synced :: nat

definition run_init :: "camanager \<Rightarrow> run_state" where
  "run_init c =
     \<lparr>r_pc = (if cam_rootCAs c then Select else Returned), r_watcher = 0, r_chan = 0, r_timers = 0,
      r_retries = 0, r_cancelled = False, r_version = 0, r_synced = 0\<rparr>"

text \<open>Messages and goroutines on their way to the next update.\<close>

definition tokens :: "run_state \<Rightarrow> nat" where
  "tokens r = r_watcher r + r_chan r + r_timers r + r_retries r + (if r_pc r = Sending then 1 else 0)"

definition quiet :: "run_state \<Rightarrow> bool" where
  "quiet r \<longleftrightarrow> tokens r = 0 \<and> (\<forall>v. r_pc r \<noteq> Updating v)"

text \<open>\<open>burst\<close>: the bundle may change while an earlier change is still on its way.\<close>

inductive run_step :: "bool \<Rightarrow> run_state \<Rightarrow> run_state \<Rightarrow> bool" for burst where
  change: "burst \<or> quiet r \<Longrightarrow>
    run_step burst r (r\<lparr>r_version := r_version r + 1, r_watcher := r_watcher r + 1\<rparr>)"
| cancel: "run_step burst r (r\<lparr>r_cancelled := True\<rparr>)"
| stop: "r_pc r = Select \<Longrightarrow> r_cancelled r \<Longrightarrow> run_step burst r (r\<lparr>r_pc := Returned\<rparr>)"
| watch: "r_pc r = Select \<Longrightarrow> 0 < r_watcher r \<Longrightarrow>
    run_step burst r (r\<lparr>r_pc := Sending, r_watcher := r_watcher r - 1\<rparr>)"
| send: "r_pc r = Sending \<Longrightarrow> r_chan r < 1 \<Longrightarrow>
    run_step burst r (r\<lparr>r_pc := Select, r_chan := r_chan r + 1\<rparr>)"
| update: "r_pc r = Select \<Longrightarrow> 0 < r_chan r \<Longrightarrow>
    run_step burst r (r\<lparr>r_pc := Updating (r_version r), r_chan := r_chan r - 1\<rparr>)"
| updated: "r_pc r = Updating v \<Longrightarrow> run_step burst r (r\<lparr>r_pc := Select, r_synced := v\<rparr>)"
| failed: "r_pc r = Updating v \<Longrightarrow>
    run_step burst r (r\<lparr>r_pc := Select, r_timers := r_timers r + 1\<rparr>)"
| fire: "0 < r_timers r \<Longrightarrow>
    run_step burst r (r\<lparr>r_timers := r_timers r - 1, r_retries := r_retries r + 1\<rparr>)"
| abandon: "0 < r_timers r \<Longrightarrow> r_cancelled r \<Longrightarrow>
    run_step burst r (r\<lparr>r_timers := r_timers r - 1\<rparr>)"
| retry: "0 < r_retries r \<Longrightarrow> r_chan r < 1 \<Longrightarrow>
    run_step burst r (r\<lparr>r_retries := r_retries r - 1, r_chan := r_chan r + 1\<rparr>)"

inductive run_reachable :: "bool \<Rightarrow> camanager \<Rightarrow> run_state \<Rightarrow> bool" for burst c where
  start: "run_reachable burst c (run_init c)"
| step: "run_reachable burst c r \<Longrightarrow> run_step burst r r' \<Longrightarrow> run_reachable burst c r'"

section \<open>Lemmas: the update\<close>

definition distinctNames :: "camanager \<Rightarrow> bool" where
  "distinctNames c \<longleftrightarrow> distinct [cam_certFileName c, cam_keyFileName c, cam_caFileName c]"

lemma updateVolume_other:
  assumes "storage_ok st" and "updateVolume st c rd v k s = (r, k', s')"
  shows "u \<noteq> v \<Longrightarrow> ReadFile st s' u n = ReadFile st s u n" and "k \<le> k'"
    and "ReadMetadata st s' = ReadMetadata st s"
  using assms(2) WriteFiles_other [OF assms(1)] ReadMetadata_id [OF assms(1)]
    WriteFiles_meta [OF assms(1)]
  by (auto simp: updateVolume_def split: result_splits)

lemma updateVolume_None_cases:
  assumes "updateVolume st c rd v k s = (None, k', s')"
  obtains (same) "s' = s" "k' = Suc k" "ReadFile st s v (cam_caFileName c) = Inr (rd k)"
  | (written) meta cert key j where "ReadMetadata st s v = Inr meta"
      "ReadFile st s v (cam_certFileName c) = Inr cert"
      "ReadFile st s v (cam_keyFileName c) = Inr key" "k' = Suc j" "k \<le> j"
      "WriteFiles st meta [cam_certFileName c \<mapsto> cert, cam_keyFileName c \<mapsto> key,
         cam_caFileName c \<mapsto> rd j] s = (None, s')"
  using assms by (auto simp: updateVolume_def split: result_splits)

text \<open>After a successful visit the CA file holds what one of its reads of the source returned.\<close>

lemma updateVolume_success:
  assumes "storage_ok st" and "distinctNames c" and "updateVolume st c rd v k s = (None, k', s')"
  shows "\<exists>j. k \<le> j \<and> j < k' \<and> ReadFile st s' v (cam_caFileName c) = Inr (rd j)"
    and "n = cam_certFileName c \<or> n = cam_keyFileName c \<Longrightarrow> ReadFile st s' v n = ReadFile st s v n"
proof (atomize (full), use assms(3) in \<open>cases rule: updateVolume_None_cases\<close>)
  case (written meta cert key j)
  have "md_VolumeID meta = v" using ReadMetadata_id [OF assms(1) written(1)] .
  note same = WriteFiles_same [OF assms(1) written(6) _ this]
  have "ReadFile st s' v (cam_caFileName c) = Inr (rd j)"
    "ReadFile st s' v (cam_certFileName c) = Inr cert" "ReadFile st s' v (cam_keyFileName c) = Inr key"
    using assms(2) by (auto intro!: same simp: distinctNames_def)
  moreover have "k \<le> j \<and> j < k'" using written(4,5) by simp
  ultimately show "(\<exists>j. k \<le> j \<and> j < k' \<and> ReadFile st s' v (cam_caFileName c) = Inr (rd j))
    \<and> (n = cam_certFileName c \<or> n = cam_keyFileName c \<longrightarrow> ReadFile st s' v n = ReadFile st s v n)"
    using written(2,3) by metis
qed auto

lemma updateVolumes_other:
  "storage_ok st \<Longrightarrow> updateVolumes st c rd vs k s = (r, s') \<Longrightarrow> u \<notin> set vs \<Longrightarrow>
   ReadFile st s' u n = ReadFile st s u n"
  by (induction vs arbitrary: k s) (auto split: result_splits dest: updateVolume_other(1))

lemma updateVolumes_success:
  assumes "storage_ok st" and "distinctNames c"
  shows "updateVolumes st c rd vs k s = (None, s') \<Longrightarrow> v \<in> set vs \<Longrightarrow>
    (\<exists>j. ReadFile st s' v (cam_caFileName c) = Inr (rd j))
    \<and> ReadFile st s' v (cam_certFileName c) = ReadFile st s v (cam_certFileName c)
    \<and> ReadFile st s' v (cam_keyFileName c) = ReadFile st s v (cam_keyFileName c)"
proof (induction vs arbitrary: k s)
  case (Cons w vs)
  then obtain k1 s1 where w: "updateVolume st c rd w k s = (None, k1, s1)"
    and vs: "updateVolumes st c rd vs k1 s1 = (None, s')"
    by (auto split: result_splits)
  have s1: "ReadFile st s1 v n = ReadFile st s v n"
    if "n = cam_certFileName c \<or> n = cam_keyFileName c" for n
    using updateVolume_success(2) [OF assms w that] updateVolume_other(1) [OF assms(1) w, of v n]
    by blast
  show ?case
  proof (cases "v \<in> set vs")
    case True
    with Cons.IH [OF vs] s1 show ?thesis by simp
  next
    case False
    with Cons.prems(2) have "v = w" by simp
    with False show ?thesis
      using updateVolumes_other [OF assms(1) vs] updateVolume_success(1) [OF assms w] s1 by auto
  qed
qed simp

text \<open>When the update fails, a prefix of the volumes was visited and the rest is untouched.\<close>

lemma updateVolumes_failure:
  assumes "storage_ok st"
  shows "updateVolumes st c rd vs k s = (Some err, s') \<Longrightarrow>
    \<exists>pre v post k1 k2 s1. vs = pre @ v # post \<and> updateVolumes st c rd pre k s = (None, s1)
      \<and> updateVolume st c rd v k1 s1 = (Some err, k2, s')"
proof (induction vs arbitrary: k s)
  case (Cons w vs)
  obtain r k1 s1 where w: "updateVolume st c rd w k s = (r, k1, s1)" by (metis prod_cases3)
  show ?case
  proof (cases r)
    case None
    with w Cons.prems have "updateVolumes st c rd vs k1 s1 = (Some err, s')" by simp
    from Cons.IH [OF this] obtain pre v post k2 k3 s2 where "vs = pre @ v # post"
      "updateVolumes st c rd pre k1 s1 = (None, s2)" "updateVolume st c rd v k2 s2 = (Some err, k3, s')"
      by blast
    with w None show ?thesis
      by (intro exI [of _ "w # pre"] exI [of _ v] exI [of _ post] exI [of _ k2] exI [of _ k3]
          exI [of _ s2]) simp
  next
    case (Some e)
    with w Cons.prems show ?thesis
      by (intro exI [of _ "[]"] exI [of _ w] exI [of _ vs] exI [of _ k] exI [of _ k1] exI [of _ s]) simp
  qed
qed simp

text \<open>A volume can be updated when its metadata, certificate and key can be read.\<close>

definition readable :: "'s storage \<Rightarrow> camanager \<Rightarrow> 's \<Rightarrow> string \<Rightarrow> bool" where
  "readable st c s v \<longleftrightarrow>
     (\<exists>meta cert key. ReadMetadata st s v = Inr meta
        \<and> ReadFile st s v (cam_certFileName c) = Inr cert
        \<and> ReadFile st s v (cam_keyFileName c) = Inr key)"

lemma updateVolume_total:
  assumes "readable st c s v" and "\<And>m data s. fst (WriteFiles st m data s) = None"
  shows "\<exists>k' s'. updateVolume st c rd v k s = (None, k', s')"
proof -
  obtain meta cert key where "ReadMetadata st s v = Inr meta"
    "ReadFile st s v (cam_certFileName c) = Inr cert" "ReadFile st s v (cam_keyFileName c) = Inr key"
    using assms(1) unfolding readable_def by blast
  moreover define g where "g m data s = snd (WriteFiles st m data s)" for m data s
  then have "WriteFiles st m data s = (None, g m data s)" for m data s
    using assms(2) [of m data s] by (simp add: prod_eq_iff)
  ultimately show ?thesis
    by (cases "ReadFile st s v (cam_caFileName c)") (simp_all add: updateVolume_def)
qed

lemma updateVolumes_total:
  assumes "storage_ok st" and "distinctNames c" and "\<And>m data s. fst (WriteFiles st m data s) = None"
  shows "(\<And>v. v \<in> set vs \<Longrightarrow> readable st c s v) \<Longrightarrow> \<exists>s'. updateVolumes st c rd vs k s = (None, s')"
proof (induction vs arbitrary: k s)
  case (Cons w vs)
  obtain k1 s1 where w: "updateVolume st c rd w k s = (None, k1, s1)"
    using updateVolume_total [OF _ assms(3)] Cons.prems [of w] by fastforce
  have "ReadFile st s1 v n = ReadFile st s v n"
    if "n = cam_certFileName c \<or> n = cam_keyFileName c" for v n
    using updateVolume_success(2) [OF assms(1,2) w that] updateVolume_other(1) [OF assms(1) w, of v n]
    by blast
  then have "readable st c s1 v" if "v \<in> set vs" for v
    using Cons.prems [of v] that updateVolume_other(3) [OF assms(1) w]
    unfolding readable_def by simp
  from Cons.IH [OF this] w show ?case by simp
qed simp

section \<open>Lemmas: the loop\<close>

inductive_cases run_stepE: "run_step burst r r'"

text \<open>
  While the context lives, a change that was not written yet is on its way; an update works
  on a version that is at least as new as the last one written.
\<close>

definition run_inv :: "run_state \<Rightarrow> bool" where
  "run_inv r \<longleftrightarrow>
     r_synced r \<le> r_version r \<and> r_chan r \<le> 1
     \<and> (\<forall>v. r_pc r = Updating v \<longrightarrow> r_synced r \<le> v \<and> v \<le> r_version r)
     \<and> (r_pc r = Returned \<longrightarrow> r_cancelled r)
     \<and> (r_cancelled r \<or> r_synced r = r_version r \<or> 0 < tokens r \<or> r_pc r = Updating (r_version r))"

lemma run_inv_step: "run_step burst r r' \<Longrightarrow> run_inv r \<Longrightarrow> run_inv r'"
  by (induction rule: run_step.induct) (auto simp: run_inv_def tokens_def)

lemma run_inv_init: "cam_rootCAs c \<Longrightarrow> run_inv (run_init c)"
  by (simp add: run_inv_def run_init_def)

lemma run_inv_reachable: "run_reachable burst c r \<Longrightarrow> cam_rootCAs c \<Longrightarrow> run_inv r"
  by (induction rule: run_reachable.induct) (auto intro: run_inv_step run_inv_init)

text \<open>The states in which the goroutine of \<open>run\<close> blocks on its own channel.\<close>

definition stuck :: "run_state \<Rightarrow> bool" where
  "stuck r \<longleftrightarrow> r_pc r = Sending \<and> r_chan r = 1"

lemma stuck_step: "run_step burst r r' \<Longrightarrow> stuck r \<Longrightarrow> stuck r' \<and> r_synced r' = r_synced r"
  by (induction rule: run_step.induct) (auto simp: stuck_def)

lemma stuck_steps:
  "(run_step burst)\<^sup>*\<^sup>* r r' \<Longrightarrow> stuck r \<Longrightarrow> stuck r' \<and> r_synced r' = r_synced r"
  by (induction rule: rtranclp_induct) (auto dest: stuck_step)

text \<open>When changes come one at a time, at most one message is on its way.\<close>

definition calm_inv :: "run_state \<Rightarrow> bool" where
  "calm_inv r \<longleftrightarrow> tokens r + (case r_pc r of Updating v \<Rightarrow> 1 | _ \<Rightarrow> 0) \<le> 1"

lemma calm_step: "run_step False r r' \<Longrightarrow> calm_inv r \<Longrightarrow> calm_inv r'"
  by (induction rule: run_step.induct)
    (auto simp: calm_inv_def tokens_def quiet_def split: pc.splits if_splits)

lemma calm_reachable: "run_reachable False c r \<Longrightarrow> calm_inv r"
proof (induction rule: run_reachable.induct)
  case (step r r')
  then show ?case by (blast intro: calm_step)
qed (simp add: calm_inv_def tokens_def run_init_def)

text \<open>From the \<open>select\<close> with a message in the buffer, two steps write the current bundle.\<close>

definition caughtUp :: "run_state \<Rightarrow> bool" where
  "caughtUp r \<longleftrightarrow> r_pc r = Select \<and> r_synced r = r_version r"

lemma catch_chan:
  assumes "r_pc r = Select" and "0 < r_chan r"
  shows "\<exists>r'. (run_step burst)\<^sup>*\<^sup>* r r' \<and> caughtUp r'"
proof -
  let ?r1 = "r\<lparr>r_pc := Updating (r_version r), r_chan := r_chan r - 1\<rparr>"
  let ?r2 = "?r1\<lparr>r_pc := Select, r_synced := r_version r\<rparr>"
  have "run_step burst r ?r1" using assms by (rule update)
  moreover have "run_step burst ?r1 ?r2" by (rule updated) simp
  ultimately have "(run_step burst)\<^sup>*\<^sup>* r ?r2"
    by (rule converse_rtranclp_into_rtranclp [OF _ r_into_rtranclp])
  then show ?thesis by (intro exI [of _ ?r2]) (simp add: caughtUp_def)
qed

lemma catch_step:
  assumes "run_step burst r r1" and "\<exists>r'. (run_step burst)\<^sup>*\<^sup>* r1 r' \<and> caughtUp r'"
  shows "\<exists>r'. (run_step burst)\<^sup>*\<^sup>* r r' \<and> caughtUp r'"
  using assms by (meson converse_rtranclp_into_rtranclp)

lemma catch_sending:
  "r_pc r = Sending \<Longrightarrow> r_chan r < 1 \<Longrightarrow> \<exists>r'. (run_step burst)\<^sup>*\<^sup>* r r' \<and> caughtUp r'"
  by (rule catch_step [OF send]) (auto intro: catch_chan)

lemma catch_retries:
  assumes "r_pc r = Select" and "0 < r_retries r"
  shows "\<exists>r'. (run_step burst)\<^sup>*\<^sup>* r r' \<and> caughtUp r'"
proof (cases "r_chan r < 1")
  case True
  show ?thesis by (rule catch_step [OF retry [OF assms(2) True]]) (simp add: catch_chan assms(1))
qed (simp add: catch_chan assms(1))

lemma catch_watcher:
  assumes "r_pc r = Select" and "0 < r_watcher r"
  shows "\<exists>r'. (run_step burst)\<^sup>*\<^sup>* r r' \<and> caughtUp r'"
proof (cases "r_chan r < 1")
  case True
  then show ?thesis by (intro catch_step [OF watch [OF assms]] catch_sending) simp_all
qed (simp add: catch_chan assms(1))

lemma catch_select:
  assumes "r_pc r = Select" and "r_synced r = r_version r \<or> 0 < tokens r"
  shows "\<exists>r'. (run_step burst)\<^sup>*\<^sup>* r r' \<and> caughtUp r'"
proof -
  consider "r_synced r = r_version r" | "0 < r_watcher r" | "0 < r_chan r" | "0 < r_retries r"
    | "0 < r_timers r" using assms by (auto simp: tokens_def)
  then show ?thesis
  proof cases
    case 1
    with assms(1) show ?thesis by (intro exI [of _ r]) (simp add: caughtUp_def)
  next
    case 5
    show ?thesis by (rule catch_step [OF fire [OF 5]]) (simp add: catch_retries assms(1))
  qed (use assms(1) in \<open>auto intro: catch_watcher catch_chan catch_retries\<close>)
qed

lemma catch_up:
  assumes "run_inv r" and "\<not> r_cancelled r" and "\<not> stuck r"
  shows "\<exists>r'. (run_step burst)\<^sup>*\<^sup>* r r' \<and> caughtUp r'"
proof (cases "r_pc r")
  case Select
  with assms show ?thesis by (intro catch_select) (auto simp: run_inv_def)
next
  case Sending
  with assms show ?thesis by (intro catch_sending) (auto simp: run_inv_def stuck_def)
next
  case (Updating v)
  let ?r = "r\<lparr>r_pc := Select, r_synced := v\<rparr>"
  have "v = r_version r \<or> 0 < tokens r"
    using assms(1,2) Updating by (auto simp: run_inv_def)
  then have "\<exists>r'. (run_step burst)\<^sup>*\<^sup>* ?r r' \<and> caughtUp r'"
    by (intro catch_select) (auto simp: tokens_def Updating)
  then show ?thesis by (rule catch_step [OF updated [OF Updating]])
next
  case Returned
  with assms show ?thesis by (simp add: run_inv_def)
qed

lemma can_return:
  assumes "run_inv r" and "r_cancelled r" and "\<not> stuck r"
  shows "\<exists>r'. (run_step burst)\<^sup>*\<^sup>* r r' \<and> r_pc r' = Returned"
proof -
  have sel: "\<exists>r'. (run_step burst)\<^sup>*\<^sup>* q r' \<and> r_pc r' = Returned"
    if "r_pc q = Select" "r_cancelled q" for q
    using stop [OF that, of burst] by (intro exI [of _ "q\<lparr>r_pc := Returned\<rparr>"]) auto
  show ?thesis
  proof (cases "r_pc r")
    case Sending
    with assms have "run_step burst r (r\<lparr>r_pc := Select, r_chan := r_chan r + 1\<rparr>)"
      by (intro send) (auto simp: run_inv_def stuck_def)
    with sel [of "r\<lparr>r_pc := Select, r_chan := r_chan r + 1\<rparr>"] assms(2) show ?thesis
      by (auto intro: converse_rtranclp_into_rtranclp)
  next
    case (Updating v)
    with sel [of "r\<lparr>r_pc := Select, r_synced := v\<rparr>"] assms(2) show ?thesis
      by (auto intro: converse_rtranclp_into_rtranclp updated)
  qed (use sel assms(2) in auto)
qed

text \<open>Two changes in a row and the way to the blocked state.\<close>

lemma reach_stuck:
  assumes "cam_rootCAs c"
  shows "run_reachable True c
    \<lparr>r_pc = Sending, r_watcher = 0, r_chan = 1, r_timers = 0, r_retries = 0, r_cancelled = False,
     r_version = 2, r_synced = 0\<rparr>"
proof -
  let ?s = "\<lambda>p w n v. \<lparr>r_pc = p, r_watcher = w, r_chan = n, r_timers = 0, r_retries = 0,
     r_cancelled = False, r_version = v, r_synced = 0\<rparr>"
  have "run_init c = ?s Select 0 0 0" using assms by (simp add: run_init_def)
  moreover have "run_step True (?s Select 0 0 0) (?s Select 1 0 1)"
    using change [of True "?s Select 0 0 0"] by simp
  moreover have "run_step True (?s Select 1 0 1) (?s Select 2 0 2)"
    using change [of True "?s Select 1 0 1"] by (simp add: numeral_2_eq_2)
  moreover have "run_step True (?s Select 2 0 2) (?s Sending 1 0 2)"
    using watch [of "?s Select 2 0 2" True] by simp
  moreover have "run_step True (?s Sending 1 0 2) (?s Select 1 1 2)"
    using send [of "?s Sending 1 0 2" True] by simp
  moreover have "run_step True (?s Select 1 1 2) (?s Sending 0 1 2)"
    using watch [of "?s Select 1 1 2" True] by simp
  ultimately show ?thesis
    by (metis (no_types, lifting) run_reachable.start run_reachable.step)
qed

text \<open>
  \<open>settling r n m r'\<close>: \<open>n\<close> steps from \<open>r\<close> to \<open>r'\<close> without a change of the bundle, of which \<open>m\<close> are updates that fail;
  a cancellation may be among them. \<open>at_rest\<close>: nothing but a change or a cancellation is left to
  happen.
\<close>

inductive settling :: "run_state \<Rightarrow> nat \<Rightarrow> nat \<Rightarrow> run_state \<Rightarrow> bool" for r where
  none: "settling r 0 0 r"
| failure: "settling r n m q \<Longrightarrow> r_pc q = Updating v \<Longrightarrow>
    settling r (Suc n) (Suc m) (q\<lparr>r_pc := Select, r_timers := r_timers q + 1\<rparr>)"
| other: "settling r n m q \<Longrightarrow> run_step True q q' \<Longrightarrow> q' \<noteq> q \<Longrightarrow> r_version q' = r_version q \<Longrightarrow>
    r_timers q' \<le> r_timers q \<Longrightarrow> settling r (Suc n) m q'"

definition at_rest :: "run_state \<Rightarrow> bool" where
  "at_rest r \<longleftrightarrow>
     (\<forall>q. run_step True r q \<longrightarrow> r_version q = r_version r \<longrightarrow> r_cancelled q = r_cancelled r \<longrightarrow> q = r)"

definition workLeft :: "run_state \<Rightarrow> nat" where
  "workLeft r = 5 * r_watcher r + 3 * r_chan r + 5 * r_timers r + 4 * r_retries r
     + (case r_pc r of Select \<Rightarrow> 1 | Sending \<Rightarrow> 5 | Updating v \<Rightarrow> 2 | Returned \<Rightarrow> 0)
     + (if r_cancelled r then 0 else 1)"

lemma workLeft_decreases:
  "run_step True q q' \<Longrightarrow> q' \<noteq> q \<Longrightarrow> r_version q' = r_version q \<Longrightarrow> r_timers q' \<le> r_timers q \<Longrightarrow>
   workLeft q' < workLeft q"
  by (erule run_stepE) (auto simp: workLeft_def)

lemma settling_bound: "settling r n m r' \<Longrightarrow> n + workLeft r' \<le> workLeft r + 5 * m"
proof (induction rule: settling.induct)
  case (other n m q q')
  then show ?case using workLeft_decreases [of q q'] by simp
qed (simp_all add: workLeft_def)

lemma settling_reachable: "settling r n m r' \<Longrightarrow> run_reachable True c r \<Longrightarrow> run_reachable True c r'"
proof (induction rule: settling.induct)
  case (failure n m q v)
  then show ?case by (blast intro: run_reachable.step failed)
qed (blast intro: run_reachable.step)+

text \<open>The states at rest.\<close>

lemma at_restD:
  assumes "at_rest r" and "run_step True r q" and "r_version q = r_version r"
    and "r_cancelled q = r_cancelled r"
  shows "f q = f r"
  using assms unfolding at_rest_def by blast

lemma at_rest_cases:
  assumes "run_inv r" and "at_rest r"
  shows "stuck r
    \<or> (if r_cancelled r then r_pc r = Returned
       else r_pc r = Select \<and> tokens r = 0 \<and> r_synced r = r_version r)"
proof -
  note idle = at_restD [OF assms(2)]
  have "r_pc r \<noteq> Updating v" for v
    using idle [OF updated [of r v], of r_pc] by auto
  moreover have "stuck r" if "r_pc r = Sending"
  proof -
    have "\<not> r_chan r < 1" using idle [OF send [OF that], of r_pc] that by auto
    with that assms(1) show ?thesis by (simp add: run_inv_def stuck_def)
  qed
  moreover have "\<not> r_cancelled r \<and> tokens r = 0 \<and> r_synced r = r_version r" if "r_pc r = Select"
  proof -
    have "\<not> r_cancelled r" using idle [OF stop [OF that], of r_pc] that by auto
    moreover have "r_chan r = 0" using idle [OF update [OF that], of r_pc] that by auto
    moreover from this have "r_retries r = 0" using idle [OF retry [of r], of r_chan] by auto
    moreover have "r_timers r = 0" using idle [OF fire [of r], of r_retries] by auto
    moreover have "r_watcher r = 0" using idle [OF watch [OF that], of r_pc] that by auto
    ultimately show ?thesis using assms(1) that by (simp add: run_inv_def tokens_def)
  qed
  moreover have "r_cancelled r" if "r_pc r = Returned" using assms(1) that by (simp add: run_inv_def)
  ultimately show ?thesis by (cases "r_pc r") auto
qed

section \<open>An instance\<close>

definition exampleManager :: camanager where
  "exampleManager = newCAManager True ''tls.crt'' ''tls.key'' ''ca.crt''"

definition exampleVolumes :: volumes where
  "exampleVolumes =
     \<lparr>vol_ids = [''v1''],
      vol_meta = [''v1'' \<mapsto> \<lparr>md_VolumeID = ''v1'', md_NextIssuanceTime = None, md_VolumeContext = Map.empty\<rparr>],
      vol_files = (\<lambda>_. [''tls.crt'' \<mapsto> [1], ''tls.key'' \<mapsto> [2], ''ca.crt'' \<mapsto> [3]])\<rparr>"

lemmas exampleVolumes_simps =
  exampleManager_def newCAManager_def exampleVolumes_def exampleStorage_def fromMap_def

lemma exampleManager_ok: "distinctNames exampleManager" "cam_rootCAs exampleManager"
  by (simp_all add: distinctNames_def exampleManager_def newCAManager_def)

lemma exampleVolumes_list: "ListVolumes exampleStorage exampleVolumes = Inr [''v1'']"
  by (simp add: exampleVolumes_simps)

lemma exampleVolumes_readable: "v \<in> set [''v1''] \<Longrightarrow> readable exampleStorage exampleManager exampleVolumes v"
  by (simp add: readable_def exampleVolumes_simps)

lemma exampleStorage_writes: "fst (WriteFiles exampleStorage m data s) = None"
  by (simp add: exampleStorage_def)

text \<open>One change, distributed in four steps; or in eight, when the first update fails.\<close>

lemma example_settling:
  defines "r \<equiv> \<lambda>pc n chan t y. \<lparr>r_pc = pc, r_watcher = n, r_chan = chan, r_timers = t, r_retries = 0,
    r_cancelled = False, r_version = 1, r_synced = y\<rparr>"
  shows "settling (r Select 1 0 0 0) 4 1 (r Select 0 0 1 0)"
    and "settling (r Select 1 0 0 0) 8 1 (r Select 0 0 0 1)"
proof -
  let ?s = "settling (r Select 1 0 0 0)"
  have "?s 1 0 (r Sending 0 0 0 0)"
    using other [OF none watch [of "r Select 1 0 0 0" True]] by (simp add: r_def)
  from other [OF this send [of "r Sending 0 0 0 0" True]] have "?s 2 0 (r Select 0 1 0 0)"
    by (simp add: r_def numeral_2_eq_2)
  from other [OF this update [of "r Select 0 1 0 0" True]] have "?s 3 0 (r (Updating 1) 0 0 0 0)"
    by (simp add: r_def eval_nat_numeral)
  from failure [OF this, of 1] show 4: "?s 4 1 (r Select 0 0 1 0)"
    by (simp add: r_def eval_nat_numeral)
  let ?q = "(r Select 0 0 1 0)\<lparr>r_timers := 0, r_retries := 1\<rparr>"
  from other [OF 4 fire [of "r Select 0 0 1 0" True]] have "?s 5 1 ?q"
    by (simp add: r_def eval_nat_numeral)
  from other [OF this retry [of ?q True]] have "?s 6 1 (r Select 0 1 0 0)"
    by (simp add: r_def eval_nat_numeral)
  from other [OF this update [of "r Select 0 1 0 0" True]] have "?s 7 1 (r (Updating 1) 0 0 0 0)"
    by (simp add: r_def eval_nat_numeral)
  from other [OF this updated [of "r (Updating 1) 0 0 0 0" 1 True]] show "?s 8 1 (r Select 0 0 0 1)"
    by (simp add: r_def eval_nat_numeral)
qed

section \<open>Properties\<close>

text \<open>C20: When \<open>updateRootCAFiles\<close> returns \<open>nil\<close>, the CA file of every listed volume holds a bundle
  the source returned during the call (the current one when it did not change meanwhile), and
  the certificate and the key of the volume are what they were.\<close>

theorem update_distributes_bundle:
  assumes "storage_ok st" and "distinctNames c" and "cam_rootCAs c"
    and "ListVolumes st s = Inr vs" and "updateRootCAFiles st c rd s = (None, s')" and "v \<in> set vs"
  shows "(\<exists>j. ReadFile st s' v (cam_caFileName c) = Inr (rd j))
    \<and> ReadFile st s' v (cam_certFileName c) = ReadFile st s v (cam_certFileName c)
    \<and> ReadFile st s' v (cam_keyFileName c) = ReadFile st s v (cam_keyFileName c)"
  using assms(3-6) by (intro updateVolumes_success [OF assms(1,2)]) (simp_all add: updateRootCAFiles_def)

theorem update_distributes_bundle_witness:
  "ReadFile exampleStorage (snd (updateRootCAFiles exampleStorage exampleManager (\<lambda>_. [9]) exampleVolumes))
     ''v1'' ''ca.crt'' = Inr [9]"
proof -
  obtain s' where s': "updateRootCAFiles exampleStorage exampleManager (\<lambda>_. [9]) exampleVolumes = (None, s')"
    by (simp add: updateRootCAFiles_def updateVolume_def exampleVolumes_simps)
  then show ?thesis
    using update_distributes_bundle [OF exampleStorage_ok exampleManager_ok exampleVolumes_list s', of "''v1''"]
    by (simp add: exampleManager_def newCAManager_def)
qed

text \<open>\<open>updateRootCAFiles\<close> succeeds whenever the volumes can be listed, the metadata,
  certificate and key of each can be read and writes do not fail.\<close>

lemma update_succeeds:
  assumes "storage_ok st" and "distinctNames c" and "ListVolumes st s = Inr vs"
    and "\<And>v. v \<in> set vs \<Longrightarrow> readable st c s v"
    and "\<And>m data s. fst (WriteFiles st m data s) = None"
  shows "\<exists>s'. updateRootCAFiles st c rd s = (None, s')"
  using updateVolumes_total [OF assms(1,2,5,4)] assms(3) by (simp add: updateRootCAFiles_def)

text \<open>C28: When \<open>updateRootCAFiles\<close> returns an error after the volumes were listed, it stopped at
  one volume: the volumes before it were updated, and the files of the volumes that come after it
  only are untouched.\<close>

theorem update_error_prefix:
  assumes "storage_ok st" and "distinctNames c" and "cam_rootCAs c"
    and "ListVolumes st s = Inr vs" and "updateRootCAFiles st c rd s = (Some err, s')"
  shows "\<exists>pre v post. vs = pre @ v # post
    \<and> (\<forall>u. u \<in> set pre - {v} \<longrightarrow> (\<exists>j. ReadFile st s' u (cam_caFileName c) = Inr (rd j)))
    \<and> (\<forall>u n. u \<notin> set (pre @ [v]) \<longrightarrow> ReadFile st s' u n = ReadFile st s u n)"
proof -
  have "updateVolumes st c rd vs 0 s = (Some err, s')"
    using assms(3-5) by (simp add: updateRootCAFiles_def)
  from updateVolumes_failure [OF assms(1) this] obtain pre v post k1 k2 s1 where vs: "vs = pre @ v # post"
    and pre: "updateVolumes st c rd pre 0 s = (None, s1)"
    and v: "updateVolume st c rd v k1 s1 = (Some err, k2, s')" by blast
  have "ReadFile st s' u n = ReadFile st s1 u n" if "u \<noteq> v" for u n
    using updateVolume_other(1) [OF assms(1) v that] .
  then show ?thesis
    using updateVolumes_success [OF assms(1,2) pre] updateVolumes_other [OF assms(1) pre]
    by (intro exI [of _ pre] exI [of _ v] exI [of _ post]) (auto simp: vs)
qed

theorem update_error_prefix_witness:
  "\<exists>pre v post. [''v1'', ''v2''] = pre @ v # post
    \<and> (\<forall>u n. u \<notin> set (pre @ [v]) \<longrightarrow>
         ReadFile exampleStorage (snd (updateRootCAFiles exampleStorage exampleManager (\<lambda>_. [9])
           (exampleVolumes\<lparr>vol_ids := [''v1'', ''v2'']\<rparr>))) u n
         = ReadFile exampleStorage exampleVolumes u n)"
proof -
  let ?s = "exampleVolumes\<lparr>vol_ids := [''v1'', ''v2'']\<rparr>"
  have ls: "ListVolumes exampleStorage ?s = Inr [''v1'', ''v2'']"
    by (simp add: exampleVolumes_simps)
  obtain err s' where
    s': "updateRootCAFiles exampleStorage exampleManager (\<lambda>_. [9]) ?s = (Some err, s')"
    by (simp add: updateRootCAFiles_def updateVolume_def exampleVolumes_simps)
  have "ReadFile exampleStorage ?s = ReadFile exampleStorage exampleVolumes"
    by (simp add: exampleVolumes_simps)
  with update_error_prefix [OF exampleStorage_ok exampleManager_ok ls s'] s' show ?thesis
    by (metis snd_conv)
qed

text \<open>C14: While the context lives, no change of the bundle is lost in \<open>run\<close>, whatever the
  interleaving of changes, updates, failures and retries: either the last successful update
  wrote the current version, or an update of the current version is running, or a notification,
  a message in \<open>updateChan\<close> or a retry goroutine is still on its way. \<open>updateChan\<close> never holds more
  than one message.\<close>

theorem run_no_lost_update:
  assumes "run_reachable burst c r" and "cam_rootCAs c" and "\<not> r_cancelled r"
  shows "(r_synced r = r_version r \<or> r_pc r = Updating (r_version r) \<or> 0 < tokens r)
    \<and> r_chan r \<le> 1 \<and> r_pc r \<noteq> Returned"
  using run_inv_reachable [OF assms(1,2)] assms(3) by (auto simp: run_inv_def)

theorem run_no_lost_update_witness:
  "\<exists>r. run_reachable True exampleManager r \<and> r_synced r \<noteq> r_version r
     \<and> (r_pc r = Updating (r_version r) \<or> 0 < tokens r)"
  using reach_stuck [OF exampleManager_ok(2)]
    run_no_lost_update [OF reach_stuck [OF exampleManager_ok(2)] exampleManager_ok(2)]
  by (intro exI [of _ "\<lparr>r_pc = Sending, r_watcher = 0, r_chan = 1, r_timers = 0, r_retries = 0,
     r_cancelled = False, r_version = 2, r_synced = 0\<rparr>"]) simp

text \<open>From every reachable state in which the goroutine is not blocked on its own channel and
  the context lives, the loop can reach a state in which the current bundle is written.\<close>

lemma run_can_catch_up:
  assumes "run_reachable burst c r" and "cam_rootCAs c" and "\<not> r_cancelled r"
    and "\<not> (r_pc r = Sending \<and> r_chan r = 1)"
  shows "\<exists>r'. (run_step burst)\<^sup>*\<^sup>* r r' \<and> r_pc r' = Select \<and> r_synced r' = r_version r'"
  using catch_up [OF run_inv_reachable [OF assms(1,2)] assms(3), of burst] assms(4)
  by (auto simp: stuck_def caughtUp_def)

text \<open>C27: The loop settles, whatever the order of its steps. Until the next change of the bundle the
  goroutines of \<open>run\<close> take at most five steps per notification or waiting retry, four per retry that
  sends, three for a message in \<open>updateChan\<close>, five for each update that fails, and six for the rest, a
  cancellation included. In a reachable state in which nothing but a change or a cancellation is left
  to happen, either the loop blocks on its own channel (as \<open>run_deadlock\<close> shows it may), or the context
  is cancelled and \<open>run\<close> has returned, or the loop waits at its \<open>select\<close> with nothing on its way and
  the current bundle written.\<close>

theorem run_settles:
  assumes "run_reachable True c r" and "cam_rootCAs c" and "settling r n m r'"
  shows "n \<le> 5 * (r_watcher r + r_timers r) + 4 * r_retries r + 3 * r_chan r + 5 * m + 6
    \<and> (at_rest r' \<longrightarrow>
         (r_pc r' = Sending \<and> r_chan r' = 1)
         \<or> (r_cancelled r' \<and> r_pc r' = Returned)
         \<or> (\<not> r_cancelled r' \<and> r_pc r' = Select \<and> tokens r' = 0 \<and> r_synced r' = r_version r'))"
proof
  have "workLeft r \<le> 5 * (r_watcher r + r_timers r) + 4 * r_retries r + 3 * r_chan r + 6"
    by (simp add: workLeft_def split: pc.split)
  with settling_bound [OF assms(3)]
  show "n \<le> 5 * (r_watcher r + r_timers r) + 4 * r_retries r + 3 * r_chan r + 5 * m + 6" by linarith
  have "run_inv r'"
    using run_inv_reachable [OF settling_reachable [OF assms(3,1)] assms(2)] .
  from at_rest_cases [OF this]
  show "at_rest r' \<longrightarrow> (r_pc r' = Sending \<and> r_chan r' = 1) \<or> (r_cancelled r' \<and> r_pc r' = Returned)
    \<or> (\<not> r_cancelled r' \<and> r_pc r' = Select \<and> tokens r' = 0 \<and> r_synced r' = r_version r')"
    by (auto simp: stuck_def split: if_splits)
qed

theorem run_settles_witness:
  "\<exists>r r'. run_reachable True exampleManager r \<and> r_synced r < r_version r \<and> settling r 8 1 r'
     \<and> at_rest r' \<and> r_synced r' = r_version r'"
proof -
  let ?r = "\<lparr>r_pc = Select, r_watcher = 1, r_chan = 0, r_timers = 0, r_retries = 0,
    r_cancelled = False, r_version = 1, r_synced = 0\<rparr>"
  let ?r' = "\<lparr>r_pc = Select, r_watcher = 0, r_chan = 0, r_timers = 0, r_retries = 0,
    r_cancelled = False, r_version = 1, r_synced = 1\<rparr>"
  have r: "run_reachable True exampleManager ?r"
    using run_reachable.step [OF run_reachable.start change [of True "run_init exampleManager"]]
      exampleManager_ok(2) by (simp add: run_init_def)
  have rest: "at_rest ?r'" by (auto simp: at_rest_def elim!: run_stepE)
  with run_settles [OF r exampleManager_ok(2) example_settling(2)] have "r_synced ?r' = r_version ?r'" by simp
  with r rest example_settling(2) show ?thesis by (intro exI [of _ ?r] exI [of _ ?r']) simp
qed

text \<open>C15: \<open>run\<close> can block for ever on its own channel. Two changes of the bundle before the first is
  handled are enough: the goroutine takes the second notification while \<open>updateChan\<close> is full, and
  as it is the only receiver of \<open>updateChan\<close>, it neither writes a bundle nor returns any more,
  cancelled or not. The state holds a change that is never distributed.\<close>

theorem run_deadlock:
  assumes "cam_rootCAs c"
  shows "\<exists>r. run_reachable True c r \<and> r_synced r < r_version r
    \<and> (\<forall>r'. (run_step True)\<^sup>*\<^sup>* r r' \<longrightarrow> r_pc r' = Sending \<and> r_synced r' = r_synced r)"
  using reach_stuck [OF assms] stuck_steps [of True]
  by (intro exI [of _ "\<lparr>r_pc = Sending, r_watcher = 0, r_chan = 1, r_timers = 0, r_retries = 0,
     r_cancelled = False, r_version = 2, r_synced = 0\<rparr>"]) (auto simp: stuck_def)

theorem run_deadlock_witness:
  "\<exists>r. run_reachable True exampleManager r \<and> r_synced r < r_version r
     \<and> (\<forall>r'. (run_step True)\<^sup>*\<^sup>* r r' \<longrightarrow> r_pc r' \<noteq> Returned)"
  using run_deadlock [OF exampleManager_ok(2)] by (metis pc.distinct(9))

text \<open>C39: When the bundle changes only while no earlier change is on its way, the loop never
  blocks on its own channel, and once cancelled it can always return.\<close>

theorem calm_run_never_blocks:
  assumes "run_reachable False c r" and "cam_rootCAs c"
  shows "\<not> (r_pc r = Sending \<and> r_chan r = 1)
    \<and> (r_cancelled r \<longrightarrow> (\<exists>r'. (run_step False)\<^sup>*\<^sup>* r r' \<and> r_pc r' = Returned))"
proof -
  have "\<not> stuck r"
    using calm_reachable [OF assms(1)] by (auto simp: calm_inv_def tokens_def stuck_def)
  then show ?thesis
    using can_return [OF run_inv_reachable [OF assms], of False] by (simp add: stuck_def)
qed

theorem calm_run_never_blocks_witness:
  "\<exists>r'. (run_step False)\<^sup>*\<^sup>* ((run_init exampleManager)\<lparr>r_cancelled := True\<rparr>) r' \<and> r_pc r' = Returned"
  using calm_run_never_blocks [OF run_reachable.step [OF run_reachable.start cancel] exampleManager_ok(2)]
  by simp

end
