(* ===== verification/GoPEM.thy ===== *)
theory GoPEM
  imports Prelude
begin

text \<open>
  What the driver uses of Go's packages \<open>encoding/base64\<close> and \<open>encoding/pem\<close> to write: the
  standard base64 encoding, the breaking of lines after 64 characters, and
  \<open>pem.EncodeToMemory\<close> for a block without headers. \<open>base64Decode\<close> and \<open>readPEM\<close> are reference
  readers in the sense of RFC 4648 and RFC 7468; the encoders are proved to be inverted by
  them. \<open>pem.Decode\<close>, which tolerates more, is a parameter of the driver.
\<close>

section \<open>base64\<close>

definition text_bytes :: "string \<Rightarrow> bytes" where
  "text_bytes s = map of_char s"

definition encodeStd :: bytes where
  "encodeStd = map of_nat ([65..<91] @ [97..<123] @ [48..<58] @ [43, 47])"  \<comment> \<open>\<open>A-Za-z0-9+/\<close>\<close>

definition sextet :: "nat \<Rightarrow> byte" where
  "sextet n = encodeStd ! (n mod 64)"

abbreviation padChar :: byte where
  "padChar \<equiv> 61"

fun base64 :: "bytes \<Rightarrow> bytes" where
  "base64 [] = []"
| "base64 [a] =
     [sextet (unat a div 4), sextet (unat a mod 4 * 16), padChar, padChar]"
| "base64 [a, b] =
     [sextet (unat a div 4), sextet (unat a mod 4 * 16 + unat b div 16),
      sextet (unat b mod 16 * 4), padChar]"
| "base64 (a # b # c # cs) =
     sextet (unat a div 4) # sextet (unat a mod 4 * 16 + unat b div 16)
     # sextet (unat b mod 16 * 4 + unat c div 64) # sextet (unat c mod 64) # base64 cs"

text \<open>The reader: the value of a character, and groups of four characters.\<close>

definition sextetValue :: "byte \<Rightarrow> nat option" where
  "sextetValue c =
     (let n = unat c in
      if 65 \<le> n \<and> n \<le> 90 then Some (n - 65)
      else if 97 \<le> n \<and> n \<le> 122 then Some (n - 71)
      else if 48 \<le> n \<and> n \<le> 57 then Some (n + 4)
      else if n = 43 then Some 62
      else if n = 47 then Some 63
      else None)"

fun base64Decode :: "bytes \<Rightarrow> bytes option" where
  "base64Decode [] = Some []"
| "base64Decode (w # x # y # z # cs) =
     (case (sextetValue w, sextetValue x) of
        (Some p, Some q) \<Rightarrow>
          if y = padChar \<and> z = padChar \<and> cs = [] then Some [of_nat (p * 4 + q div 16)]
          else (case sextetValue y of
            None \<Rightarrow> None
          | Some r \<Rightarrow>
              if z = padChar \<and> cs = []
              then Some [of_nat (p * 4 + q div 16), of_nat (q mod 16 * 16 + r div 4)]
              else (case (sextetValue z, base64Decode cs) of
                (Some s, Some bs) \<Rightarrow>
                  Some (of_nat (p * 4 + q div 16) # of_nat (q mod 16 * 16 + r div 4)
                        # of_nat (r mod 4 * 64 + s) # bs)
              | _ \<Rightarrow> None))
      | _ \<Rightarrow> None)"
| "base64Decode _ = None"

section \<open>PEM\<close>

abbreviation newline :: byte where
  "newline \<equiv> 10"

text \<open>\<open>lineBreaker\<close> with \<open>pemLineLength\<close> 64: full lines, then the rest, each with a newline.\<close>

function breakLines :: "bytes \<Rightarrow> bytes" where
  "breakLines bs =
     (if length bs < 64 then (if bs = [] then [] else bs @ [newline])
      else take 64 bs @ newline # breakLines (drop 64 bs))"
  by pat_completeness auto

termination breakLines
  by (relation "measure length") auto

declare breakLines.simps [simp del]

definition EncodeToMemory :: "string \<Rightarrow> bytes \<Rightarrow> bytes" where
  "EncodeToMemory type bs =
     text_bytes (''-----BEGIN '' @ type @ ''-----'') @ newline # breakLines (base64 bs)
     @ text_bytes (''-----END '' @ type @ ''-----'') @ [newline]"

text \<open>The reader of one block of a known type: its content and what follows.\<close>

definition readPEM :: "string \<Rightarrow> bytes \<Rightarrow> (bytes \<times> bytes) option" where
  "readPEM type text =
     (let beginLine = text_bytes (''-----BEGIN '' @ type @ ''-----'') @ [newline];
          endLine = text_bytes (''-----END '' @ type @ ''-----'') @ [newline];
          body = takeWhile (\<lambda>c. c \<noteq> 45) (drop (length beginLine) text);
          tail = dropWhile (\<lambda>c. c \<noteq> 45) (drop (length beginLine) text) in
      if take (length beginLine) text = beginLine \<and> take (length endLine) tail = endLine
      then map_option (\<lambda>bs. (bs, drop (length endLine) tail))
             (base64Decode (filter (\<lambda>c. c \<noteq> newline) body))
      else None)"

section \<open>Lemmas\<close>

definition sextetCode :: "nat \<Rightarrow> nat" where
  "sextetCode n = (if n < 26 then n + 65 else if n < 52 then n + 71 else if n < 62 then n - 4
                   else if n = 62 then 43 else 47)"

lemma sextetCode_less: "n < 64 \<Longrightarrow> sextetCode n < 256"
  by (auto simp: sextetCode_def)

lemma sextet_code:
  assumes "n < 64"
  shows "sextet n = of_nat (sextetCode n)"
proof -
  have "([65..<91] @ [97..<123] @ [48..<58] @ [43, 47]) ! n = sextetCode n"
    using assms by (auto simp: nth_append sextetCode_def nth_Cons' simp del: upt_rec_numeral)
  then show ?thesis
    using assms by (simp add: sextet_def encodeStd_def nth_map del: upt_rec_numeral map_append)
qed

lemma sextet_unat: "n < 64 \<Longrightarrow> unat (sextet n) = sextetCode n"
  by (simp add: sextet_code sextetCode_less)

lemma sextetValue_sextet [simp]: "n < 64 \<Longrightarrow> sextetValue (sextet n) = Some n"
  by (auto simp: sextetValue_def sextet_unat sextetCode_def Let_def)

lemma sextet_noteq:
  assumes "n < 64"
  shows "sextet n \<noteq> padChar" "sextet n \<noteq> newline" "sextet n \<noteq> 45"
  using sextet_unat [OF assms] by (auto simp: sextetCode_def split: if_splits)

lemma byte_unat_less: "unat (b :: byte) < 256"
  using unsigned_less [of b, where 'a = nat] by simp

lemma sextet_bounds [simp]:
  fixes a b c :: byte
  shows "unat a div 4 < 64" and "unat a mod 4 * 16 < 64" and "unat a mod 4 * 16 + unat b div 16 < 64"
    and "unat b mod 16 * 4 < 64" and "unat b mod 16 * 4 + unat c div 64 < 64"
proof -
  have "unat a div 4 < 64" "unat b div 16 < 16" "unat c div 64 < 4" "unat a mod 4 < 4" "unat b mod 16 < 16"
    using byte_unat_less [of a] byte_unat_less [of b] byte_unat_less [of c] by auto
  then show "unat a div 4 < 64" "unat a mod 4 * 16 < 64" "unat a mod 4 * 16 + unat b div 16 < 64"
    "unat b mod 16 * 4 < 64" "unat b mod 16 * 4 + unat c div 64 < 64" by linarith+
qed

text \<open>The high bits of a byte that a sextet carries.\<close>

lemma byte_high_bits [simp]:
  "unat (b :: byte) div 16 div 16 = 0" "unat (b :: byte) div 16 mod 16 = unat b div 16"
  "unat (b :: byte) div 64 div 4 = 0" "unat (b :: byte) div 64 mod 4 = unat b div 64"
proof -
  have "unat b div 16 < 16" "unat b div 64 < 4" using byte_unat_less [of b] by auto
  then show "unat (b :: byte) div 16 div 16 = 0" "unat (b :: byte) div 16 mod 16 = unat b div 16"
    "unat (b :: byte) div 64 div 4 = 0" "unat (b :: byte) div 64 mod 4 = unat b div 64" by simp_all
qed

lemma base64Decode_base64: "base64Decode (base64 bs) = Some bs"
  by (induction bs rule: base64.induct)
    (simp_all add: sextet_noteq del: of_nat_add of_nat_mult)

lemma base64_chars: "c \<in> set (base64 bs) \<Longrightarrow> c \<noteq> newline \<and> c \<noteq> 45"
  by (induction bs rule: base64.induct) (auto simp: sextet_noteq)

lemma breakLines_filter:
  "(\<forall>c \<in> set bs. c \<noteq> newline) \<Longrightarrow> filter (\<lambda>c. c \<noteq> newline) (breakLines bs) = bs"
proof (induction bs rule: breakLines.induct)
  case (1 bs)
  have "filter (\<lambda>c. c \<noteq> newline) bs = bs"
    "filter (\<lambda>c. c \<noteq> newline) (take 64 bs) = take 64 bs"
    using "1.prems" by (auto simp: filter_id_conv dest: in_set_takeD)
  moreover have "\<forall>c \<in> set (drop 64 bs). c \<noteq> newline"
    using "1.prems" by (auto dest: in_set_dropD)
  ultimately show ?case
    using "1.IH" by (subst breakLines.simps) auto
qed

lemma breakLines_set: "set (breakLines bs) \<subseteq> insert newline (set bs)"
proof (induction bs rule: breakLines.induct)
  case (1 bs)
  then show ?case
    by (subst breakLines.simps) (auto dest: in_set_takeD in_set_dropD)
qed

lemma takeWhile_until:
  "x \<notin> set xs \<Longrightarrow> takeWhile (\<lambda>c. c \<noteq> x) (xs @ x # ys) = xs \<and> dropWhile (\<lambda>c. c \<noteq> x) (xs @ x # ys) = x # ys"
  by (induction xs) auto

text \<open>A block that was encoded, with anything after it, reads back.\<close>

lemma readPEM_EncodeToMemory: "readPEM type (EncodeToMemory type bs @ rest) = Some (bs, rest)"
proof -
  let ?header = "text_bytes (''-----BEGIN '' @ type @ ''-----'') @ [newline]"
  let ?trailer = "text_bytes (''-----END '' @ type @ ''-----'') @ [newline]"
  let ?body = "breakLines (base64 bs)"
  obtain e where e: "?trailer = 45 # e" by (simp add: text_bytes_def)
  have eq: "EncodeToMemory type bs @ rest = ?header @ ?body @ ?trailer @ rest"
    by (simp add: EncodeToMemory_def)
  have "45 \<notin> set ?body"
    using breakLines_set [of "base64 bs"] base64_chars [of 45 bs] by auto
  then have "takeWhile (\<lambda>c. c \<noteq> 45) (?body @ ?trailer @ rest) = ?body"
    "dropWhile (\<lambda>c. c \<noteq> 45) (?body @ ?trailer @ rest) = ?trailer @ rest"
    using takeWhile_until [of 45 ?body "e @ rest"] unfolding e by simp_all
  moreover have "filter (\<lambda>c. c \<noteq> newline) ?body = base64 bs"
    using base64_chars by (intro breakLines_filter) blast
  ultimately show ?thesis
    unfolding readPEM_def eq Let_def by (simp add: base64Decode_base64)
qed

end
