(* ===== verification/Driver.thy ===== *)
theory Driver
  imports CAManager RuntimeConfig GoURL GoPEM
begin

text \<open>
  \<open>internal/csi/driver/driver.go\<close> and \<open>util.go\<close>: the construction of the driver, the request
  it generates for a mounting pod (\<open>generateRequest\<close>), the CSR it signs (\<open>signRequest\<close>), the
  files it writes (\<open>writeKeypair\<close>), the time of the next issuance, the custom annotations, and
  \<open>Run\<close> with the CA manager inside. Tokens, keys and certificates and the reading of PEM are handled
  by other packages: the record \<open>driver_deps\<close>, over types \<open>'j\<close> of parsed tokens and \<open>'k\<close> of
  private keys.
\<close>

section \<open>Definitions\<close>

datatype SignatureAlgorithm = RS256 | RS384 | RS512 | ES256 | ES384 | ES512 | PS256 | PS384 | PS512

definition validSigningAlgs :: "SignatureAlgorithm list" where
  "validSigningAlgs = [RS256, RS384, RS512, ES256, ES384, ES512, PS256, PS384, PS512]"

text \<open>The claims \<open>kubernetes.io.namespace\<close> and \<open>kubernetes.io.serviceaccount.name\<close>.\<close>

record claims =
  claims_Namespace :: string
  claims_ServiceAccountName :: string

record Certificate =
  crt_NotBefore :: int  \<comment> \<open>nanoseconds\<close>
  crt_NotAfter :: int

record ('j, 'k) driver_deps =
  EmptyAudienceTokenFromMetadata :: "Metadata \<Rightarrow> goerr + string"
  ParseSigned :: "string \<Rightarrow> SignatureAlgorithm list \<Rightarrow> goerr + 'j"
  UnsafeClaimsWithoutVerification :: "'j \<Rightarrow> goerr + claims"
  parseSpecialHost :: "string \<Rightarrow> goerr + string"
  GenerateKey :: "goerr + 'k"
  MarshalPKCS8PrivateKey :: "'k \<Rightarrow> goerr + bytes"
  pem_Decode :: "bytes \<Rightarrow> bytes option"
  ParseCertificate :: "bytes \<Rightarrow> goerr + Certificate"
  MarshalSubject :: "Name \<Rightarrow> goerr + bytes"
  IsASN1SubjectEmpty :: "bytes \<Rightarrow> bool"
  MarshalSANs :: "string list \<Rightarrow> bool \<Rightarrow> goerr + Extension"
  CreateCertificateRequest :: "X509CSR \<Rightarrow> 'k \<Rightarrow> goerr + bytes"

subsection \<open>Construction\<close>

text \<open>
  The custom annotations are a Go map: a list with distinct keys, in the order of the iteration.
  The client configuration \<open>RestConfig\<close> is left out: it is only handed to other packages.
\<close>

record DriverOptions =
  o_DriverName :: string
  o_NodeID :: string
  o_DataRoot :: string
  o_Endpoint :: string
  o_TrustDomain :: string
  o_CertificateRequestAnnotations :: "(string \<times> string) list"
  o_CertificateRequestDuration :: int
  o_CertificateFileName :: string
  o_KeyFileName :: string
  o_CAFileName :: string
  o_RootCAs :: bool  \<comment> \<open>\<open>RootCAs\<close> is not \<open>nil\<close>\<close>
  o_RuntimeConfig :: rtConfig
  o_UseOwnServiceAccount :: bool

record Driver =
  d_trustDomain :: string
  d_certificateRequestAnnotations :: "string \<rightharpoonup> string"
  d_certificateRequestDuration :: int
  d_certFileName :: string
  d_keyFileName :: string
  d_caFileName :: string
  d_rootCAs :: bool
  d_runtimeConfig :: rtConfig
  d_camanager :: camanager
  d_clientForMetadata :: bool  \<comment> \<open>requests are created with the token of the pod\<close>

fun sanitizeLoop ::
    "(string \<times> string) list \<Rightarrow> (string \<rightharpoonup> string) \<Rightarrow> goerr list \<Rightarrow> (string \<rightharpoonup> string) \<times> goerr list" where
  "sanitizeLoop [] out errs = (out, errs)"
| "sanitizeLoop ((key, value) # kvs) out errs =
     (if HasPrefix key annotations_Prefix
      then sanitizeLoop kvs out (errs @
             [Errorf ''custom annotation %q was not valid; must not begin with %s''
                [VStr key, VStr annotations_Prefix]])
      else sanitizeLoop kvs (out(key \<mapsto> value)) errs)"

definition sanitizeAnnotations ::
    "(string \<times> string) list \<Rightarrow> (string \<rightharpoonup> string) \<times> goerr option" where
  "sanitizeAnnotations kvs = (let (out, errs) = sanitizeLoop kvs Map.empty [] in (out, errors_Join errs))"

text \<open>
  The results of \<open>NewFilesystem\<close>, \<open>NewForConfig\<close> and \<open>driver.New\<close> are arguments.
  \<open>manager.NewManagerOrDie\<close>, which ends the process on incomplete options, is taken to return. The
  error of \<open>sanitizeAnnotations\<close> is logged.
\<close>

definition driver_New ::
    "DriverOptions \<Rightarrow> goerr option \<Rightarrow> goerr option \<Rightarrow> goerr option \<Rightarrow> goerr + Driver" where
  "driver_New opts fsErr clientErr driverErr =
     (let (sanitized, err) = sanitizeAnnotations (o_CertificateRequestAnnotations opts);
          d = \<lparr>d_trustDomain = o_TrustDomain opts,
               d_certificateRequestAnnotations = sanitized,
               d_certificateRequestDuration = o_CertificateRequestDuration opts,
               d_certFileName = o_CertificateFileName opts,
               d_keyFileName = o_KeyFileName opts,
               d_caFileName = [],
               d_rootCAs = o_RootCAs opts,
               d_runtimeConfig = o_RuntimeConfig opts,
               d_camanager = newCAManager False [] [] [],
               d_clientForMetadata = False\<rparr>;
          d = (if d_certFileName d = [] then d\<lparr>d_certFileName := ''tls.crt''\<rparr> else d);
          d = (if d_keyFileName d = [] then d\<lparr>d_keyFileName := ''tls.key''\<rparr> else d);
          d = (if d_caFileName d = [] then d\<lparr>d_caFileName := ''ca.crt''\<rparr> else d);
          d = (if d_certificateRequestDuration d = 0
               then d\<lparr>d_certificateRequestDuration := 3600000000000\<rparr> else d) in
      case fsErr of
        Some e \<Rightarrow> Inl (Wrapf ''failed to setup filesystem: %w'' [] e)
      | None \<Rightarrow>
          let d = d\<lparr>d_camanager := newCAManager (o_RootCAs opts) (o_CertificateFileName opts)
                      (o_KeyFileName opts) (o_CAFileName opts)\<rparr> in
          case clientErr of
            Some e \<Rightarrow> Inl (Wrapf ''failed to build cert-manager client: %w'' [] e)
          | None \<Rightarrow>
              let d = (if \<not> o_UseOwnServiceAccount opts then d\<lparr>d_clientForMetadata := True\<rparr> else d) in
              case driverErr of
                Some e \<Rightarrow> Inl (Wrapf ''failed to setup csi driver: %w'' [] e)
              | None \<Rightarrow> Inr d)"

subsection \<open>The request\<close>

record CertificateRequestBundle =
  b_Request :: X509CSR
  b_IsCA :: bool
  b_Namespace :: string
  b_Duration :: int
  b_Usages :: "KeyUsage list"
  b_IssuerRef :: IssuerReference
  b_Annotations :: "string \<rightharpoonup> string"

definition driverSpiffeID :: "Driver \<Rightarrow> string \<Rightarrow> string \<Rightarrow> string" where
  "driverSpiffeID d ns sa = ''spiffe://'' @ d_trustDomain d @ ''/ns/'' @ ns @ ''/sa/'' @ sa"

definition generateRequest ::
    "('j, 'k) driver_deps \<Rightarrow> Driver \<Rightarrow> Metadata \<Rightarrow> goerr + CertificateRequestBundle" where
  "generateRequest x d meta =
     (let cfg = rt_Config (d_runtimeConfig d) in
      if ir_Name (cfg_IssuerRef cfg) = []
      then Inl (Errorf ''no issuerRef is currently active for csi-driver-spiffe; configure one using runtime configuration'' [])
      else case EmptyAudienceTokenFromMetadata x meta of
        Inl err \<Rightarrow> Inl err
      | Inr token \<Rightarrow>
      case ParseSigned x token validSigningAlgs of
        Inl err \<Rightarrow> Inl (Wrapf ''failed to parse token request token: %w'' [] err)
      | Inr jwttoken \<Rightarrow>
      case UnsafeClaimsWithoutVerification x jwttoken of
        Inl err \<Rightarrow> Inl (Wrapf ''failed to decode token request token: %w'' [] err)
      | Inr cs \<Rightarrow>
      let saName = claims_ServiceAccountName cs; saNamespace = claims_Namespace cs in
      if saName = [] \<or> saNamespace = []
      then Inl (Errorf ''missing namespace or serviceaccount name in request token: %v''
                  [VStr saNamespace, VStr saName])
      else let spiffeID = driverSpiffeID d saNamespace saName in
      case url_Parse (parseSpecialHost x) spiffeID of
        Inl err \<Rightarrow> Inl (Wrapf ''internal error crafting X.509 URI, this is a bug, please report on GitHub: %w'' [] err)
      | Inr uri \<Rightarrow>
          Inr \<lparr>b_Request = emptyCSR\<lparr>csr_URIs := [uri]\<rparr>, b_IsCA = False, b_Namespace = saNamespace,
               b_Duration = d_certificateRequestDuration d,
               b_Usages = [UsageDigitalSignature, UsageKeyEncipherment, UsageServerAuth, UsageClientAuth],
               b_IssuerRef = cfg_IssuerRef cfg,
               b_Annotations = [SPIFFEIdentityAnnnotationKey \<mapsto> spiffeID]
                                 ++ d_certificateRequestAnnotations d\<rparr>)"

subsection \<open>util.go\<close>

definition generatePrivateKey :: "('j, 'k) driver_deps \<Rightarrow> Metadata \<Rightarrow> goerr + 'k" where
  "generatePrivateKey x meta = GenerateKey x"

text \<open>The request \<open>signRequest\<close> gives to \<open>x509.CreateCertificateRequest\<close>.\<close>

definition prepareRequest :: "('j, 'k) driver_deps \<Rightarrow> X509CSR \<Rightarrow> goerr + X509CSR" where
  "prepareRequest x request =
     (case MarshalSubject x (csr_Subject request) of
        Inl err \<Rightarrow> Inl err
      | Inr asn1Subject \<Rightarrow>
          if 0 < length (csr_URIs request) \<and> IsASN1SubjectEmpty x asn1Subject
          then (case MarshalSANs x (map url_String (csr_URIs request)) False of
                  Inl err \<Rightarrow> Inl err
                | Inr sanExt \<Rightarrow>
                    Inr (request\<lparr>csr_ExtraExtensions := csr_ExtraExtensions request @ [sanExt],
                                 csr_URIs := []\<rparr>))
          else Inr request)"

definition signRequest ::
    "('j, 'k) driver_deps \<Rightarrow> Metadata \<Rightarrow> 'k \<Rightarrow> X509CSR \<Rightarrow> goerr + bytes" where
  "signRequest x meta key request =
     (case prepareRequest x request of
        Inl err \<Rightarrow> Inl err
      | Inr request \<Rightarrow>
          (case CreateCertificateRequest x request key of
             Inl err \<Rightarrow> Inl err
           | Inr csrDer \<Rightarrow> Inr (EncodeToMemory ''CERTIFICATE REQUEST'' csrDer)))"

text \<open>
  Times are nanoseconds without bound; a \<open>time.Duration\<close> has 64 bits: \<open>Sub\<close> saturates, and the
  division of integers truncates towards zero.
\<close>

definition time_Sub :: "int \<Rightarrow> int \<Rightarrow> int" where
  "time_Sub t u = max (- (2 ^ 63)) (min (2 ^ 63 - 1) (t - u))"

definition quot :: "int \<Rightarrow> int \<Rightarrow> int" where
  "quot a b = (if 0 \<le> a then a div b else - ((- a) div b))"

definition calculateNextIssuanceTime :: "('j, 'k) driver_deps \<Rightarrow> bytes \<Rightarrow> int outcome" where
  "calculateNextIssuanceTime x chain =
     (case pem_Decode x chain of
        None \<Rightarrow> Panic  \<comment> \<open>\<open>block\<close> is \<open>nil\<close>\<close>
      | Some blockBytes \<Rightarrow>
          case ParseCertificate x blockBytes of
            Inl err \<Rightarrow> Fail (Wrapf ''parsing issued certificate: %w'' [] err)
          | Inr crt \<Rightarrow>
              let actualDuration = time_Sub (crt_NotAfter crt) (crt_NotBefore crt);
                  renewBeforeNotAfter = quot actualDuration 3 in
              Ok (crt_NotAfter crt + (- renewBeforeNotAfter)))"

subsection \<open>The files of a volume\<close>

text \<open>\<open>pem\<close>: what \<open>rootCAs.CertificatesPEM()\<close> returns.\<close>

definition keypairFiles :: "Driver \<Rightarrow> bytes \<Rightarrow> bytes \<Rightarrow> bytes \<Rightarrow> string \<rightharpoonup> bytes" where
  "keypairFiles d pem chain keyPEM =
     (let data = [d_certFileName d \<mapsto> chain, d_keyFileName d \<mapsto> keyPEM] in
      if d_rootCAs d then data(d_caFileName d \<mapsto> pem) else data)"

definition writeKeypair ::
    "('j, 'k) driver_deps \<Rightarrow> 's storage \<Rightarrow> Driver \<Rightarrow> bytes \<Rightarrow> Metadata \<Rightarrow> 'k \<Rightarrow> bytes \<Rightarrow> 's \<Rightarrow>
     unit outcome \<times> 's" where
  "writeKeypair x st d pem meta key chain s =
     (case MarshalPKCS8PrivateKey x key of
        Inl err \<Rightarrow> (Fail (Wrapf ''failed to marshal ECDSA private key for PEM encoding: %w'' [] err), s)
      | Inr pemBytes \<Rightarrow>
      let keyPEM = EncodeToMemory ''PRIVATE KEY'' pemBytes in
      case calculateNextIssuanceTime x chain of
        Panic \<Rightarrow> (Panic, s)
      | Fail err \<Rightarrow> (Fail (Wrapf ''failed to calculate next issuance time: %w'' [] err), s)
      | Ok nextIssuanceTime \<Rightarrow>
      case WriteFiles st meta (keypairFiles d pem chain keyPEM) s of
        (Some err, s1) \<Rightarrow> (Fail (Wrapf ''writing data: %w'' [] err), s1)
      | (None, s1) \<Rightarrow>
          let meta = meta\<lparr>md_NextIssuanceTime := Some nextIssuanceTime\<rparr> in
          case WriteMetadata st (md_VolumeID meta) meta s1 of
            (Some err, s2) \<Rightarrow> (Fail (Wrapf ''writing metadata: %w'' [] err), s2)
          | (None, s2) \<Rightarrow> (Ok (), s2))"

subsection \<open>Run\<close>

text \<open>
  The goroutines of \<open>Run\<close>: the CA manager, the csi-lib driver (\<open>dr_result\<close>, the error it
  returned with) and the one that stops it when the context ends. \<open>Run\<close> returns when the first
  two are done.
\<close>

record driver_run =
  dr_ca :: run_state
  dr_stopped :: bool
  dr_result :: "goerr option option"

inductive driver_run_step :: "driver_run \<Rightarrow> driver_run \<Rightarrow> bool" where
  ca: "run_step True (dr_ca r) ca' \<Longrightarrow> driver_run_step r (r\<lparr>dr_ca := ca'\<rparr>)"
| driverStop: "r_cancelled (dr_ca r) \<Longrightarrow> driver_run_step r (r\<lparr>dr_stopped := True\<rparr>)"
| driverReturn: "dr_result r = None \<Longrightarrow> driver_run_step r (r\<lparr>dr_result := Some e\<rparr>)"

definition driver_run_init :: "Driver \<Rightarrow> driver_run" where
  "driver_run_init d = \<lparr>dr_ca = run_init (d_camanager d), dr_stopped = False, dr_result = None\<rparr>"

definition driver_run_returned :: "driver_run \<Rightarrow> bool" where
  "driver_run_returned r \<longleftrightarrow> r_pc (dr_ca r) = Returned \<and> dr_result r \<noteq> None"

section \<open>Lemmas\<close>

lemma sanitizeLoop_spec:
  "distinct (map fst kvs) \<Longrightarrow>
   sanitizeLoop kvs out errs =
     ((\<lambda>k. if HasPrefix k annotations_Prefix then out k
          else case map_of kvs k of None \<Rightarrow> out k | Some v \<Rightarrow> Some v),
      errs @ map (\<lambda>(k, v). Errorf ''custom annotation %q was not valid; must not begin with %s''
                    [VStr k, VStr annotations_Prefix])
               (filter (\<lambda>(k, v). HasPrefix k annotations_Prefix) kvs))"
proof (induction kvs arbitrary: out errs)
  case (Cons kv kvs)
  obtain k v where kv: "kv = (k, v)" by (cases kv)
  have "map_of kvs k = None" using Cons.prems by (simp add: kv map_of_eq_None_iff)
  with Cons show ?case by (auto simp: kv fun_eq_iff split: option.splits)
qed (simp add: fun_eq_iff)

lemma sanitizeAnnotations_map:
  "distinct (map fst kvs) \<Longrightarrow>
   fst (sanitizeAnnotations kvs) =
     (\<lambda>k. if HasPrefix k annotations_Prefix then None else map_of kvs k)"
  by (simp add: sanitizeAnnotations_def sanitizeLoop_spec fun_eq_iff split: option.splits)

lemma driver_New_Inr:
  "driver_New opts fsErr clientErr driverErr = Inr d \<longleftrightarrow>
     fsErr = None \<and> clientErr = None \<and> driverErr = None
     \<and> d = \<lparr>d_trustDomain = o_TrustDomain opts,
            d_certificateRequestAnnotations = fst (sanitizeAnnotations (o_CertificateRequestAnnotations opts)),
            d_certificateRequestDuration = (if o_CertificateRequestDuration opts = 0 then 3600000000000
                                            else o_CertificateRequestDuration opts),
            d_certFileName = (if o_CertificateFileName opts = [] then ''tls.crt'' else o_CertificateFileName opts),
            d_keyFileName = (if o_KeyFileName opts = [] then ''tls.key'' else o_KeyFileName opts),
            d_caFileName = ''ca.crt'', d_rootCAs = o_RootCAs opts, d_runtimeConfig = o_RuntimeConfig opts,
            d_camanager = newCAManager (o_RootCAs opts) (o_CertificateFileName opts)
                            (o_KeyFileName opts) (o_CAFileName opts),
            d_clientForMetadata = (\<not> o_UseOwnServiceAccount opts)\<rparr>"
  by (auto simp: driver_New_def Let_def split: option.split prod.split)

lemma driver_New_names:
  assumes "driver_New opts fsErr clientErr driverErr = Inr d"
  shows "d_certFileName d = (if o_CertificateFileName opts = [] then ''tls.crt'' else o_CertificateFileName opts)"
    and "d_keyFileName d = (if o_KeyFileName opts = [] then ''tls.key'' else o_KeyFileName opts)"
    and "d_caFileName d = ''ca.crt''"
  using assms by (auto simp: driver_New_Inr)

lemma quot_bounds: "0 \<le> a \<Longrightarrow> 0 < b \<Longrightarrow> 0 \<le> quot a b \<and> b * quot a b \<le> a \<and> a < b * quot a b + b"
proof -
  assume "0 \<le> a" "0 < b"
  then have "b * (a div b) + a mod b = a" "0 \<le> a mod b" "a mod b < b" "0 \<le> a div b"
    by (simp_all add: pos_imp_zdiv_nonneg_iff)
  then have "b * (a div b) \<le> a" "a < b * (a div b) + b" by linarith+
  with \<open>0 \<le> a\<close> \<open>0 \<le> a div b\<close> show ?thesis by (simp add: quot_def)
qed

lemma writeKeypair_cases:
  assumes "writeKeypair x st d pem meta key chain s = (r, s')"
  obtains (before) "s' = s" "r \<noteq> Ok ()"
    "\<And>k t. MarshalPKCS8PrivateKey x key = Inr k \<Longrightarrow> calculateNextIssuanceTime x chain \<noteq> Ok t"
  | (written) k t w s1 where "MarshalPKCS8PrivateKey x key = Inr k"
      "calculateNextIssuanceTime x chain = Ok t"
      "WriteFiles st meta (keypairFiles d pem chain (EncodeToMemory ''PRIVATE KEY'' k)) s = (w, s1)"
      "w \<noteq> None \<and> s' = s1 \<and> r \<noteq> Ok () \<or>
       w = None \<and> (\<exists>w2. WriteMetadata st (md_VolumeID meta) (meta\<lparr>md_NextIssuanceTime := Some t\<rparr>) s1 = (w2, s')
                      \<and> (r = Ok () \<longleftrightarrow> w2 = None))"
  using assms unfolding writeKeypair_def Let_def
  by (auto split: result_splits)

lemma writeKeypair_Ok:
  assumes "storage_ok st" and "distinct [d_certFileName d, d_keyFileName d, d_caFileName d]"
    and "writeKeypair x st d pem meta key chain s = (Ok (), s')"
  shows "\<exists>k t. MarshalPKCS8PrivateKey x key = Inr k \<and> calculateNextIssuanceTime x chain = Ok t
    \<and> ReadFile st s' (md_VolumeID meta) (d_certFileName d) = Inr chain
    \<and> ReadFile st s' (md_VolumeID meta) (d_keyFileName d) = Inr (EncodeToMemory ''PRIVATE KEY'' k)
    \<and> (d_rootCAs d \<longrightarrow> ReadFile st s' (md_VolumeID meta) (d_caFileName d) = Inr pem)
    \<and> ReadMetadata st s' (md_VolumeID meta) = Inr (meta\<lparr>md_NextIssuanceTime := Some t\<rparr>)
    \<and> (\<forall>v n. v \<noteq> md_VolumeID meta \<longrightarrow> ReadFile st s' v n = ReadFile st s v n)"
  using assms(3)
proof (cases rule: writeKeypair_cases)
  case (written k t w s1)
  let ?data = "keypairFiles d pem chain (EncodeToMemory ''PRIVATE KEY'' k)"
  from written(4) have w: "WriteFiles st meta ?data s = (None, s1)"
    and m: "WriteMetadata st (md_VolumeID meta) (meta\<lparr>md_NextIssuanceTime := Some t\<rparr>) s1 = (None, s')"
    using written(3) by auto
  have files: "ReadFile st s' = ReadFile st s1" using WriteMetadata_files [OF assms(1) m] .
  have "?data (d_certFileName d) = Some chain"
    "?data (d_keyFileName d) = Some (EncodeToMemory ''PRIVATE KEY'' k)"
    "d_rootCAs d \<longrightarrow> ?data (d_caFileName d) = Some pem"
    using assms(2) by (auto simp: keypairFiles_def Let_def)
  then have same: "ReadFile st s1 (md_VolumeID meta) (d_certFileName d) = Inr chain"
    "ReadFile st s1 (md_VolumeID meta) (d_keyFileName d) = Inr (EncodeToMemory ''PRIVATE KEY'' k)"
    "d_rootCAs d \<longrightarrow> ReadFile st s1 (md_VolumeID meta) (d_caFileName d) = Inr pem"
    using WriteFiles_same [OF assms(1) w _ refl] by simp_all
  have "ReadMetadata st s' (md_VolumeID meta) = Inr (meta\<lparr>md_NextIssuanceTime := Some t\<rparr>)"
    using WriteMetadata_same [OF assms(1) m] by simp
  with written(1,2) same WriteFiles_other [OF assms(1) w] show ?thesis
    unfolding files by blast
qed simp

lemma driver_run_stuck:
  "driver_run_step\<^sup>*\<^sup>* r r' \<Longrightarrow> stuck (dr_ca r) \<Longrightarrow> stuck (dr_ca r')"
proof (induction rule: rtranclp_induct)
  case (step q q')
  from step(2) show ?case by cases (use step stuck_step in auto)
qed

lemma driver_run_ca:
  "run_reachable True c q \<Longrightarrow> c = d_camanager d \<Longrightarrow>
   driver_run_step\<^sup>*\<^sup>* (driver_run_init d) ((driver_run_init d)\<lparr>dr_ca := q\<rparr>)"
proof (induction rule: run_reachable.induct)
  case start
  then show ?case by (simp add: driver_run_init_def)
next
  case (step q q')
  then have "driver_run_step ((driver_run_init d)\<lparr>dr_ca := q\<rparr>) ((driver_run_init d)\<lparr>dr_ca := q'\<rparr>)"
    using ca [of "(driver_run_init d)\<lparr>dr_ca := q\<rparr>" q'] by simp
  with step show ?case by (simp add: rtranclp.rtrancl_into_rtrancl)
qed

lemma generateRequest_plain:
  assumes "driver_New opts None None None = Inr d"
    and "distinct (map fst (o_CertificateRequestAnnotations opts))"
    and "ir_Name (cfg_IssuerRef (rt_Config (o_RuntimeConfig opts))) \<noteq> []"
    and "EmptyAudienceTokenFromMetadata x meta = Inr token"
    and "ParseSigned x token validSigningAlgs = Inr jwt"
    and "UnsafeClaimsWithoutVerification x jwt =
           Inr \<lparr>claims_Namespace = ns, claims_ServiceAccountName = sa\<rparr>"
    and "plain (o_TrustDomain opts)" and "o_TrustDomain opts \<noteq> []"
    and "plain ns" and "ns \<noteq> []" and "plain sa" and "sa \<noteq> []"
  shows "\<exists>b uri. generateRequest x d meta = Inr b \<and> b_Request b = emptyCSR\<lparr>csr_URIs := [uri]\<rparr>
    \<and> u_Scheme uri = ''spiffe'' \<and> u_Host uri = o_TrustDomain opts
    \<and> url_String uri = ''spiffe://'' @ o_TrustDomain opts @ ''/ns/'' @ ns @ ''/sa/'' @ sa
    \<and> b_Namespace b = ns \<and> \<not> b_IsCA b
    \<and> b_Usages b = [UsageDigitalSignature, UsageKeyEncipherment, UsageServerAuth, UsageClientAuth]
    \<and> b_Duration b = (if o_CertificateRequestDuration opts = 0 then 3600000000000
                        else o_CertificateRequestDuration opts)
    \<and> b_IssuerRef b = cfg_IssuerRef (rt_Config (o_RuntimeConfig opts))
    \<and> b_Annotations b SPIFFEIdentityAnnnotationKey = Some (url_String uri)
    \<and> (\<forall>special. url_Parse special (url_String uri) = Inr uri)"
proof -
  let ?path = "''/ns/'' @ ns @ ''/sa/'' @ sa"
  let ?uri = "hierURL ''spiffe'' (o_TrustDomain opts) ?path"
  have d: "d_trustDomain d = o_TrustDomain opts" "d_runtimeConfig d = o_RuntimeConfig opts"
    "d_certificateRequestDuration d = (if o_CertificateRequestDuration opts = 0 then 3600000000000
       else o_CertificateRequestDuration opts)"
    "d_certificateRequestAnnotations d SPIFFEIdentityAnnnotationKey = None"
    using assms(1) sanitizeAnnotations_map [OF assms(2)] identity_key_has_prefix
    by (auto simp: driver_New_Inr)
  have path: "plainPath ?path"
    using assms(9,11) by (auto simp: list_all_iff plainChar_def isAlnum_def)
  have parse: "url_Parse special (driverSpiffeID d ns sa) = Inr ?uri" for special
    using url_Parse_plain [OF assms(7) path] by (simp add: driverSpiffeID_def d)
  have str: "url_String ?uri = ''spiffe://'' @ o_TrustDomain opts @ ?path"
    using url_String_hierURL [of "''spiffe''", OF _ assms(7,8) path] by simp
  then have id: "driverSpiffeID d ns sa = url_String ?uri" by (simp add: driverSpiffeID_def d)
  have uri: "u_Scheme ?uri = ''spiffe''" "u_Host ?uri = o_TrustDomain opts"
    by (simp_all add: hierURL_def)
  have "generateRequest x d meta = Inr \<lparr>b_Request = emptyCSR\<lparr>csr_URIs := [?uri]\<rparr>, b_IsCA = False,
      b_Namespace = ns, b_Duration = d_certificateRequestDuration d,
      b_Usages = [UsageDigitalSignature, UsageKeyEncipherment, UsageServerAuth, UsageClientAuth],
      b_IssuerRef = cfg_IssuerRef (rt_Config (o_RuntimeConfig opts)),
      b_Annotations = [SPIFFEIdentityAnnnotationKey \<mapsto> driverSpiffeID d ns sa]
                        ++ d_certificateRequestAnnotations d\<rparr>" (is "_ = Inr ?b")
    using assms(3-6,10,12) by (simp add: generateRequest_def Let_def d(2) parse)
  moreover have "b_Annotations ?b SPIFFEIdentityAnnnotationKey = Some (url_String ?uri)"
    by (simp add: map_add_def d(4) id)
  ultimately show ?thesis
    using uri str d(3) parse id by (intro exI [of _ ?b] exI [of _ ?uri]) simp
qed

section \<open>An instance\<close>

definition exampleOptions :: DriverOptions where
  "exampleOptions =
     \<lparr>o_DriverName = ''spiffe.csi.cert-manager.io'', o_NodeID = ''node'', o_DataRoot = ''/data'',
      o_Endpoint = ''/csi.sock'', o_TrustDomain = ''foo.bar'',
      o_CertificateRequestAnnotations = [(''team'', ''a''), (SPIFFEIdentityAnnnotationKey, ''evil'')],
      o_CertificateRequestDuration = 0, o_CertificateFileName = [], o_KeyFileName = [],
      o_CAFileName = ''bundle.pem'', o_RootCAs = True,
      o_RuntimeConfig = MemoryImpl (rc_NewMemory \<lparr>cfg_IssuerRef =
        \<lparr>ir_Name = ''ca'', ir_Kind = ''ClusterIssuer'', ir_Group = ''cert-manager.io''\<rparr>\<rparr> False),
      o_UseOwnServiceAccount = False\<rparr>"

definition exampleDriver :: Driver where
  "exampleDriver = (case driver_New exampleOptions None None None of Inr d \<Rightarrow> d)"

text \<open>Fixed claims, one key, one certificate; a text is a PEM block when it is not empty.\<close>

definition exampleDriverDeps :: "(unit, unit) driver_deps" where
  "exampleDriverDeps =
     \<lparr>EmptyAudienceTokenFromMetadata = (\<lambda>_. Inr []), ParseSigned = (\<lambda>_ _. Inr ()),
      UnsafeClaimsWithoutVerification =
        (\<lambda>_. Inr \<lparr>claims_Namespace = ''sandbox'', claims_ServiceAccountName = ''sleep''\<rparr>),
      parseSpecialHost = exampleSpecial, GenerateKey = Inr (), MarshalPKCS8PrivateKey = (\<lambda>_. Inr [2]),
      pem_Decode = (\<lambda>bs. if bs = [] then None else Some bs),
      ParseCertificate = (\<lambda>_. Inr \<lparr>crt_NotBefore = 1000, crt_NotAfter = 1300\<rparr>),
      MarshalSubject = (\<lambda>_. Inr [0x30, 0]), IsASN1SubjectEmpty = (\<lambda>bs. bs = [0x30, 0]),
      MarshalSANs = (\<lambda>_ _. Inl (ErrLib [])), CreateCertificateRequest = (\<lambda>_ _. Inr [])\<rparr>"

lemma exampleDriver_New: "driver_New exampleOptions None None None = Inr exampleDriver"
  by (auto simp: exampleDriver_def driver_New_def Let_def split: prod.split)

lemma exampleDriver_names:
  "d_certFileName exampleDriver = ''tls.crt''" "d_keyFileName exampleDriver = ''tls.key''"
  "d_caFileName exampleDriver = ''ca.crt''"
  using driver_New_names [OF exampleDriver_New] by (simp_all add: exampleOptions_def)

lemma exampleOptions_distinct: "distinct (map fst (o_CertificateRequestAnnotations exampleOptions))"
  by (simp add: exampleOptions_def SPIFFEIdentityAnnnotationKey_def)

definition exampleMeta :: Metadata where
  "exampleMeta = \<lparr>md_VolumeID = ''v2'', md_NextIssuanceTime = None, md_VolumeContext = Map.empty\<rparr>"

lemma example_write:
  "\<exists>s'. writeKeypair exampleDriverDeps exampleStorage exampleDriver [3] exampleMeta () [5] exampleVolumes
     = (Ok (), s')"
  by (simp add: writeKeypair_def exampleDriverDeps_def exampleStorage_def calculateNextIssuanceTime_def)

section \<open>Properties\<close>

text \<open>C23: \<open>sanitizeAnnotations\<close> keeps exactly the custom annotations whose key does not begin with
  the prefix of the project, in whatever order Go iterates over the map, and returns an error
  that joins one error per removed annotation, \<open>nil\<close> when none is removed.\<close>

theorem sanitize_annotations_spec:
  assumes "distinct (map fst kvs)"
  shows "sanitizeAnnotations kvs =
    ((\<lambda>k. if HasPrefix k annotations_Prefix then None else map_of kvs k),
     errors_Join (map (\<lambda>(k, v). Errorf ''custom annotation %q was not valid; must not begin with %s''
                          [VStr k, VStr annotations_Prefix])
                    (filter (\<lambda>(k, v). HasPrefix k annotations_Prefix) kvs)))"
  using sanitizeAnnotations_map [OF assms]
  by (simp add: sanitizeAnnotations_def sanitizeLoop_spec [OF assms])

theorem sanitize_annotations_spec_witness:
  "fst (sanitizeAnnotations [(''team'', ''a''), (SPIFFEIdentityAnnnotationKey, ''evil'')]) = [''team'' \<mapsto> ''a'']
   \<and> snd (sanitizeAnnotations [(''team'', ''a''), (SPIFFEIdentityAnnnotationKey, ''evil'')]) \<noteq> None"
proof -
  have "\<not> HasPrefix ''team'' annotations_Prefix" "SPIFFEIdentityAnnnotationKey \<noteq> ''team''"
    by (simp_all add: HasPrefix_def annotations_Prefix_def SPIFFEIdentityAnnnotationKey_def)
  then show ?thesis
    using sanitize_annotations_spec [of "[(''team'', ''a''), (SPIFFEIdentityAnnnotationKey, ''evil'')]"]
      identity_key_has_prefix by (auto simp: errors_Join_def fun_eq_iff)
qed

text \<open>C13: For a driver built by \<open>New\<close>, an active issuer and a token whose claims name a namespace and
  a service account made of unreserved characters, as the trust domain is, \<open>generateRequest\<close>
  succeeds: the CSR holds exactly one URI, with scheme \<open>spiffe\<close>, the trust domain as host, and
  the SPIFFE ID of that service account as its text; the request is made in that namespace, not
  for a CA, with the driver's duration and the active issuer; and it carries the identity
  annotation with the SPIFFE ID whatever the custom annotations are.\<close>

theorem generate_request_spec:
  assumes "driver_New opts None None None = Inr d"
    and "distinct (map fst (o_CertificateRequestAnnotations opts))"
    and "ir_Name (cfg_IssuerRef (rt_Config (o_RuntimeConfig opts))) \<noteq> []"
    and "EmptyAudienceTokenFromMetadata x meta = Inr token"
    and "ParseSigned x token validSigningAlgs = Inr jwt"
    and "UnsafeClaimsWithoutVerification x jwt =
           Inr \<lparr>claims_Namespace = ns, claims_ServiceAccountName = sa\<rparr>"
    and "plain (o_TrustDomain opts)" and "o_TrustDomain opts \<noteq> []"
    and "plain ns" and "ns \<noteq> []" and "plain sa" and "sa \<noteq> []"
  shows "\<exists>b uri. generateRequest x d meta = Inr b \<and> b_Request b = emptyCSR\<lparr>csr_URIs := [uri]\<rparr>
    \<and> u_Scheme uri = ''spiffe'' \<and> u_Host uri = o_TrustDomain opts
    \<and> url_String uri = ''spiffe://'' @ o_TrustDomain opts @ ''/ns/'' @ ns @ ''/sa/'' @ sa
    \<and> b_Namespace b = ns \<and> \<not> b_IsCA b
    \<and> b_Usages b = [UsageDigitalSignature, UsageKeyEncipherment, UsageServerAuth, UsageClientAuth]
    \<and> b_Duration b = (if o_CertificateRequestDuration opts = 0 then 3600000000000
                        else o_CertificateRequestDuration opts)
    \<and> b_IssuerRef b = cfg_IssuerRef (rt_Config (o_RuntimeConfig opts))
    \<and> b_Annotations b SPIFFEIdentityAnnnotationKey = Some (url_String uri)"
  using generateRequest_plain [OF assms] by blast

theorem generate_request_spec_witness:
  "\<exists>b. generateRequest exampleDriverDeps exampleDriver
         \<lparr>md_VolumeID = ''v1'', md_NextIssuanceTime = None, md_VolumeContext = Map.empty\<rparr> = Inr b
     \<and> b_Annotations b SPIFFEIdentityAnnnotationKey = Some ''spiffe://foo.bar/ns/sandbox/sa/sleep''"
proof -
  let ?m = "\<lparr>md_VolumeID = ''v1'', md_NextIssuanceTime = None, md_VolumeContext = Map.empty\<rparr>"
  have "o_TrustDomain exampleOptions = ''foo.bar''"
    "ir_Name (cfg_IssuerRef (rt_Config (o_RuntimeConfig exampleOptions))) = ''ca''"
    by (simp_all add: exampleOptions_def memory_Config_def rc_NewMemory_def)
  then show ?thesis
    using generate_request_spec [OF exampleDriver_New exampleOptions_distinct,
        of exampleDriverDeps ?m "[]" "()" "''sandbox''" "''sleep''"]
    by (auto simp: exampleDriverDeps_def plainChar_def isAlnum_def)
qed

text \<open>C22: The renewal time of a certificate with \<open>NotBefore \<le> NotAfter\<close> lies between the two; for a
  lifetime that fits a \<open>time.Duration\<close> it is two thirds of the lifetime after \<open>NotBefore\<close>, rounded
  up by less than a nanosecond.\<close>

theorem next_issuance_time_bounds:
  assumes "pem_Decode x chain = Some blk" and "ParseCertificate x blk = Inr crt"
    and "crt_NotBefore crt \<le> crt_NotAfter crt"
  shows "\<exists>t. calculateNextIssuanceTime x chain = Ok t
    \<and> crt_NotBefore crt \<le> t \<and> t \<le> crt_NotAfter crt
    \<and> (crt_NotAfter crt - crt_NotBefore crt < 2 ^ 63 \<longrightarrow>
         2 * (crt_NotAfter crt - crt_NotBefore crt) \<le> 3 * (t - crt_NotBefore crt)
         \<and> 3 * (t - crt_NotBefore crt) < 2 * (crt_NotAfter crt - crt_NotBefore crt) + 3)"
proof -
  let ?d = "time_Sub (crt_NotAfter crt) (crt_NotBefore crt)"
  have d: "0 \<le> ?d" "?d \<le> crt_NotAfter crt - crt_NotBefore crt"
    "crt_NotAfter crt - crt_NotBefore crt < 2 ^ 63 \<longrightarrow> ?d = crt_NotAfter crt - crt_NotBefore crt"
    using assms(3) by (auto simp: time_Sub_def)
  have "calculateNextIssuanceTime x chain = Ok (crt_NotAfter crt - quot ?d 3)"
    using assms(1,2) by (simp add: calculateNextIssuanceTime_def)
  moreover have "0 \<le> quot ?d 3" "3 * quot ?d 3 \<le> ?d" "?d < 3 * quot ?d 3 + 3"
    using quot_bounds [OF d(1), of 3] by simp_all
  ultimately show ?thesis using d by (intro exI [of _ "crt_NotAfter crt - quot ?d 3"]) auto
qed

theorem next_issuance_time_bounds_witness:
  "\<exists>t. calculateNextIssuanceTime exampleDriverDeps [1] = Ok t \<and> t = 1200"
  using next_issuance_time_bounds [of exampleDriverDeps "[1]" "[1]" "\<lparr>crt_NotBefore = 1000, crt_NotAfter = 1300\<rparr>"]
  by (auto simp: exampleDriverDeps_def)

text \<open>C21: When \<open>writeKeypair\<close> succeeds, the volume's certificate file holds the chain, the key file the
  PEM of the key, with root CAs configured the CA file holds the bundle, and the stored metadata
  carries the renewal time of the chain; the files of other volumes are untouched.\<close>

theorem write_keypair_success:
  assumes "storage_ok st" and "distinct [d_certFileName d, d_keyFileName d, d_caFileName d]"
    and "writeKeypair x st d pem meta key chain s = (Ok (), s')"
  shows "\<exists>k t. MarshalPKCS8PrivateKey x key = Inr k \<and> calculateNextIssuanceTime x chain = Ok t
    \<and> ReadFile st s' (md_VolumeID meta) (d_certFileName d) = Inr chain
    \<and> ReadFile st s' (md_VolumeID meta) (d_keyFileName d) = Inr (EncodeToMemory ''PRIVATE KEY'' k)
    \<and> (d_rootCAs d \<longrightarrow> ReadFile st s' (md_VolumeID meta) (d_caFileName d) = Inr pem)
    \<and> ReadMetadata st s' (md_VolumeID meta) = Inr (meta\<lparr>md_NextIssuanceTime := Some t\<rparr>)
    \<and> (\<forall>v n. v \<noteq> md_VolumeID meta \<longrightarrow> ReadFile st s' v n = ReadFile st s v n)"
  by (rule writeKeypair_Ok [OF assms])

theorem write_keypair_success_witness:
  "ReadFile exampleStorage (snd (writeKeypair exampleDriverDeps exampleStorage exampleDriver [3]
     exampleMeta () [5] exampleVolumes))
     ''v2'' ''tls.crt'' = Inr [5]"
proof -
  obtain s' where s': "writeKeypair exampleDriverDeps exampleStorage exampleDriver [3] exampleMeta () [5] exampleVolumes = (Ok (), s')"
    using example_write by blast
  have "ReadFile exampleStorage s' ''v2'' ''tls.crt'' = Inr [5]"
    using write_keypair_success [OF exampleStorage_ok _ s'] by (auto simp: exampleDriver_names exampleMeta_def)
  with s' show ?thesis by simp
qed

text \<open>C26: Round trip of the private key. The key file of a successful \<open>writeKeypair\<close> is one PEM block of
  type \<open>PRIVATE KEY\<close>, with nothing after it, that reads back as the PKCS 8 encoding of the key,
  whatever its length.\<close>

theorem written_key_reads_back:
  assumes "storage_ok st" and "distinct [d_certFileName d, d_keyFileName d, d_caFileName d]"
    and "writeKeypair x st d pem meta key chain s = (Ok (), s')"
  shows "\<exists>k text. MarshalPKCS8PrivateKey x key = Inr k
    \<and> ReadFile st s' (md_VolumeID meta) (d_keyFileName d) = Inr text
    \<and> readPEM ''PRIVATE KEY'' text = Some (k, [])"
  using writeKeypair_Ok [OF assms] readPEM_EncodeToMemory [where rest = "[]"] by fastforce

theorem written_key_reads_back_witness:
  "\<exists>text. ReadFile exampleStorage (snd (writeKeypair exampleDriverDeps exampleStorage exampleDriver [3]
       exampleMeta () [5] exampleVolumes)) ''v2'' ''tls.key'' = Inr text
     \<and> readPEM ''PRIVATE KEY'' text = Some ([2], [])"
proof -
  obtain s' where s': "writeKeypair exampleDriverDeps exampleStorage exampleDriver [3] exampleMeta () [5] exampleVolumes = (Ok (), s')"
    using example_write by blast
  then show ?thesis
    using written_key_reads_back [OF exampleStorage_ok _ s']
    by (auto simp: exampleDriver_names exampleMeta_def exampleDriverDeps_def)
qed

text \<open>C34: \<open>writeKeypair\<close> computes the renewal time before it writes: when the key cannot be
  marshalled or the time cannot be computed, by an error or a panic, the storage is what it was,
  and in every case a result other than success leaves the files of other volumes alone.\<close>

theorem write_keypair_no_partial_state:
  assumes "storage_ok st" and "writeKeypair x st d pem meta key chain s = (r, s')"
  shows "((\<forall>k t. \<not> (MarshalPKCS8PrivateKey x key = Inr k \<and> calculateNextIssuanceTime x chain = Ok t))
           \<longrightarrow> s' = s \<and> r \<noteq> Ok ())
    \<and> (\<forall>v n. v \<noteq> md_VolumeID meta \<longrightarrow> ReadFile st s' v n = ReadFile st s v n)"
  using assms(2)
proof (cases rule: writeKeypair_cases)
  case (written k t w s1)
  have "ReadFile st s' = ReadFile st s1"
    using written(4) WriteMetadata_files [OF assms(1)] by auto
  with written(1,2) WriteFiles_other [OF assms(1) written(3)] show ?thesis by auto
qed auto

theorem write_keypair_no_partial_state_witness:
  "writeKeypair exampleDriverDeps exampleStorage exampleDriver [3]
     exampleMeta () [] exampleVolumes
   = (Panic, exampleVolumes)"
proof -
  have "calculateNextIssuanceTime exampleDriverDeps [] = Panic"
    by (simp add: calculateNextIssuanceTime_def exampleDriverDeps_def)
  then have p: "fst (writeKeypair exampleDriverDeps exampleStorage exampleDriver [3] exampleMeta () [] exampleVolumes) = Panic"
    by (simp add: writeKeypair_def exampleDriverDeps_def)
  obtain r s' where "writeKeypair exampleDriverDeps exampleStorage exampleDriver [3] exampleMeta () [] exampleVolumes = (r, s')"
    by fastforce
  with write_keypair_no_partial_state [OF exampleStorage_ok this] p
    \<open>calculateNextIssuanceTime exampleDriverDeps [] = Panic\<close> show ?thesis by simp
qed

text \<open>C35: \<open>New\<close> never copies \<open>Options.CAFileName\<close> into the driver: the files \<open>writeKeypair\<close> writes for a
  new or renewed certificate hold the bundle under \<open>ca.crt\<close>, and the configured CA file name,
  when it is another name, is not among them, while the CA manager updates the configured name.
  The CA manager also receives the certificate and key file names before their defaults are set.\<close>

theorem ca_file_name_ignored:
  assumes "driver_New opts None None None = Inr d" and "o_RootCAs opts"
    and "o_CAFileName opts \<notin> {''ca.crt'', d_certFileName d, d_keyFileName d}"
    and "''ca.crt'' \<notin> {d_certFileName d, d_keyFileName d}"
  shows "keypairFiles d pem chain keyPEM ''ca.crt'' = Some pem
    \<and> keypairFiles d pem chain keyPEM (o_CAFileName opts) = None
    \<and> cam_caFileName (d_camanager d) = o_CAFileName opts
    \<and> cam_certFileName (d_camanager d) = o_CertificateFileName opts"
proof -
  have "d_caFileName d = ''ca.crt''" "d_rootCAs d"
    "d_camanager d = newCAManager True (o_CertificateFileName opts) (o_KeyFileName opts) (o_CAFileName opts)"
    using assms(1,2) by (auto simp: driver_New_Inr)
  then show ?thesis using assms(3,4) by (auto simp: keypairFiles_def newCAManager_def Let_def)
qed

theorem ca_file_name_ignored_witness:
  "keypairFiles exampleDriver [3] [1] [2] ''bundle.pem'' = None
   \<and> cam_caFileName (d_camanager exampleDriver) = ''bundle.pem''
   \<and> cam_certFileName (d_camanager exampleDriver) = []"
  using ca_file_name_ignored [OF exampleDriver_New, of "[3]" "[1]" "[2]"]
  by (simp add: exampleOptions_def exampleDriver_names)

text \<open>With root CAs configured, \<open>Run\<close> can come to a state from which it never returns, although
  the context is cancelled and the csi-lib driver is stopped: the one in which the CA manager
  blocks on its own channel.\<close>

lemma run_may_never_return:
  assumes "driver_New opts None None None = Inr d" and "o_RootCAs opts"
  shows "\<exists>r. driver_run_step\<^sup>*\<^sup>* (driver_run_init d) r
    \<and> (\<forall>r'. driver_run_step\<^sup>*\<^sup>* r r' \<longrightarrow> \<not> driver_run_returned r')"
proof -
  have "cam_rootCAs (d_camanager d)"
    using assms by (auto simp: driver_New_Inr newCAManager_def)
  from reach_stuck [OF this] obtain q where q: "run_reachable True (d_camanager d) q" "stuck q"
    by (force simp: stuck_def)
  have "driver_run_step\<^sup>*\<^sup>* (driver_run_init d) ((driver_run_init d)\<lparr>dr_ca := q\<rparr>)"
    using driver_run_ca [OF q(1)] by simp
  moreover have "\<not> driver_run_returned r'"
    if "driver_run_step\<^sup>*\<^sup>* ((driver_run_init d)\<lparr>dr_ca := q\<rparr>) r'" for r'
    using driver_run_stuck [OF that] q(2) by (simp add: stuck_def driver_run_returned_def)
  ultimately show ?thesis by blast
qed

end
