(* ===== verification/Options.thy ===== *)
theory Options
  imports APITypes "HOL-Library.Multiset"
begin

text \<open>
  \<open>internal/flags\<close> and the options of the two programs. The functions that register flags are lists
  of names and defaults; the variable a flag is bound to is known by the name of the flag, and the
  structures \<open>Options\<close> are read from the variables. \<open>Prepare\<close> registers the groups of flags in the
  order in which Go iterates over the map \<open>extra\<close> and merges the flag sets in another such order.
  The packages pflag and cobra are the parameter \<open>pflag\<close>.
\<close>

section \<open>internal/flags\<close>

datatype flagValue = FStr string | FDur int | FBool bool | FMap "(string \<times> string) list"

datatype flagType = TStr | TDur | TBool | TMap

fun typeOf :: "flagValue \<Rightarrow> flagType" where
  "typeOf (FStr s) = TStr"
| "typeOf (FDur d) = TDur"
| "typeOf (FBool b) = TBool"
| "typeOf (FMap m) = TMap"

text \<open>The values of flags or variables by name; what one call of \<open>StringVar\<close> and the like registers.\<close>

type_synonym cmdline = "string \<rightharpoonup> flagValue"
type_synonym registration = "string \<times> flagValue"

text \<open>
  What parsing the arguments gives: an error, a request for help, or the flags that are set.
  \<open>pf_add\<close> is a registration in a set, which panics (\<open>None\<close>) when the name is taken; \<open>pf_addSet\<close> is
  \<open>AddFlagSet\<close>; \<open>pf_defaults\<close> are the flags of a set with their defaults.
\<close>

datatype parsed = ParseError goerr | HelpRequested | Parsed cmdline

record 'fs pflag =
  pf_new :: 'fs
  pf_add :: "registration \<Rightarrow> 'fs \<Rightarrow> 'fs option"
  pf_addSet :: "'fs \<Rightarrow> 'fs \<Rightarrow> 'fs"
  pf_defaults :: "'fs \<Rightarrow> cmdline"
  pf_parse :: "'fs \<Rightarrow> string list \<Rightarrow> parsed"

text \<open>
  What is relied on: a set takes a flag with a new name; merging keeps the flags that are already
  present; a flag that is set is one of the set, with a value of the type it was registered with.
\<close>

definition pflag_ok :: "'fs pflag \<Rightarrow> bool" where
  "pflag_ok pf \<longleftrightarrow>
     pf_defaults pf (pf_new pf) = Map.empty
     \<and> (\<forall>n d fs. pf_defaults pf fs n = None \<longrightarrow>
          (\<exists>fs'. pf_add pf (n, d) fs = Some fs' \<and> pf_defaults pf fs' = (pf_defaults pf fs)(n \<mapsto> d)))
     \<and> (\<forall>a b. pf_defaults pf (pf_addSet pf a b) = pf_defaults pf b ++ pf_defaults pf a)
     \<and> (\<forall>fs argv m n v. pf_parse pf fs argv = Parsed m \<longrightarrow> m n = Some v \<longrightarrow>
          (\<exists>d. pf_defaults pf fs n = Some d \<and> typeOf v = typeOf d))"

record Flags =
  fl_logLevel :: string
  fl_DriverName :: string
  fl_extra :: "string \<rightharpoonup> registration list"

definition flags_New :: Flags where
  "flags_New = \<lparr>fl_logLevel = [], fl_DriverName = [], fl_extra = Map.empty\<rparr>"

definition flags_Add :: "string \<Rightarrow> registration list \<Rightarrow> Flags \<Rightarrow> Flags" where
  "flags_Add name regFn f = f\<lparr>fl_extra := (fl_extra f)(name \<mapsto> regFn)\<rparr>"

definition addAppFlags :: "registration list" where
  "addAppFlags =
     [(''csi-driver-name'', FStr ''spiffe.csi.cert-manager.io''),
      (''log-level'', FStr ''1'')]"

text \<open>The calls of one registering function on a flag set.\<close>

fun register :: "'fs pflag \<Rightarrow> registration list \<Rightarrow> 'fs \<Rightarrow> 'fs option" where
  "register pf [] fs = Some fs"
| "register pf (r # rs) fs =
     (case pf_add pf r fs of None \<Rightarrow> None | Some fs' \<Rightarrow> register pf rs fs')"

text \<open>
  \<open>addFlags\<close>: the flag sets by name, first of the program (\<open>App\<close>), then those of \<open>extra\<close> in the
  order \<open>order\<close> of the iteration, then those of \<open>genericclioptions\<close> (\<open>kube\<close>); \<open>None\<close> is a panic.
\<close>

fun addGroups ::
    "'fs pflag \<Rightarrow> (string \<times> registration list) list \<Rightarrow> (string \<rightharpoonup> 'fs) \<Rightarrow> (string \<rightharpoonup> 'fs) option" where
  "addGroups pf [] nfs = Some nfs"
| "addGroups pf ((name, regFn) # gs) nfs =
     (case register pf regFn (case nfs name of None \<Rightarrow> pf_new pf | Some fs \<Rightarrow> fs) of
        None \<Rightarrow> None
      | Some fs \<Rightarrow> addGroups pf gs (nfs(name \<mapsto> fs)))"

definition groups :: "registration list \<Rightarrow> string list \<Rightarrow> Flags \<Rightarrow> (string \<times> registration list) list" where
  "groups kube order f =
     (''App'', addAppFlags) # map (\<lambda>name. (name, the (fl_extra f name))) order @ [(''Kubernetes'', kube)]"

text \<open>The flag sets merged into those of the command, in the order \<open>sets\<close> of the iteration.\<close>

definition addFlags ::
    "'fs pflag \<Rightarrow> registration list \<Rightarrow> string list \<Rightarrow> string list \<Rightarrow> Flags \<Rightarrow> 'fs option" where
  "addFlags pf kube order sets f =
     map_option (\<lambda>nfs. foldl (\<lambda>fs name. case nfs name of None \<Rightarrow> fs | Some g \<Rightarrow> pf_addSet pf fs g) (pf_new pf) sets)
       (addGroups pf (groups kube order f) Map.empty)"

text \<open>The usage and help texts; \<open>sections\<close> is what \<open>PrintSections\<close> prints of the flag sets.\<close>

definition usageText :: "string \<Rightarrow> string \<Rightarrow> string" where
  "usageText useLine sections = ''Usage:'' @ [CHR 0x0A] @ ''  '' @ useLine @ [CHR 0x0A] @ sections"

definition helpText :: "string \<Rightarrow> string \<Rightarrow> string \<Rightarrow> string" where
  "helpText long useLine sections = long @ [CHR 0x0A, CHR 0x0A] @ usageText useLine sections"

text \<open>
  The variables of the flags after \<open>Prepare\<close>: registering a flag stores its default. Parsing stores
  the values that are set. A variable that no flag is bound to has the zero value.
\<close>

definition flagVars :: "string list \<Rightarrow> Flags \<Rightarrow> cmdline" where
  "flagVars order f = foldl (\<lambda>vars (n, d). vars(n \<mapsto> d)) Map.empty
     (addAppFlags @ concat (map (\<lambda>name. the (fl_extra f name)) order))"

definition strOf :: "cmdline \<Rightarrow> string \<Rightarrow> string" where
  "strOf vars name = (case vars name of Some (FStr s) \<Rightarrow> s | _ \<Rightarrow> [])"

definition durOf :: "cmdline \<Rightarrow> string \<Rightarrow> int" where
  "durOf vars name = (case vars name of Some (FDur n) \<Rightarrow> n | _ \<Rightarrow> 0)"

definition boolOf :: "cmdline \<Rightarrow> string \<Rightarrow> bool" where
  "boolOf vars name = (case vars name of Some (FBool b) \<Rightarrow> b | _ \<Rightarrow> False)"

definition mapOf :: "cmdline \<Rightarrow> string \<Rightarrow> (string \<times> string) list" where
  "mapOf vars name = (case vars name of Some (FMap m) \<Rightarrow> m | _ \<Rightarrow> [])"

definition flags_read :: "cmdline \<Rightarrow> Flags \<Rightarrow> Flags" where
  "flags_read vars f =
     f\<lparr>fl_logLevel := strOf vars ''log-level'', fl_DriverName := strOf vars ''csi-driver-name''\<rparr>"

text \<open>\<open>setV\<close> is \<open>flag.Set("v", _)\<close>, \<open>restErr\<close> the result of \<open>ToRESTConfig\<close>.\<close>

definition flags_Complete :: "(string \<Rightarrow> goerr option) \<Rightarrow> goerr option \<Rightarrow> Flags \<Rightarrow> goerr option" where
  "flags_Complete setV restErr f =
     (case setV (fl_logLevel f) of
        Some err \<Rightarrow> Some (Wrapf ''failed to set log level: %s'' [] err)
      | None \<Rightarrow>
          (case restErr of
             Some err \<Rightarrow> Some (Wrapf ''failed to build kubernetes rest config: %s'' [] err)
           | None \<Rightarrow> None))"

section \<open>internal/approver/app/options\<close>

record ApproverOptions =
  ao_Flags :: Flags
  ao_IssuanceConfigMapName :: string
  ao_IssuanceConfigMapNamespace :: string
  ao_TrustDomain :: string
  ao_CertificateRequestDuration :: int
  ao_UseOwnServiceAccount :: bool
  ao_DriverServiceAccount :: string
  ao_IssuerRef :: IssuerReference
  ao_AutoApproveNonSPIFFE :: bool
  ao_LeaderElectionNamespace :: string
  ao_ReadyzAddress :: string
  ao_MetricsAddress :: string

definition approver_addCertManagerFlags :: "registration list" where
  "approver_addCertManagerFlags =
     [(''runtime-issuance-config-map-name'', FStr []),
      (''runtime-issuance-config-map-namespace'', FStr []),
      (''trust-domain'', FStr ''cluster.local''),
      (''certificate-request-duration'', FDur 3600000000000),
      (''use-own-service-account'', FBool False),
      (''driver-service-account'', FStr []),
      (''issuer-name'', FStr ''my-spiffe-ca''),
      (''issuer-kind'', FStr ''ClusterIssuer''),
      (''issuer-group'', FStr ''cert-manager.io''),
      (''auto-approve-non-spiffe'', FBool False)]"

definition approver_addControllerFlags :: "registration list" where
  "approver_addControllerFlags =
     [(''leader-election-namespace'', FStr ''cert-manager''),
      (''readiness-probe-bind-address'', FStr '':6060''),
      (''metrics-bind-address'', FStr '':9402'')]"

definition approver_options_New :: Flags where
  "approver_options_New =
     flags_Add ''Controller'' approver_addControllerFlags
       (flags_Add ''cert-manager'' approver_addCertManagerFlags flags_New)"

definition approver_read :: "cmdline \<Rightarrow> ApproverOptions" where
  "approver_read vars =
     \<lparr>ao_Flags = flags_read vars approver_options_New,
      ao_IssuanceConfigMapName = strOf vars ''runtime-issuance-config-map-name'',
      ao_IssuanceConfigMapNamespace = strOf vars ''runtime-issuance-config-map-namespace'',
      ao_TrustDomain = strOf vars ''trust-domain'',
      ao_CertificateRequestDuration = durOf vars ''certificate-request-duration'',
      ao_UseOwnServiceAccount = boolOf vars ''use-own-service-account'',
      ao_DriverServiceAccount = strOf vars ''driver-service-account'',
      ao_IssuerRef = \<lparr>ir_Name = strOf vars ''issuer-name'', ir_Kind = strOf vars ''issuer-kind'',
                      ir_Group = strOf vars ''issuer-group''\<rparr>,
      ao_AutoApproveNonSPIFFE = boolOf vars ''auto-approve-non-spiffe'',
      ao_LeaderElectionNamespace = strOf vars ''leader-election-namespace'',
      ao_ReadyzAddress = strOf vars ''readiness-probe-bind-address'',
      ao_MetricsAddress = strOf vars ''metrics-bind-address''\<rparr>"

section \<open>internal/csi/app/options\<close>

record CSIOptions =
  so_Flags :: Flags
  so_NodeID :: string
  so_DataRoot :: string
  so_Endpoint :: string
  so_UseOwnServiceAccount :: bool
  so_IssuanceConfigMapName :: string
  so_IssuanceConfigMapNamespace :: string
  so_TrustDomain :: string
  so_CertificateRequestDuration :: int
  so_CertificateRequestAnnotations :: "(string \<times> string) list"
  so_IssuerRef :: IssuerReference
  so_CertificateFileName :: string
  so_KeyFileName :: string
  so_CAFileName :: string
  so_SourceCABundleFile :: string

definition addDriverFlags :: "registration list" where
  "addDriverFlags =
     [(''node-id'', FStr []), (''data-root'', FStr []), (''endpoint'', FStr []),
      (''use-own-service-account'', FBool False)]"

definition csi_addCertManagerFlags :: "registration list" where
  "csi_addCertManagerFlags =
     [(''runtime-issuance-config-map-name'', FStr []),
      (''runtime-issuance-config-map-namespace'', FStr []),
      (''trust-domain'', FStr ''cluster.local''),
      (''certificate-request-duration'', FDur 3600000000000),
      (''extra-certificate-request-annotations'', FMap []),
      (''issuer-name'', FStr ''my-spiffe-ca''),
      (''issuer-kind'', FStr ''ClusterIssuer''),
      (''issuer-group'', FStr ''cert-manager.io'')]"

definition addVolumeFlags :: "registration list" where
  "addVolumeFlags =
     [(''file-name-certificate'', FStr ''tls.crt''), (''file-name-key'', FStr ''tls.key''),
      (''file-name-ca'', FStr ''ca.crt''), (''source-ca-bundle'', FStr [])]"

definition csi_options_New :: Flags where
  "csi_options_New =
     flags_Add ''Volume'' addVolumeFlags
       (flags_Add ''cert-manager'' csi_addCertManagerFlags (flags_Add ''Driver'' addDriverFlags flags_New))"

definition csi_read :: "cmdline \<Rightarrow> CSIOptions" where
  "csi_read vars =
     \<lparr>so_Flags = flags_read vars csi_options_New,
      so_NodeID = strOf vars ''node-id'',
      so_DataRoot = strOf vars ''data-root'',
      so_Endpoint = strOf vars ''endpoint'',
      so_UseOwnServiceAccount = boolOf vars ''use-own-service-account'',
      so_IssuanceConfigMapName = strOf vars ''runtime-issuance-config-map-name'',
      so_IssuanceConfigMapNamespace = strOf vars ''runtime-issuance-config-map-namespace'',
      so_TrustDomain = strOf vars ''trust-domain'',
      so_CertificateRequestDuration = durOf vars ''certificate-request-duration'',
      so_CertificateRequestAnnotations = mapOf vars ''extra-certificate-request-annotations'',
      so_IssuerRef = \<lparr>ir_Name = strOf vars ''issuer-name'', ir_Kind = strOf vars ''issuer-kind'',
                      ir_Group = strOf vars ''issuer-group''\<rparr>,
      so_CertificateFileName = strOf vars ''file-name-certificate'',
      so_KeyFileName = strOf vars ''file-name-key'',
      so_CAFileName = strOf vars ''file-name-ca'',
      so_SourceCABundleFile = strOf vars ''source-ca-bundle''\<rparr>"

section \<open>The options, flag by flag\<close>

text \<open>What the options are meant to be: the value a flag is set to, its default otherwise.\<close>

definition strVar :: "cmdline \<Rightarrow> string \<Rightarrow> string \<Rightarrow> string" where
  "strVar args name def = (case args name of Some (FStr s) \<Rightarrow> s | _ \<Rightarrow> def)"

definition durationVar :: "cmdline \<Rightarrow> string \<Rightarrow> int \<Rightarrow> int" where
  "durationVar args name def = (case args name of Some (FDur n) \<Rightarrow> n | _ \<Rightarrow> def)"

definition boolVar :: "cmdline \<Rightarrow> string \<Rightarrow> bool \<Rightarrow> bool" where
  "boolVar args name def = (case args name of Some (FBool b) \<Rightarrow> b | _ \<Rightarrow> def)"

definition stringToStringVar ::
    "cmdline \<Rightarrow> string \<Rightarrow> (string \<times> string) list \<Rightarrow> (string \<times> string) list" where
  "stringToStringVar args name def = (case args name of Some (FMap m) \<Rightarrow> m | _ \<Rightarrow> def)"

definition flags_of :: "cmdline \<Rightarrow> Flags \<Rightarrow> Flags" where
  "flags_of args f =
     f\<lparr>fl_logLevel := strVar args ''log-level'' ''1'',
       fl_DriverName := strVar args ''csi-driver-name'' ''spiffe.csi.cert-manager.io''\<rparr>"

definition approver_options :: "cmdline \<Rightarrow> ApproverOptions" where
  "approver_options args =
     \<lparr>ao_Flags = flags_of args approver_options_New,
      ao_IssuanceConfigMapName = strVar args ''runtime-issuance-config-map-name'' [],
      ao_IssuanceConfigMapNamespace = strVar args ''runtime-issuance-config-map-namespace'' [],
      ao_TrustDomain = strVar args ''trust-domain'' ''cluster.local'',
      ao_CertificateRequestDuration = durationVar args ''certificate-request-duration'' 3600000000000,
      ao_UseOwnServiceAccount = boolVar args ''use-own-service-account'' False,
      ao_DriverServiceAccount = strVar args ''driver-service-account'' [],
      ao_IssuerRef = \<lparr>ir_Name = strVar args ''issuer-name'' ''my-spiffe-ca'',
                      ir_Kind = strVar args ''issuer-kind'' ''ClusterIssuer'',
                      ir_Group = strVar args ''issuer-group'' ''cert-manager.io''\<rparr>,
      ao_AutoApproveNonSPIFFE = boolVar args ''auto-approve-non-spiffe'' False,
      ao_LeaderElectionNamespace = strVar args ''leader-election-namespace'' ''cert-manager'',
      ao_ReadyzAddress = strVar args ''readiness-probe-bind-address'' '':6060'',
      ao_MetricsAddress = strVar args ''metrics-bind-address'' '':9402''\<rparr>"

definition csi_options :: "cmdline \<Rightarrow> CSIOptions" where
  "csi_options args =
     \<lparr>so_Flags = flags_of args csi_options_New,
      so_NodeID = strVar args ''node-id'' [],
      so_DataRoot = strVar args ''data-root'' [],
      so_Endpoint = strVar args ''endpoint'' [],
      so_UseOwnServiceAccount = boolVar args ''use-own-service-account'' False,
      so_IssuanceConfigMapName = strVar args ''runtime-issuance-config-map-name'' [],
      so_IssuanceConfigMapNamespace = strVar args ''runtime-issuance-config-map-namespace'' [],
      so_TrustDomain = strVar args ''trust-domain'' ''cluster.local'',
      so_CertificateRequestDuration = durationVar args ''certificate-request-duration'' 3600000000000,
      so_CertificateRequestAnnotations =
        stringToStringVar args ''extra-certificate-request-annotations'' [],
      so_IssuerRef = \<lparr>ir_Name = strVar args ''issuer-name'' ''my-spiffe-ca'',
                      ir_Kind = strVar args ''issuer-kind'' ''ClusterIssuer'',
                      ir_Group = strVar args ''issuer-group'' ''cert-manager.io''\<rparr>,
      so_CertificateFileName = strVar args ''file-name-certificate'' ''tls.crt'',
      so_KeyFileName = strVar args ''file-name-key'' ''tls.key'',
      so_CAFileName = strVar args ''file-name-ca'' ''ca.crt'',
      so_SourceCABundleFile = strVar args ''source-ca-bundle'' []\<rparr>"

section \<open>Lemmas: registration\<close>

lemma pflag_new: "pflag_ok pf \<Longrightarrow> pf_defaults pf (pf_new pf) = Map.empty"
  and pflag_add: "pflag_ok pf \<Longrightarrow> pf_defaults pf fs n = None \<Longrightarrow>
    \<exists>fs'. pf_add pf (n, d) fs = Some fs' \<and> pf_defaults pf fs' = (pf_defaults pf fs)(n \<mapsto> d)"
  and pflag_addSet: "pflag_ok pf \<Longrightarrow> pf_defaults pf (pf_addSet pf a b) = pf_defaults pf b ++ pf_defaults pf a"
  and pflag_parse: "pflag_ok pf \<Longrightarrow> pf_parse pf fs argv = Parsed m \<Longrightarrow> m n = Some v \<Longrightarrow>
    \<exists>d. pf_defaults pf fs n = Some d \<and> typeOf v = typeOf d"
  unfolding pflag_ok_def by blast+

lemma register_ok:
  assumes "pflag_ok pf"
  shows "distinct (map fst rs) \<Longrightarrow> (\<And>n. n \<in> fst ` set rs \<Longrightarrow> pf_defaults pf fs n = None) \<Longrightarrow>
    \<exists>fs'. register pf rs fs = Some fs' \<and> pf_defaults pf fs' = pf_defaults pf fs ++ map_of rs"
proof (induction rs arbitrary: fs)
  case (Cons r rs)
  obtain n d where r: "r = (n, d)" by (cases r)
  then obtain fs1 where 1: "pf_add pf r fs = Some fs1" "pf_defaults pf fs1 = (pf_defaults pf fs)(n \<mapsto> d)"
    using pflag_add [OF assms, of fs n d] Cons.prems(2) by auto
  have "pf_defaults pf fs1 m = None" if "m \<in> fst ` set rs" for m
  proof -
    have "m \<noteq> n" using Cons.prems(1) that by (auto simp: r)
    then show ?thesis using Cons.prems(2) [of m] that by (simp add: 1(2))
  qed
  from Cons.IH [OF _ this] Cons.prems(1) obtain fs2 where
    2: "register pf rs fs1 = Some fs2" "pf_defaults pf fs2 = pf_defaults pf fs1 ++ map_of rs" by auto
  have "map_of rs n = None" using Cons.prems(1) by (simp add: r map_of_eq_None_iff)
  with 1 2 show ?case by (simp add: r map_add_def fun_eq_iff split: option.split)
qed simp

lemma addGroups_ok:
  assumes "pflag_ok pf"
  shows "distinct (map fst gs) \<Longrightarrow> (\<And>g. g \<in> set gs \<Longrightarrow> distinct (map fst (snd g))) \<Longrightarrow>
    (\<And>g. g \<in> set gs \<Longrightarrow> nfs (fst g) = None) \<Longrightarrow>
    \<exists>nfs'. addGroups pf gs nfs = Some nfs'
      \<and> (\<forall>g \<in> set gs. \<exists>fs. nfs' (fst g) = Some fs \<and> pf_defaults pf fs = map_of (snd g))
      \<and> (\<forall>name. name \<notin> fst ` set gs \<longrightarrow> nfs' name = nfs name)"
proof (induction gs arbitrary: nfs)
  case (Cons g gs)
  obtain name rs where g: "g = (name, rs)" by (cases g)
  obtain fs where fs: "register pf rs (pf_new pf) = Some fs" "pf_defaults pf fs = map_of rs"
    using register_ok [OF assms, of rs "pf_new pf"] Cons.prems(2) [of g] pflag_new [OF assms] by (auto simp: g)
  have none: "(nfs(name \<mapsto> fs)) (fst h) = None" if "h \<in> set gs" for h
  proof -
    have "fst h \<noteq> name" using Cons.prems(1) that by (auto simp: g)
    then show ?thesis using Cons.prems(3) [of h] that by simp
  qed
  have "distinct (map fst gs)" "\<And>h. h \<in> set gs \<Longrightarrow> distinct (map fst (snd h))"
    using Cons.prems(1,2) by simp_all
  from Cons.IH [where nfs = "nfs(name \<mapsto> fs)", OF this none] obtain nfs' where
    "addGroups pf gs (nfs(name \<mapsto> fs)) = Some nfs'"
    "\<forall>g \<in> set gs. \<exists>fs. nfs' (fst g) = Some fs \<and> pf_defaults pf fs = map_of (snd g)"
    "\<forall>m. m \<notin> fst ` set gs \<longrightarrow> nfs' m = (nfs(name \<mapsto> fs)) m"
    by blast
  moreover have "nfs name = None" using Cons.prems(3) [of g] by (simp add: g)
  ultimately show ?case using fs Cons.prems(1) by (auto simp: g)
qed simp

lemma merge_ok:
  assumes "pflag_ok pf" and "\<And>name g. nfs name = Some g \<Longrightarrow> pf_defaults pf g \<subseteq>\<^sub>m M"
  shows "pf_defaults pf fs \<subseteq>\<^sub>m M \<Longrightarrow>
    let r = foldl (\<lambda>fs name. case nfs name of None \<Rightarrow> fs | Some g \<Rightarrow> pf_addSet pf fs g) fs sets in
    pf_defaults pf r \<subseteq>\<^sub>m M \<and> dom (pf_defaults pf fs) \<subseteq> dom (pf_defaults pf r)
    \<and> (\<forall>name \<in> set sets. \<forall>g. nfs name = Some g \<longrightarrow> dom (pf_defaults pf g) \<subseteq> dom (pf_defaults pf r))"
proof (induction sets arbitrary: fs)
  case (Cons name sets)
  define fs1 where "fs1 = (case nfs name of None \<Rightarrow> fs | Some g \<Rightarrow> pf_addSet pf fs g)"
  have "pf_defaults pf fs1 \<subseteq>\<^sub>m M"
    using Cons.prems assms(2) [of name]
    by (auto simp: fs1_def pflag_addSet [OF assms(1)] intro: map_add_le_mapI split: option.splits)
  moreover have "dom (pf_defaults pf fs) \<subseteq> dom (pf_defaults pf fs1)"
    "\<forall>g. nfs name = Some g \<longrightarrow> dom (pf_defaults pf g) \<subseteq> dom (pf_defaults pf fs1)"
    by (auto simp: fs1_def pflag_addSet [OF assms(1)] split: option.splits)
  ultimately show ?case
    using Cons.IH [of fs1] by (simp add: Let_def fs1_def [symmetric]) blast
qed simp

text \<open>
  All groups together: with distinct names no registration panics, and the flags of the command
  and the variables are the same for every order of the two iterations.
\<close>

lemma foldl_vars:
  "foldl (\<lambda>vars (n, d). vars(n \<mapsto> d)) m rs = m ++ map_of (rev rs)"
  by (induction rs arbitrary: m) (auto simp: map_add_def fun_eq_iff split: option.split)

lemma map_of_rev: "distinct (map fst rs) \<Longrightarrow> map_of (rev rs) = map_of rs"
  by (rule map_of_inject_set [THEN iffD2]) (simp_all add: rev_map [symmetric])

lemma concat_perm:
  assumes "mset order = mset cs"
  shows "mset (concat (map f order)) = mset (concat (map f cs))"
  by (metis assms map_map mset_concat mset_map sum_mset_sum_list)

lemma map_of_perm:
  assumes "distinct (map fst xs)" and "mset ys = mset xs"
  shows "map_of ys = map_of xs"
proof -
  have "distinct (map fst ys)" using assms by (metis mset_map mset_eq_imp_distinct_iff)
  with assms show ?thesis by (metis map_of_inject_set mset_eq_setD)
qed

lemma group_le:
  assumes "distinct (map fst (concat (map snd gs)))" and "g \<in> set gs"
  shows "distinct (map fst (snd g))" and "map_of (snd g) \<subseteq>\<^sub>m map_of (concat (map snd gs))"
proof -
  show "distinct (map fst (snd g))" using assms by (induction gs) auto
  show "map_of (snd g) \<subseteq>\<^sub>m map_of (concat (map snd gs))"
    unfolding map_le_def
  proof
    fix n assume "n \<in> dom (map_of (snd g))"
    then obtain d where d: "map_of (snd g) n = Some d" by blast
    then have "(n, d) \<in> set (concat (map snd gs))" using map_of_SomeD [OF d] assms(2) by auto
    then show "map_of (snd g) n = map_of (concat (map snd gs)) n"
      using map_of_is_SomeI [OF assms(1)] d by simp
  qed
qed

lemma map_le_dom_eq:
  assumes "f \<subseteq>\<^sub>m g" and "dom g \<subseteq> dom f"
  shows "f = g"
proof
  fix x
  show "f x = g x"
  proof (cases "x \<in> dom f")
    case True
    then show ?thesis using assms(1) by (simp add: map_le_def)
  next
    case False
    then have "x \<notin> dom g" using assms(2) by blast
    with False show ?thesis by (simp add: domIff)
  qed
qed

lemma groups_merged:
  assumes "pflag_ok pf" and "distinct (map fst gs)" and "distinct (map fst (concat (map snd gs)))"
    and "set sets = fst ` set gs"
  shows "\<exists>nfs. addGroups pf gs Map.empty = Some nfs
    \<and> pf_defaults pf (foldl (\<lambda>fs name. case nfs name of None \<Rightarrow> fs | Some g \<Rightarrow> pf_addSet pf fs g) (pf_new pf) sets)
      = map_of (concat (map snd gs))"
proof -
  let ?M = "map_of (concat (map snd gs))"
  from addGroups_ok [OF assms(1,2) group_le(1) [OF assms(3)], of Map.empty] obtain nfs where
    nfs: "addGroups pf gs Map.empty = Some nfs"
    and some: "\<forall>g \<in> set gs. \<exists>fs. nfs (fst g) = Some fs \<and> pf_defaults pf fs = map_of (snd g)"
    and none: "\<forall>name. name \<notin> fst ` set gs \<longrightarrow> nfs name = None" by auto
  let ?r = "foldl (\<lambda>fs name. case nfs name of None \<Rightarrow> fs | Some g \<Rightarrow> pf_addSet pf fs g) (pf_new pf) sets"
  have le: "pf_defaults pf g \<subseteq>\<^sub>m ?M" if "nfs name = Some g" for name g
  proof -
    have "name \<in> fst ` set gs" using none that by fastforce
    then show ?thesis using some that group_le(2) [OF assms(3)] by fastforce
  qed
  have "pf_defaults pf (pf_new pf) \<subseteq>\<^sub>m ?M" by (simp add: pflag_new [OF assms(1)])
  from merge_ok [where nfs = nfs and sets = sets, OF assms(1) le this]
  have r: "pf_defaults pf ?r \<subseteq>\<^sub>m ?M"
    "\<forall>name \<in> set sets. \<forall>g. nfs name = Some g \<longrightarrow> dom (pf_defaults pf g) \<subseteq> dom (pf_defaults pf ?r)"
    by (auto simp: Let_def)
  have "dom ?M \<subseteq> dom (pf_defaults pf ?r)"
  proof
    fix n assume "n \<in> dom ?M"
    then obtain g where g: "g \<in> set gs" "n \<in> dom (map_of (snd g))"
      by (auto simp: dom_map_of_conv_image_fst)
    obtain fs where fs: "nfs (fst g) = Some fs" "pf_defaults pf fs = map_of (snd g)" using some g(1) by blast
    have "fst g \<in> set sets" using g(1) assms(4) by simp
    from r(2) [rule_format, OF this fs(1)] fs(2) g(2) show "n \<in> dom (pf_defaults pf ?r)" by auto
  qed
  with r(1) have "pf_defaults pf ?r = ?M" by (rule map_le_dom_eq)
  with nfs show ?thesis by blast
qed

lemma addFlags_ok:
  assumes "pflag_ok pf" and "distinct (''App'' # ''Kubernetes'' # cs)" and "mset order = mset cs"
    and "set sets = set (''App'' # ''Kubernetes'' # cs)"
    and "regs = addAppFlags @ concat (map (\<lambda>name. the (fl_extra f name)) cs)"
    and "distinct (map fst (regs @ kube))"
  shows "flagVars order f = map_of regs"
    and "\<exists>fs. addFlags pf kube order sets f = Some fs \<and> pf_defaults pf fs = map_of (regs @ kube)"
proof -
  let ?own = "addAppFlags @ concat (map (\<lambda>name. the (fl_extra f name)) order)" and ?gs = "groups kube order f"
  have perm: "mset ?own = mset regs" using concat_perm [OF assms(3)] by (simp add: assms(5))
  have own: "distinct (map fst ?own)"
    using assms(6) perm by (metis distinct_append map_append mset_eq_imp_distinct_iff mset_map)
  have "distinct (map fst regs)" using assms(6) by simp
  then show "flagVars order f = map_of regs"
    unfolding flagVars_def foldl_vars map_of_rev [OF own] empty_map_add using perm by (rule map_of_perm)
  have order: "set order = set cs" "distinct order"
    using assms(2,3) by (metis mset_eq_setD, metis distinct.simps(2) mset_eq_imp_distinct_iff)
  have all: "concat (map snd ?gs) = ?own @ kube" by (simp add: groups_def comp_def)
  have "mset (?own @ kube) = mset (regs @ kube)" using perm by simp
  then have "map_of (?own @ kube) = map_of (regs @ kube)" "distinct (map fst (?own @ kube))"
    using map_of_perm [OF assms(6)] assms(6) by (metis, metis mset_eq_imp_distinct_iff mset_map)
  moreover have "distinct (map fst ?gs)" "set sets = fst ` set ?gs"
    using assms(2,4) order by (auto simp: groups_def comp_def image_image)
  ultimately show "\<exists>fs. addFlags pf kube order sets f = Some fs \<and> pf_defaults pf fs = map_of (regs @ kube)"
    using groups_merged [OF assms(1), of ?gs sets] by (auto simp: addFlags_def all)
qed

section \<open>Lemmas: types\<close>

text \<open>Values have the types the flags were registered with.\<close>

definition wellTyped :: "registration list \<Rightarrow> cmdline \<Rightarrow> bool" where
  "wellTyped regs m \<longleftrightarrow> (\<forall>n v d. m n = Some v \<longrightarrow> map_of regs n = Some d \<longrightarrow> typeOf v = typeOf d)"

lemma wellTyped_read:
  assumes "wellTyped regs m"
  shows "strOf (map_of regs ++ m) n = (case map_of regs n of Some (FStr d) \<Rightarrow> strVar m n d | _ \<Rightarrow> strOf m n)"
    and "durOf (map_of regs ++ m) n = (case map_of regs n of Some (FDur d) \<Rightarrow> durationVar m n d | _ \<Rightarrow> durOf m n)"
    and "boolOf (map_of regs ++ m) n = (case map_of regs n of Some (FBool d) \<Rightarrow> boolVar m n d | _ \<Rightarrow> boolOf m n)"
    and "mapOf (map_of regs ++ m) n =
      (case map_of regs n of Some (FMap d) \<Rightarrow> stringToStringVar m n d | _ \<Rightarrow> mapOf m n)"
proof -
  have t: "typeOf v = typeOf d" if "m n = Some v" "map_of regs n = Some d" for v d
    using assms that unfolding wellTyped_def by blast
  show "strOf (map_of regs ++ m) n = (case map_of regs n of Some (FStr d) \<Rightarrow> strVar m n d | _ \<Rightarrow> strOf m n)"
    "durOf (map_of regs ++ m) n = (case map_of regs n of Some (FDur d) \<Rightarrow> durationVar m n d | _ \<Rightarrow> durOf m n)"
    "boolOf (map_of regs ++ m) n = (case map_of regs n of Some (FBool d) \<Rightarrow> boolVar m n d | _ \<Rightarrow> boolOf m n)"
    "mapOf (map_of regs ++ m) n =
      (case map_of regs n of Some (FMap d) \<Rightarrow> stringToStringVar m n d | _ \<Rightarrow> mapOf m n)"
    by (auto simp: strOf_def strVar_def durOf_def durationVar_def boolOf_def boolVar_def mapOf_def
        stringToStringVar_def map_add_def dest: t split: option.split flagValue.split)
qed

text \<open>The flags of the two programs.\<close>

definition approverFlags :: "registration list" where
  "approverFlags = addAppFlags @ approver_addCertManagerFlags @ approver_addControllerFlags"

definition csiFlags :: "registration list" where
  "csiFlags = addAppFlags @ addDriverFlags @ csi_addCertManagerFlags @ addVolumeFlags"

lemmas flag_lists =
  addAppFlags_def approver_addCertManagerFlags_def approver_addControllerFlags_def addDriverFlags_def
  csi_addCertManagerFlags_def addVolumeFlags_def

lemma approver_read_options:
  "wellTyped approverFlags m \<Longrightarrow> approver_read (map_of approverFlags ++ m) = approver_options m"
  by (simp add: approver_read_def approver_options_def flags_read_def flags_of_def wellTyped_read)
    (simp add: approverFlags_def flag_lists)

lemma csi_read_options:
  "wellTyped csiFlags m \<Longrightarrow> csi_read (map_of csiFlags ++ m) = csi_options m"
  by (simp add: csi_read_def csi_options_def flags_read_def flags_of_def wellTyped_read)
    (simp add: csiFlags_def flag_lists)

lemma parsed_wellTyped:
  assumes "pflag_ok pf" and "pf_defaults pf fs = map_of (regs @ kube)"
    and "distinct (map fst (regs @ kube))" and "pf_parse pf fs argv = Parsed m"
  shows "wellTyped regs m"
  unfolding wellTyped_def
proof (intro allI impI)
  fix n v d
  assume "m n = Some v" and d: "map_of regs n = Some d"
  then obtain d' where d': "map_of (regs @ kube) n = Some d'" "typeOf v = typeOf d'"
    using pflag_parse [OF assms(1,4)] assms(2) by metis
  have "map_of (regs @ kube) n = Some d"
    using map_of_is_SomeI [OF assms(3)] map_of_SomeD [OF d] by simp
  with d' show "typeOf v = typeOf d" by simp
qed

text \<open>From the arguments to the options, for every order of the iterations.\<close>

lemma approver_prepared:
  assumes "pflag_ok pf" and "mset order = mset [''cert-manager'', ''Controller'']"
    and "set sets = {''App'', ''Kubernetes'', ''cert-manager'', ''Controller''}"
    and "distinct (map fst (approverFlags @ kube))"
  shows "\<exists>fs. addFlags pf kube order sets approver_options_New = Some fs
    \<and> pf_defaults pf fs = map_of (approverFlags @ kube)
    \<and> (\<forall>argv m. pf_parse pf fs argv = Parsed m \<longrightarrow>
          approver_read (flagVars order approver_options_New ++ m) = approver_options m)"
proof -
  have regs: "approverFlags = addAppFlags @ concat (map (\<lambda>name. the (fl_extra approver_options_New name))
      [''cert-manager'', ''Controller''])"
    by (simp add: approverFlags_def approver_options_New_def flags_Add_def)
  have sets: "set sets = set [''App'', ''Kubernetes'', ''cert-manager'', ''Controller'']" using assms(3) by simp
  note ok = addFlags_ok [OF assms(1) _ assms(2) sets regs assms(4)]
  obtain fs where "addFlags pf kube order sets approver_options_New = Some fs"
    "pf_defaults pf fs = map_of (approverFlags @ kube)" using ok(2) by auto
  moreover have "flagVars order approver_options_New = map_of approverFlags" using ok(1) by simp
  ultimately show ?thesis
    using approver_read_options parsed_wellTyped [OF assms(1) _ assms(4)] by metis
qed

lemma csi_prepared:
  assumes "pflag_ok pf" and "mset order = mset [''Driver'', ''cert-manager'', ''Volume'']"
    and "set sets = {''App'', ''Kubernetes'', ''Driver'', ''cert-manager'', ''Volume''}"
    and "distinct (map fst (csiFlags @ kube))"
  shows "\<exists>fs. addFlags pf kube order sets csi_options_New = Some fs
    \<and> pf_defaults pf fs = map_of (csiFlags @ kube)
    \<and> (\<forall>argv m. pf_parse pf fs argv = Parsed m \<longrightarrow>
          csi_read (flagVars order csi_options_New ++ m) = csi_options m)"
proof -
  have regs: "csiFlags = addAppFlags @ concat (map (\<lambda>name. the (fl_extra csi_options_New name))
      [''Driver'', ''cert-manager'', ''Volume''])"
    by (simp add: csiFlags_def csi_options_New_def flags_Add_def)
  have sets: "set sets = set [''App'', ''Kubernetes'', ''Driver'', ''cert-manager'', ''Volume'']"
    using assms(3) by simp
  note ok = addFlags_ok [OF assms(1) _ assms(2) sets regs assms(4)]
  obtain fs where "addFlags pf kube order sets csi_options_New = Some fs"
    "pf_defaults pf fs = map_of (csiFlags @ kube)" using ok(2) by auto
  moreover have "flagVars order csi_options_New = map_of csiFlags" using ok(1) by simp
  ultimately show ?thesis
    using csi_read_options parsed_wellTyped [OF assms(1) _ assms(4)] by metis
qed

section \<open>An instance\<close>

text \<open>A flag set is its map of defaults; an argument \<open>name=value\<close> sets a string flag.\<close>

fun exampleParse :: "cmdline \<Rightarrow> string list \<Rightarrow> cmdline \<Rightarrow> parsed" where
  "exampleParse fs [] m = Parsed m"
| "exampleParse fs (arg # argv) m =
     (let n = takeWhile (\<lambda>ch. ch \<noteq> CHR ''='') arg; v = drop (length n + 1) arg in
      if arg = ''--help'' then HelpRequested
      else case fs n of
        Some (FStr d) \<Rightarrow> exampleParse fs argv (m(n \<mapsto> FStr v))
      | _ \<Rightarrow> ParseError (ErrLib (''unknown flag: '' @ n)))"

definition examplePflag :: "cmdline pflag" where
  "examplePflag = \<lparr>pf_new = Map.empty, pf_add = (\<lambda>(n, d) fs. if fs n = None then Some (fs(n \<mapsto> d)) else None),
     pf_addSet = (\<lambda>a b. b ++ a), pf_defaults = id, pf_parse = (\<lambda>fs argv. exampleParse fs argv Map.empty)\<rparr>"

lemma exampleParse_typed:
  "exampleParse fs argv m = Parsed m' \<Longrightarrow> (\<And>n v. m n = Some v \<Longrightarrow> \<exists>d. fs n = Some d \<and> typeOf v = typeOf d) \<Longrightarrow>
   m' n = Some v \<Longrightarrow> \<exists>d. fs n = Some d \<and> typeOf v = typeOf d"
proof (induction fs argv m rule: exampleParse.induct)
  case (2 fs arg argv m)
  let ?n = "takeWhile (\<lambda>ch. ch \<noteq> CHR ''='') arg"
  obtain d where d: "fs ?n = Some (FStr d)" "arg \<noteq> ''--help''"
    "exampleParse fs argv (m(?n \<mapsto> FStr (drop (length ?n + 1) arg))) = Parsed m'"
    using "2.prems"(1) by (auto simp: Let_def split: if_splits option.splits flagValue.splits)
  show ?case
    by (rule "2.IH" [OF refl refl d(2,1) refl d(3) _ "2.prems"(3)]) (use d(1) "2.prems"(2) in \<open>auto split: if_splits\<close>)
qed simp

lemma examplePflag_ok: "pflag_ok examplePflag"
  using exampleParse_typed [of _ _ Map.empty]
  by (auto simp: pflag_ok_def examplePflag_def)

end
