(* ===== verification/Apps.thy ===== *)
theory Apps
  imports Approver Driver Options
begin

text \<open>
  The two programs: \<open>internal/version\<close>, \<open>internal/approver/app\<close>, \<open>internal/csi/app\<close> and the \<open>main\<close>
  functions. \<open>approver_RunE\<close> and \<open>csi_RunE\<close> are the wiring of the components, with the results of the
  calls that build clients, managers and watchers as arguments; they return what is started.
  \<open>approver_NewCommand\<close> and \<open>csi_NewCommand\<close> build the command with the flags of \<open>Options\<close>; its method
  \<open>Execute\<close> is cobra's and a parameter, with \<open>cobra_ok\<close> for what is relied on.
\<close>

section \<open>internal/version\<close>

text \<open>
  \<open>AppVersion\<close> and \<open>GitCommit\<close> are set by the linker, the others are constants of the runtime.
\<close>

record Version =
  ver_AppVersion :: string
  ver_GitCommit :: string
  ver_GoVersion :: string
  ver_Compiler :: string
  ver_Platform :: string

record build =
  bld_AppVersion :: string
  bld_GitCommit :: string
  bld_Version :: string
  bld_Compiler :: string
  bld_GOOS :: string
  bld_GOARCH :: string

definition VersionInfo :: "build \<Rightarrow> Version" where
  "VersionInfo b =
     \<lparr>ver_AppVersion = bld_AppVersion b, ver_GitCommit = bld_GitCommit b, ver_GoVersion = bld_Version b,
      ver_Compiler = bld_Compiler b, ver_Platform = bld_GOOS b @ ''/'' @ bld_GOARCH b\<rparr>"

text \<open>What \<open>init\<close> prints.\<close>

definition version_init :: "build \<Rightarrow> string list" where
  "version_init b =
     (if bld_AppVersion b = [] \<or> bld_GitCommit b = []
      then [''warning: AppVersion or GitCommit not set, this binary was built without -ldflags ''
             @ [CHR 0x22] @ ''-X internal/version.AppVersion=... -X internal/version.GitCommit=...''
             @ [CHR 0x22, CHR 0x0A]]
      else [])"

section \<open>internal/approver/app\<close>

text \<open>The options of the controller manager that depend on the flags.\<close>

record ManagerOptions =
  mo_LeaderElection :: bool
  mo_LeaderElectionNamespace :: string
  mo_LeaderElectionID :: string
  mo_LeaderElectionReleaseOnCancel :: bool
  mo_LeaderElectionResourceLock :: string
  mo_ReadinessEndpointName :: string
  mo_HealthProbeBindAddress :: string
  mo_MetricsBindAddress :: string

definition managerOptionsOf :: "ApproverOptions \<Rightarrow> ManagerOptions" where
  "managerOptionsOf opts =
     \<lparr>mo_LeaderElection = True,
      mo_LeaderElectionNamespace = ao_LeaderElectionNamespace opts,
      mo_LeaderElectionID = fl_DriverName (ao_Flags opts),
      mo_LeaderElectionReleaseOnCancel = True,
      mo_LeaderElectionResourceLock = ''leases'',
      mo_ReadinessEndpointName = ''/readyz'',
      mo_HealthProbeBindAddress = ao_ReadyzAddress opts,
      mo_MetricsBindAddress = ao_MetricsAddress opts\<rparr>"

text \<open>The results of \<open>NewWithWatch\<close>, \<open>NewManager\<close>, \<open>AddReadyzCheck\<close> and \<open>AddApprover\<close>.\<close>

record approver_env =
  ae_clientErr :: "goerr option"
  ae_NewManager :: "ManagerOptions \<Rightarrow> goerr option"
  ae_readyzErr :: "goerr option"
  ae_addErr :: "goerr option"

definition approver_RunE :: "evaluator_deps \<Rightarrow> approver_env \<Rightarrow> ApproverOptions \<Rightarrow> goerr + approver" where
  "approver_RunE ed env opts =
     (let dynamic = ao_IssuanceConfigMapName opts \<noteq> [] in
      case if dynamic then ae_clientErr env else None of
        Some err \<Rightarrow> Inl (Wrapf ''failed to build kubernetes watcher client: %w'' [] err)
      | None \<Rightarrow>
      case runtimeconfig_New dynamic
             \<lparr>ro_StaticConfig = \<lparr>cfg_IssuerRef = ao_IssuerRef opts\<rparr>,
              ro_DynamicConfig = \<lparr>dc_ConfigMapName = ao_IssuanceConfigMapName opts,
                                  dc_ConfigMapNamespace = ao_IssuanceConfigMapNamespace opts\<rparr>\<rparr> of
        Inl err \<Rightarrow> Inl err
      | Inr rtConfig \<Rightarrow>
      case ae_NewManager env (managerOptionsOf opts) of
        Some err \<Rightarrow> Inl (Wrapf ''failed to create manager: %w'' [] err)
      | None \<Rightarrow>
      case ae_readyzErr env of
        Some err \<Rightarrow> Inl err
      | None \<Rightarrow>
      let evaluator = evaluator_New
            \<lparr>eo_TrustDomain = ao_TrustDomain opts,
             eo_CertificateRequestDuration = ao_CertificateRequestDuration opts,
             eo_UseOwnServiceAccount = ao_UseOwnServiceAccount opts,
             eo_DriverServiceAccount = ao_DriverServiceAccount opts\<rparr> in
      case ae_addErr env of
        Some err \<Rightarrow> Inl (Wrapf ''failed to register approver controller: %w'' [] err)
      | None \<Rightarrow> Inr (AddApprover
            \<lparr>co_Evaluator = Evaluate ed evaluator, co_RuntimeConfig = rtConfig,
             co_AutoApproveNonSPIFFE = ao_AutoApproveNonSPIFFE opts\<rparr>))"

text \<open>The command: \<open>PreRunE\<close> completes the flags, \<open>RunE\<close> follows when that succeeds.\<close>

definition approver_command ::
    "evaluator_deps \<Rightarrow> (string \<Rightarrow> goerr option) \<Rightarrow> goerr option \<Rightarrow> approver_env \<Rightarrow> ApproverOptions \<Rightarrow>
     goerr + approver" where
  "approver_command ed setV restErr env opts =
     (case flags_Complete setV restErr (ao_Flags opts) of
        Some err \<Rightarrow> Inl err
      | None \<Rightarrow> approver_RunE ed env opts)"

section \<open>internal/csi/app\<close>

text \<open>
  The results of the calls of \<open>NewFile\<close> (\<open>ReadFile\<close>, \<open>NewWatcher\<close>, \<open>Add\<close>), of \<open>NewWithWatch\<close>, and of
  the calls of the driver's \<open>New\<close>.
\<close>

record csi_env =
  se_caFile :: "goerr + bytes"
  se_watcherErr :: "goerr option"
  se_watchErr :: "goerr option"
  se_clientErr :: "goerr option"
  se_fsErr :: "goerr option"
  se_cmClientErr :: "goerr option"
  se_driverErr :: "goerr option"

definition driverOptionsOf :: "CSIOptions \<Rightarrow> bool \<Rightarrow> rtConfig \<Rightarrow> DriverOptions" where
  "driverOptionsOf opts rootCA rtConfig =
     \<lparr>o_DriverName = fl_DriverName (so_Flags opts), o_NodeID = so_NodeID opts,
      o_DataRoot = so_DataRoot opts, o_Endpoint = so_Endpoint opts,
      o_TrustDomain = so_TrustDomain opts,
      o_CertificateRequestAnnotations = so_CertificateRequestAnnotations opts,
      o_CertificateRequestDuration = so_CertificateRequestDuration opts,
      o_CertificateFileName = so_CertificateFileName opts,
      o_KeyFileName = so_KeyFileName opts,
      o_CAFileName = so_CAFileName opts,
      o_RootCAs = rootCA,
      o_RuntimeConfig = rtConfig,
      o_UseOwnServiceAccount = so_UseOwnServiceAccount opts\<rparr>"

definition csi_RunE :: "csi_env \<Rightarrow> CSIOptions \<Rightarrow> goerr + fileCA option \<times> Driver" where
  "csi_RunE env opts =
     (case if 0 < length (so_SourceCABundleFile opts)
           then (case NewFile (so_SourceCABundleFile opts) (se_caFile env) (se_watcherErr env) (se_watchErr env) of
                   Inl err \<Rightarrow> Inl (Wrapf ''failed to build root CA: %w'' [] err)
                 | Inr f \<Rightarrow> Inr (Some f))
           else Inr None of
        Inl err \<Rightarrow> Inl err
      | Inr rootCA \<Rightarrow>
      let dynamic = so_IssuanceConfigMapName opts \<noteq> [] in
      case if dynamic then se_clientErr env else None of
        Some err \<Rightarrow> Inl (Wrapf ''failed to build kubernetes watcher client: %w'' [] err)
      | None \<Rightarrow>
      case runtimeconfig_New dynamic
             \<lparr>ro_StaticConfig = \<lparr>cfg_IssuerRef = so_IssuerRef opts\<rparr>,
              ro_DynamicConfig = \<lparr>dc_ConfigMapName = so_IssuanceConfigMapName opts,
                                  dc_ConfigMapNamespace = so_IssuanceConfigMapNamespace opts\<rparr>\<rparr> of
        Inl err \<Rightarrow> Inl err
      | Inr rtConfig \<Rightarrow>
      case driver_New (driverOptionsOf opts (rootCA \<noteq> None) rtConfig)
             (se_fsErr env) (se_cmClientErr env) (se_driverErr env) of
        Inl err \<Rightarrow> Inl err
      | Inr d \<Rightarrow> Inr (rootCA, d))"

definition csi_command ::
    "(string \<Rightarrow> goerr option) \<Rightarrow> goerr option \<Rightarrow> csi_env \<Rightarrow> CSIOptions \<Rightarrow> goerr + fileCA option \<times> Driver" where
  "csi_command setV restErr env opts =
     (case flags_Complete setV restErr (so_Flags opts) of
        Some err \<Rightarrow> Inl err
      | None \<Rightarrow> csi_RunE env opts)"

section \<open>The processes\<close>

text \<open>
  The fields of a \<open>cobra.Command\<close> the programs set: its flags, \<open>PreRunE\<close> and \<open>RunE\<close>. The two functions
  are closures that read the variables of the flags; here they are given the values that were set on
  the command line.
\<close>

record 'fs command =
  cmd_Flags :: 'fs
  cmd_PreRunE :: "cmdline \<Rightarrow> goerr option"
  cmd_RunE :: "cmdline \<Rightarrow> unit outcome"

text \<open>
  \<open>NewCommand\<close>: \<open>Prepare\<close> registers the flags, where it may panic (\<open>None\<close>); \<open>PreRunE\<close> completes the
  flags; \<open>RunE\<close> ends with the result of what it started (\<open>mgr.Start\<close>, \<open>driver.Run\<close>), \<open>wait\<close>.
\<close>

definition approver_NewCommand ::
    "'fs pflag \<Rightarrow> registration list \<Rightarrow> string list \<Rightarrow> string list \<Rightarrow> evaluator_deps \<Rightarrow> (string \<Rightarrow> goerr option) \<Rightarrow>
     goerr option \<Rightarrow> approver_env \<Rightarrow> (approver \<Rightarrow> unit outcome) \<Rightarrow> 'fs command option" where
  "approver_NewCommand pf kube order sets ed setV restErr env wait =
     (let opts = (\<lambda>m. approver_read (flagVars order approver_options_New ++ m)) in
      map_option (\<lambda>fs.
        \<lparr>cmd_Flags = fs,
         cmd_PreRunE = (\<lambda>m. flags_Complete setV restErr (ao_Flags (opts m))),
         cmd_RunE = (\<lambda>m. case approver_RunE ed env (opts m) of Inl err \<Rightarrow> Fail err | Inr a \<Rightarrow> wait a)\<rparr>)
        (addFlags pf kube order sets approver_options_New))"

definition csi_NewCommand ::
    "'fs pflag \<Rightarrow> registration list \<Rightarrow> string list \<Rightarrow> string list \<Rightarrow> (string \<Rightarrow> goerr option) \<Rightarrow>
     goerr option \<Rightarrow> csi_env \<Rightarrow> (fileCA option \<times> Driver \<Rightarrow> unit outcome) \<Rightarrow> 'fs command option" where
  "csi_NewCommand pf kube order sets setV restErr env wait =
     (let opts = (\<lambda>m. csi_read (flagVars order csi_options_New ++ m)) in
      map_option (\<lambda>fs.
        \<lparr>cmd_Flags = fs,
         cmd_PreRunE = (\<lambda>m. flags_Complete setV restErr (so_Flags (opts m))),
         cmd_RunE = (\<lambda>m. case csi_RunE env (opts m) of Inl err \<Rightarrow> Fail err | Inr r \<Rightarrow> wait r)\<rparr>)
        (addFlags pf kube order sets csi_options_New))"

text \<open>
  What is relied on of \<open>Execute\<close>: it parses the arguments with the flags of the command and returns a
  parse error; for help it prints the help text; else \<open>RunE\<close> follows a \<open>PreRunE\<close> without an error.
\<close>

definition cobra_ok :: "'fs pflag \<Rightarrow> ('fs command \<Rightarrow> string list \<Rightarrow> unit outcome) \<Rightarrow> bool" where
  "cobra_ok pf ex \<longleftrightarrow>
     (\<forall>cmd argv.
        (\<forall>err. pf_parse pf (cmd_Flags cmd) argv = ParseError err \<longrightarrow> ex cmd argv = Fail err)
      \<and> (pf_parse pf (cmd_Flags cmd) argv = HelpRequested \<longrightarrow> ex cmd argv = Ok ())
      \<and> (\<forall>m. pf_parse pf (cmd_Flags cmd) argv = Parsed m \<longrightarrow>
           ex cmd argv = (case cmd_PreRunE cmd m of Some err \<Rightarrow> Fail err | None \<Rightarrow> cmd_RunE cmd m)))"

text \<open>The exit code, and the error that is printed. A panic ends a Go program with code 2.\<close>

fun program_exit :: "unit outcome \<Rightarrow> nat \<times> goerr option" where
  "program_exit (Ok a) = (0, None)"
| "program_exit (Fail err) = (1, Some err)"
| "program_exit Panic = (2, None)"

text \<open>
  The \<open>main\<close> functions; \<open>ex\<close> is \<open>Execute\<close>. The driver also prints the warning of \<open>internal/version\<close>.
\<close>

definition approver_main where
  "approver_main ex pf kube order sets ed setV restErr env wait argv =
     program_exit (case approver_NewCommand pf kube order sets ed setV restErr env wait of
       None \<Rightarrow> Panic | Some cmd \<Rightarrow> ex cmd argv)"

definition csi_main where
  "csi_main b ex pf kube order sets setV restErr env wait argv =
     (version_init b, program_exit (case csi_NewCommand pf kube order sets setV restErr env wait of
       None \<Rightarrow> Panic | Some cmd \<Rightarrow> ex cmd argv))"

section \<open>Lemmas\<close>

lemma approver_RunE_Inr:
  assumes "approver_RunE ed env opts = Inr a"
  shows "ap_evaluator a = Evaluate ed \<lparr>trustDomain = ao_TrustDomain opts,
            certificateRequestDuration = ao_CertificateRequestDuration opts,
            useOwnServiceAccount = ao_UseOwnServiceAccount opts,
            driverServiceAccount = ao_DriverServiceAccount opts\<rparr>"
    and "runtimeconfig_New (ao_IssuanceConfigMapName opts \<noteq> [])
           \<lparr>ro_StaticConfig = \<lparr>cfg_IssuerRef = ao_IssuerRef opts\<rparr>,
            ro_DynamicConfig = \<lparr>dc_ConfigMapName = ao_IssuanceConfigMapName opts,
                                dc_ConfigMapNamespace = ao_IssuanceConfigMapNamespace opts\<rparr>\<rparr>
         = Inr (ap_runtimeConfig a)"
  using assms
  by (auto simp: approver_RunE_def Let_def AddApprover_def evaluator_New_def
      split: result_splits)

lemma csi_RunE_New:
  assumes "csi_RunE env opts = Inr (ca, d)"
  shows "\<exists>rt. driver_New (driverOptionsOf opts (ca \<noteq> None) rt) None None None = Inr d
    \<and> runtimeconfig_New (so_IssuanceConfigMapName opts \<noteq> [])
           \<lparr>ro_StaticConfig = \<lparr>cfg_IssuerRef = so_IssuerRef opts\<rparr>,
            ro_DynamicConfig = \<lparr>dc_ConfigMapName = so_IssuanceConfigMapName opts,
                                dc_ConfigMapNamespace = so_IssuanceConfigMapNamespace opts\<rparr>\<rparr> = Inr rt"
proof -
  have *: "driver_New o1 e1 e2 e3 = Inr d' \<Longrightarrow> driver_New o1 None None None = Inr d'" for o1 e1 e2 e3 d'
    by (simp add: driver_New_Inr)
  from assms show ?thesis
    unfolding csi_RunE_def Let_def
    by (auto split: result_splits dest: *)
qed

lemma csi_RunE_Inr:
  assumes "csi_RunE env opts = Inr (ca, d)"
  shows "d_trustDomain d = so_TrustDomain opts"
    and "d_certificateRequestDuration d = (if so_CertificateRequestDuration opts = 0 then 3600000000000
           else so_CertificateRequestDuration opts)"
    and "d_clientForMetadata d = (\<not> so_UseOwnServiceAccount opts)"
    and "runtimeconfig_New (so_IssuanceConfigMapName opts \<noteq> [])
           \<lparr>ro_StaticConfig = \<lparr>cfg_IssuerRef = so_IssuerRef opts\<rparr>,
            ro_DynamicConfig = \<lparr>dc_ConfigMapName = so_IssuanceConfigMapName opts,
                                dc_ConfigMapNamespace = so_IssuanceConfigMapNamespace opts\<rparr>\<rparr>
         = Inr (d_runtimeConfig d)"
    and "driver_New (driverOptionsOf opts (ca \<noteq> None) (d_runtimeConfig d)) None None None = Inr d"
  using csi_RunE_New [OF assms] by (auto simp: driver_New_Inr driverOptionsOf_def)

lemma approver_commandD:
  "approver_command ed setV restErr env opts = Inr a \<Longrightarrow> approver_RunE ed env opts = Inr a"
  by (simp add: approver_command_def split: option.splits)

lemma csi_commandD:
  "csi_command setV restErr env opts = Inr r \<Longrightarrow> csi_RunE env opts = Inr r"
  by (simp add: csi_command_def split: option.splits)

lemma generateRequest_Duration:
  "generateRequest x d meta = Inr b \<Longrightarrow> b_Duration b = d_certificateRequestDuration d"
  by (auto simp: generateRequest_def Let_def split: sum.splits if_splits)

text \<open>The command of either program, executed: its flags, and the options it runs with.\<close>

lemma approver_executes:
  assumes "pflag_ok pf" and "cobra_ok pf ex" and "distinct (map fst (approverFlags @ kube))"
    and "mset order = mset [''cert-manager'', ''Controller'']"
    and "set sets = {''App'', ''Kubernetes'', ''cert-manager'', ''Controller''}"
  shows "\<exists>cmd. approver_NewCommand pf kube order sets ed setV restErr env wait = Some cmd
    \<and> pf_defaults pf (cmd_Flags cmd) = map_of (approverFlags @ kube)
    \<and> (\<forall>argv. ex cmd argv = (case pf_parse pf (cmd_Flags cmd) argv of
          ParseError err \<Rightarrow> Fail err
        | HelpRequested \<Rightarrow> Ok ()
        | Parsed m \<Rightarrow> (case approver_command ed setV restErr env (approver_options m) of
            Inl err \<Rightarrow> Fail err | Inr a \<Rightarrow> wait a)))"
proof -
  obtain fs where fs: "addFlags pf kube order sets approver_options_New = Some fs"
    "pf_defaults pf fs = map_of (approverFlags @ kube)"
    and read: "\<And>argv m. pf_parse pf fs argv = Parsed m \<Longrightarrow>
       approver_read (flagVars order approver_options_New ++ m) = approver_options m"
    using approver_prepared [OF assms(1,4,5,3)] by blast
  show ?thesis
    using assms(2) fs
    by (auto simp: approver_NewCommand_def cobra_ok_def approver_command_def read
        split: parsed.split option.split)
qed

lemma csi_executes:
  assumes "pflag_ok pf" and "cobra_ok pf ex" and "distinct (map fst (csiFlags @ kube))"
    and "mset order = mset [''Driver'', ''cert-manager'', ''Volume'']"
    and "set sets = {''App'', ''Kubernetes'', ''Driver'', ''cert-manager'', ''Volume''}"
  shows "\<exists>cmd. csi_NewCommand pf kube order sets setV restErr env wait = Some cmd
    \<and> pf_defaults pf (cmd_Flags cmd) = map_of (csiFlags @ kube)
    \<and> (\<forall>argv. ex cmd argv = (case pf_parse pf (cmd_Flags cmd) argv of
          ParseError err \<Rightarrow> Fail err
        | HelpRequested \<Rightarrow> Ok ()
        | Parsed m \<Rightarrow> (case csi_command setV restErr env (csi_options m) of
            Inl err \<Rightarrow> Fail err | Inr r \<Rightarrow> wait r)))"
proof -
  obtain fs where fs: "addFlags pf kube order sets csi_options_New = Some fs"
    "pf_defaults pf fs = map_of (csiFlags @ kube)"
    and read: "\<And>argv m. pf_parse pf fs argv = Parsed m \<Longrightarrow>
       csi_read (flagVars order csi_options_New ++ m) = csi_options m"
    using csi_prepared [OF assms(1,4,5,3)] by blast
  show ?thesis
    using assms(2) fs
    by (auto simp: csi_NewCommand_def cobra_ok_def csi_command_def read
        split: parsed.split option.split)
qed

text \<open>
  The exit code of the driver: 2 when what it started panics, else 0 exactly when help was asked for
  or the driver ran and returned without an error.
\<close>

lemma csi_main_exit:
  assumes "pflag_ok pf" and "cobra_ok pf ex" and "distinct (map fst (csiFlags @ kube))"
    and "mset order = mset [''Driver'', ''cert-manager'', ''Volume'']"
    and "set sets = {''App'', ''Kubernetes'', ''Driver'', ''cert-manager'', ''Volume''}"
  shows "\<exists>cmd. csi_NewCommand pf kube order sets setV restErr env wait = Some cmd
    \<and> (let code = fst (snd (csi_main b ex pf kube order sets setV restErr env wait argv));
           p = pf_parse pf (cmd_Flags cmd) argv;
           run = (\<lambda>m. csi_command setV restErr env (csi_options m)) in
       (code = 2 \<longleftrightarrow> (\<exists>m r. p = Parsed m \<and> run m = Inr r \<and> wait r = Panic))
       \<and> (code = 0 \<longleftrightarrow> p = HelpRequested \<or> (\<exists>m r. p = Parsed m \<and> run m = Inr r \<and> wait r = Ok ())))"
proof -
  have exit: "(fst (program_exit x) = 2 \<longleftrightarrow> x = Panic) \<and> (fst (program_exit x) = 0 \<longleftrightarrow> x = Ok ())" for x
    by (cases x) simp_all
  obtain cmd where "csi_NewCommand pf kube order sets setV restErr env wait = Some cmd"
    "\<forall>argv. ex cmd argv = (case pf_parse pf (cmd_Flags cmd) argv of
          ParseError err \<Rightarrow> Fail err
        | HelpRequested \<Rightarrow> Ok ()
        | Parsed m \<Rightarrow> (case csi_command setV restErr env (csi_options m) of
            Inl err \<Rightarrow> Fail err | Inr r \<Rightarrow> wait r))"
    using csi_executes [OF assms] by blast
  then show ?thesis
    by (intro exI [of _ cmd]) (simp add: csi_main_def exit split: parsed.split sum.split)
qed

section \<open>An instance\<close>

definition exampleApproverEnv :: approver_env where
  "exampleApproverEnv = \<lparr>ae_clientErr = None, ae_NewManager = (\<lambda>_. None), ae_readyzErr = None, ae_addErr = None\<rparr>"

definition exampleCSIEnv :: csi_env where
  "exampleCSIEnv = \<lparr>se_caFile = Inr [1], se_watcherErr = None, se_watchErr = None, se_clientErr = None,
     se_fsErr = None, se_cmClientErr = None, se_driverErr = None\<rparr>"

lemmas exampleEnv_simps =
  flags_Complete_def exampleApproverEnv_def exampleCSIEnv_def approver_options_def csi_options_def strVar_def
  durationVar_def boolVar_def stringToStringVar_def runtimeconfig_New_def

lemma example_approver_starts: "\<exists>a. approver_command ed (\<lambda>_. None) None exampleApproverEnv (approver_options args) = Inr a"
  if "args ''issuer-name'' = None" "args ''runtime-issuance-config-map-name'' = None"
  using that by (simp add: approver_command_def approver_RunE_def exampleEnv_simps)

lemma example_csi_starts: "\<exists>ca d. csi_command (\<lambda>_. None) None exampleCSIEnv (csi_options args) = Inr (ca, d)"
  if "args ''issuer-name'' = None" "args ''runtime-issuance-config-map-name'' = None"
    "args ''source-ca-bundle'' = None"
proof -
  have "\<exists>d. driver_New opts None None None = Inr d" for opts by (simp add: driver_New_Inr)
  with that show ?thesis
    by (auto simp: csi_command_def csi_RunE_def exampleEnv_simps split: sum.split) (metis Inl_Inr_False)
qed

definition exampleKube :: "registration list" where
  "exampleKube = [(''kubeconfig'', FStr []), (''namespace'', FStr [])]"

lemma example_distinct:
  "distinct (map fst (approverFlags @ exampleKube))" "distinct (map fst (csiFlags @ exampleKube))"
  by (simp_all add: approverFlags_def csiFlags_def flag_lists exampleKube_def)

definition exampleExecute where
  "exampleExecute cmd argv = (case pf_parse examplePflag (cmd_Flags cmd) argv of
     ParseError err \<Rightarrow> Fail err
   | HelpRequested \<Rightarrow> Ok ()
   | Parsed m \<Rightarrow> (case cmd_PreRunE cmd m of Some err \<Rightarrow> Fail err | None \<Rightarrow> cmd_RunE cmd m))"

lemma exampleExecute_ok: "cobra_ok examplePflag exampleExecute"
  by (simp add: cobra_ok_def exampleExecute_def)

definition exampleZero :: cmdline where
  "exampleZero = [''certificate-request-duration'' \<mapsto> FDur 0]"

definition exampleZeroMeta :: Metadata where
  "exampleZeroMeta = \<lparr>md_VolumeID = [], md_NextIssuanceTime = None, md_VolumeContext = Map.empty\<rparr>"

lemma example_zero_request:
  "\<exists>ca d b. csi_command (\<lambda>_. None) None exampleCSIEnv (csi_options exampleZero) = Inr (ca, d)
     \<and> generateRequest exampleDriverDeps d exampleZeroMeta = Inr b"
proof -
  obtain ca d where d: "csi_command (\<lambda>_. None) None exampleCSIEnv (csi_options exampleZero) = Inr (ca, d)"
    using example_csi_starts [of exampleZero] by (auto simp: exampleZero_def)
  have rt: "ir_Name (cfg_IssuerRef (rt_Config (d_runtimeConfig d))) \<noteq> []"
    using csi_RunE_Inr(4) [OF csi_commandD [OF d], symmetric]
    by (simp add: exampleZero_def exampleEnv_simps memory_Config_def rc_NewMemory_def)
  have "\<exists>b. generateRequest exampleDriverDeps d exampleZeroMeta = Inr b"
    using generateRequest_plain [OF csi_RunE_Inr(5) [OF csi_commandD [OF d]],
        of exampleDriverDeps exampleZeroMeta "[]" "()" "''sandbox''" "''sleep''"] rt
    by (auto simp: driverOptionsOf_def exampleZero_def exampleEnv_simps exampleDriverDeps_def
        plainChar_def isAlnum_def)
  with d show ?thesis by blast
qed

section \<open>Properties\<close>

text \<open>C37: An approver and a driver started with the same flags agree, as long as the duration is not
  zero: the evaluator enforces the trust domain and the duration the driver requests, it expects
  the driver's own service account exactly when the driver creates requests with it, and both
  start with the same issuer configuration. The defaults of the two programs are therefore
  compatible.\<close>

theorem same_flags_agree:
  assumes "approver_command ed aset arest aenv (approver_options args) = Inr a"
    and "csi_command sset srest senv (csi_options args) = Inr (ca, d)"
    and "durationVar args ''certificate-request-duration'' 3600000000000 \<noteq> 0"
  shows "\<exists>i. ap_evaluator a = Evaluate ed i \<and> trustDomain i = d_trustDomain d
    \<and> certificateRequestDuration i = d_certificateRequestDuration d
    \<and> useOwnServiceAccount i = (\<not> d_clientForMetadata d)
    \<and> ap_runtimeConfig a = d_runtimeConfig d"
proof -
  have "ap_runtimeConfig a = d_runtimeConfig d"
    using approver_RunE_Inr(2) [OF approver_commandD [OF assms(1)]] csi_RunE_Inr(4) [OF csi_commandD [OF assms(2)]]
    by (simp add: approver_options_def csi_options_def)
  with approver_RunE_Inr(1) [OF approver_commandD [OF assms(1)]] csi_RunE_Inr(1-3) [OF csi_commandD [OF assms(2)]] assms(3) show ?thesis
    by (intro exI [of _ "\<lparr>trustDomain = ao_TrustDomain (approver_options args),
          certificateRequestDuration = ao_CertificateRequestDuration (approver_options args),
          useOwnServiceAccount = ao_UseOwnServiceAccount (approver_options args),
          driverServiceAccount = ao_DriverServiceAccount (approver_options args)\<rparr>"])
      (simp add: approver_options_def csi_options_def)
qed

theorem same_flags_agree_witness:
  "\<exists>a ca d i. approver_command exampleDeps (\<lambda>_. None) None exampleApproverEnv (approver_options Map.empty) = Inr a
     \<and> csi_command (\<lambda>_. None) None exampleCSIEnv (csi_options Map.empty) = Inr (ca, d)
     \<and> ap_evaluator a = Evaluate exampleDeps i \<and> trustDomain i = d_trustDomain d"
proof -
  obtain a where a: "approver_command exampleDeps (\<lambda>_. None) None exampleApproverEnv (approver_options Map.empty) = Inr a"
    using example_approver_starts [of Map.empty exampleDeps] by auto
  obtain ca d where d: "csi_command (\<lambda>_. None) None exampleCSIEnv (csi_options Map.empty) = Inr (ca, d)"
    using example_csi_starts [of Map.empty] by auto
  show ?thesis using same_flags_agree [OF a d] a d by (auto simp: durationVar_def)
qed

text \<open>C38: With \<open>--certificate-request-duration=0\<close> on both programs every request of the driver is
  denied: the driver replaces the zero by one hour, the evaluator enforces the zero.\<close>

theorem zero_duration_denies_all:
  assumes "approver_command ed aset arest aenv (approver_options args) = Inr a"
    and "csi_command sset srest senv (csi_options args) = Inr (ca, d)"
    and "args ''certificate-request-duration'' = Some (FDur 0)"
    and "generateRequest x d meta = Inr b" and "cr_Duration cr = Some (b_Duration b)"
  shows "ap_evaluator a cr \<noteq> None"
proof -
  have "b_Duration b = 3600000000000"
    using generateRequest_Duration [OF assms(4)] csi_RunE_Inr(2) [OF csi_commandD [OF assms(2)]] assms(3)
    by (simp add: csi_options_def durationVar_def)
  with approver_RunE_Inr(1) [OF approver_commandD [OF assms(1)]] assms(3,5) show ?thesis
    by (simp add: Evaluate_None approver_options_def durationVar_def)
qed

theorem zero_duration_denies_all_witness:
  "\<exists>a ca d b. approver_command exampleDeps (\<lambda>_. None) None exampleApproverEnv (approver_options exampleZero) = Inr a
     \<and> csi_command (\<lambda>_. None) None exampleCSIEnv (csi_options exampleZero) = Inr (ca, d)
     \<and> generateRequest exampleDriverDeps d exampleZeroMeta = Inr b
     \<and> ap_evaluator a (exampleRequest\<lparr>cr_Duration := Some (b_Duration b)\<rparr>) \<noteq> None"
proof -
  obtain a where a: "approver_command exampleDeps (\<lambda>_. None) None exampleApproverEnv (approver_options exampleZero) = Inr a"
    using example_approver_starts [of exampleZero exampleDeps] by (auto simp: exampleZero_def)
  obtain ca d b where d: "csi_command (\<lambda>_. None) None exampleCSIEnv (csi_options exampleZero) = Inr (ca, d)"
    and b: "generateRequest exampleDriverDeps d exampleZeroMeta = Inr b"
    using example_zero_request by blast
  show ?thesis
    using zero_duration_denies_all [OF a d _ b] a d b by (fastforce simp: exampleZero_def)
qed

text \<open>C17: Both programs take their options from the command line as documented, whatever the order in
  which Go iterates over the groups of flags: \<open>Prepare\<close> does not panic, the flags of the command are
  exactly those of the program and of \<open>genericclioptions\<close> with their defaults, every value that is set
  has the type of its flag, and executing the command returns a parse error, prints the help text, or
  completes and runs the program with each option set to the value given or to its default.\<close>

theorem programs_use_their_flags:
  assumes "pflag_ok pf" and "cobra_ok pf ex"
    and "distinct (map fst (approverFlags @ kube))" and "distinct (map fst (csiFlags @ kube))"
    and "mset aorder = mset [''cert-manager'', ''Controller'']"
    and "set asets = {''App'', ''Kubernetes'', ''cert-manager'', ''Controller''}"
    and "mset sorder = mset [''Driver'', ''cert-manager'', ''Volume'']"
    and "set ssets = {''App'', ''Kubernetes'', ''Driver'', ''cert-manager'', ''Volume''}"
  shows "(\<exists>cmd. approver_NewCommand pf kube aorder asets ed setV restErr aenv await = Some cmd
      \<and> pf_defaults pf (cmd_Flags cmd) = map_of (approverFlags @ kube)
      \<and> (\<forall>argv. ex cmd argv = (case pf_parse pf (cmd_Flags cmd) argv of
            ParseError err \<Rightarrow> Fail err
          | HelpRequested \<Rightarrow> Ok ()
          | Parsed m \<Rightarrow> (case approver_command ed setV restErr aenv (approver_options m) of
              Inl err \<Rightarrow> Fail err | Inr a \<Rightarrow> await a)))
      \<and> (\<forall>argv m. pf_parse pf (cmd_Flags cmd) argv = Parsed m \<longrightarrow> wellTyped approverFlags m))
    \<and> (\<exists>cmd. csi_NewCommand pf kube sorder ssets setV restErr senv swait = Some cmd
      \<and> pf_defaults pf (cmd_Flags cmd) = map_of (csiFlags @ kube)
      \<and> (\<forall>argv. ex cmd argv = (case pf_parse pf (cmd_Flags cmd) argv of
            ParseError err \<Rightarrow> Fail err
          | HelpRequested \<Rightarrow> Ok ()
          | Parsed m \<Rightarrow> (case csi_command setV restErr senv (csi_options m) of
              Inl err \<Rightarrow> Fail err | Inr r \<Rightarrow> swait r)))
      \<and> (\<forall>argv m. pf_parse pf (cmd_Flags cmd) argv = Parsed m \<longrightarrow> wellTyped csiFlags m))"
  using approver_executes [OF assms(1-3,5,6), of ed setV restErr aenv await]
    csi_executes [OF assms(1,2,4,7,8), of setV restErr senv swait]
    parsed_wellTyped [OF assms(1) _ assms(3)] parsed_wellTyped [OF assms(1) _ assms(4)]
  by meson

theorem programs_use_their_flags_witness:
  "\<exists>cmd. csi_NewCommand examplePflag exampleKube [''Volume'', ''Driver'', ''cert-manager'']
         [''Kubernetes'', ''cert-manager'', ''App'', ''Volume'', ''Driver''] (\<lambda>_. None) None exampleCSIEnv
         (\<lambda>(ca, d). if d_trustDomain d = ''foo.bar'' then Ok () else Panic) = Some cmd
     \<and> exampleExecute cmd [''trust-domain=foo.bar''] = Ok ()"
proof -
  let ?wait = "\<lambda>(ca, d). if d_trustDomain d = ''foo.bar'' then Ok () else Panic"
  obtain cmd where cmd: "csi_NewCommand examplePflag exampleKube [''Volume'', ''Driver'', ''cert-manager'']
         [''Kubernetes'', ''cert-manager'', ''App'', ''Volume'', ''Driver''] (\<lambda>_. None) None exampleCSIEnv ?wait = Some cmd"
    and flags: "pf_defaults examplePflag (cmd_Flags cmd) = map_of (csiFlags @ exampleKube)"
    and run: "\<forall>argv. exampleExecute cmd argv = (case pf_parse examplePflag (cmd_Flags cmd) argv of
            ParseError err \<Rightarrow> Fail err
          | HelpRequested \<Rightarrow> Ok ()
          | Parsed m \<Rightarrow> (case csi_command (\<lambda>_. None) None exampleCSIEnv (csi_options m) of
              Inl err \<Rightarrow> Fail err | Inr r \<Rightarrow> ?wait r))"
    using conjunct2 [OF programs_use_their_flags [OF examplePflag_ok exampleExecute_ok example_distinct,
        of "[''cert-manager'', ''Controller'']" "[''App'', ''Kubernetes'', ''cert-manager'', ''Controller'']"
           "[''Volume'', ''Driver'', ''cert-manager'']"
           "[''Kubernetes'', ''cert-manager'', ''App'', ''Volume'', ''Driver'']"
           exampleDeps "\<lambda>_. None" None exampleApproverEnv "\<lambda>_. Ok ()" exampleCSIEnv ?wait]]
    by force
  let ?m = "[''trust-domain'' \<mapsto> FStr ''foo.bar'']"
  have parsed: "pf_parse examplePflag (cmd_Flags cmd) [''trust-domain=foo.bar''] = Parsed ?m"
    using flags by (simp add: examplePflag_def csiFlags_def flag_lists)
  obtain ca d where d: "csi_command (\<lambda>_. None) None exampleCSIEnv (csi_options ?m) = Inr (ca, d)"
    using example_csi_starts [of ?m] by auto
  have "d_trustDomain d = ''foo.bar''"
    using csi_RunE_Inr(1) [OF csi_commandD [OF d]] by (simp add: csi_options_def strVar_def)
  with cmd run parsed d show ?thesis by simp
qed

end
