(* ===== verification/IssuerFlow.thy ===== *)
theory IssuerFlow
  imports Apps
begin

text \<open>
  The issuer configuration through both programs. Driver and approver are started from their
  flags and each watches the ConfigMap on its own: \<open>driver_after\<close> and \<open>approver_after\<close> are the two
  after the goroutine \<open>start\<close> of their source has received some events, which need not be the same.
  The property relates the issuer the driver asks and the issuer the approver guards.
\<close>

section \<open>Definitions\<close>

text \<open>A source after the events its goroutine received; a static source has no goroutine.\<close>

fun rt_after :: "rtConfig \<Rightarrow> loopEvent list \<Rightarrow> rtConfig" where
  "rt_after (ConfigMapImpl c) es = ConfigMapImpl (foldl start_step c es)"
| "rt_after (MemoryImpl m) es = MemoryImpl m"

definition driver_after :: "Driver \<Rightarrow> loopEvent list \<Rightarrow> Driver" where
  "driver_after d es = d\<lparr>d_runtimeConfig := rt_after (d_runtimeConfig d) es\<rparr>"

definition approver_after :: "approver \<Rightarrow> loopEvent list \<Rightarrow> approver" where
  "approver_after a es = a\<lparr>ap_runtimeConfig := rt_after (ap_runtimeConfig a) es\<rparr>"

text \<open>What the history of a source makes of the issuer given by the flags.\<close>

definition historyIssuer :: "cmdline \<Rightarrow> loopEvent list \<Rightarrow> IssuerReference" where
  "historyIssuer args es =
     cfg_IssuerRef (decisive \<lparr>cfg_IssuerRef = so_IssuerRef (csi_options args)\<rparr> (rev (delivered Starting es)))"

section \<open>Lemmas\<close>

lemma watched_source:
  assumes "runtimeconfig_New (name \<noteq> []) \<lparr>ro_StaticConfig = static,
      ro_DynamicConfig = \<lparr>dc_ConfigMapName = name, dc_ConfigMapNamespace = ns\<rparr>\<rparr> = Inr rt"
    and "name \<noteq> []"
  shows "rt_Config (rt_after rt es) = decisive static (rev (delivered Starting es))"
proof -
  have "rt = ConfigMapImpl (NewConfigMap name ns static)"
    using assms by (simp add: runtimeconfig_New_def)
  with run_decisive [of "NewConfigMap name ns static" "[]" es] show ?thesis
    by (simp add: NewConfigMap_def configmap_Config_def)
qed

text \<open>Both programs follow the history from the same flags.\<close>

lemma driver_after_issuer:
  assumes "csi_command sset srest senv (csi_options args) = Inr (ca, d)"
    and "so_IssuanceConfigMapName (csi_options args) \<noteq> []"
  shows "cfg_IssuerRef (rt_Config (d_runtimeConfig (driver_after d es))) = historyIssuer args es"
  using watched_source [OF csi_RunE_Inr(4) [OF csi_commandD [OF assms(1)]] assms(2)]
  by (simp add: driver_after_def historyIssuer_def)

lemma approver_after_issuer:
  assumes "approver_command ed aset arest aenv (approver_options args) = Inr a"
    and "so_IssuanceConfigMapName (csi_options args) \<noteq> []"
  shows "cfg_IssuerRef (rt_Config (ap_runtimeConfig (approver_after a es))) = historyIssuer args es"
proof -
  have "ao_IssuanceConfigMapName (approver_options args) \<noteq> []"
    "ao_IssuerRef (approver_options args) = so_IssuerRef (csi_options args)"
    using assms(2) by (simp_all add: approver_options_def csi_options_def)
  with watched_source [OF approver_RunE_Inr(2) [OF approver_commandD [OF assms(1)]]] show ?thesis
    by (simp add: approver_after_def historyIssuer_def)
qed

lemma driver_after_New:
  assumes "csi_command sset srest senv opts = Inr (ca, d)"
  shows "driver_New (driverOptionsOf opts (ca \<noteq> None) (rt_after (d_runtimeConfig d) es)) None None None
    = Inr (driver_after d es)"
  using csi_RunE_Inr(5) [OF csi_commandD [OF assms]]
  by (cases d) (simp add: driver_New_Inr driver_after_def driverOptionsOf_def)

lemma generateRequest_Issuer:
  "generateRequest x d meta = Inr b \<Longrightarrow>
   b_IssuerRef b = cfg_IssuerRef (rt_Config (d_runtimeConfig d)) \<and> ir_Name (b_IssuerRef b) \<noteq> []"
  by (auto simp: generateRequest_def Let_def split: sum.splits if_splits)

section \<open>An instance\<close>

definition exampleWatchArgs :: cmdline where
  "exampleWatchArgs = [''runtime-issuance-config-map-name'' \<mapsto> FStr ''issuer'']"

definition exampleIssuerEvents :: "loopEvent list" where
  "exampleIssuerEvents = [WatchStarted, ChanEvent (WatchAdded (ConfigMapObject
     [issuerNameKey \<mapsto> ''ca'', issuerKindKey \<mapsto> ''Issuer'', issuerGroupKey \<mapsto> ''cert-manager.io'']))]"

lemma exampleWatch_name: "so_IssuanceConfigMapName (csi_options exampleWatchArgs) \<noteq> []"
  by (simp add: exampleWatchArgs_def csi_options_def strVar_def)

lemma exampleWatch_approver:
  "\<exists>a. approver_command ed (\<lambda>_. None) None exampleApproverEnv (approver_options exampleWatchArgs) = Inr a"
  by (simp add: approver_command_def approver_RunE_def exampleEnv_simps exampleWatchArgs_def)

lemma exampleWatch_csi:
  "\<exists>ca d. csi_command (\<lambda>_. None) None exampleCSIEnv (csi_options exampleWatchArgs) = Inr (ca, d)"
proof -
  have "\<exists>d. driver_New opts None None None = Inr d" for opts by (simp add: driver_New_Inr)
  then show ?thesis
    by (auto simp: csi_command_def csi_RunE_def exampleEnv_simps exampleWatchArgs_def split: sum.split)
      (metis Inl_Inr_False)
qed

lemma exampleWatch_issuer:
  "historyIssuer exampleWatchArgs exampleIssuerEvents
     = \<lparr>ir_Name = ''ca'', ir_Kind = ''Issuer'', ir_Group = ''cert-manager.io''\<rparr>"
  by (simp add: historyIssuer_def exampleIssuerEvents_def dataConfig_def issuerNameKey_def issuerKindKey_def
      issuerGroupKey_def)

lemma exampleWatch_request:
  assumes "csi_command (\<lambda>_. None) None exampleCSIEnv (csi_options exampleWatchArgs) = Inr (ca, d)"
  shows "\<exists>b. generateRequest exampleDriverDeps (driver_after d exampleIssuerEvents) exampleZeroMeta = Inr b"
proof -
  have "cfg_IssuerRef (rt_Config (rt_after (d_runtimeConfig d) exampleIssuerEvents))
      = \<lparr>ir_Name = ''ca'', ir_Kind = ''Issuer'', ir_Group = ''cert-manager.io''\<rparr>"
    using driver_after_issuer [OF assms exampleWatch_name, of exampleIssuerEvents]
    by (simp add: exampleWatch_issuer driver_after_def)
  then show ?thesis
    using generateRequest_plain [OF driver_after_New [OF assms],
        of exampleIssuerEvents exampleDriverDeps exampleZeroMeta "[]" "()" "''sandbox''" "''sleep''"]
    by (auto simp: driverOptionsOf_def exampleWatchArgs_def exampleEnv_simps exampleDriverDeps_def
        plainChar_def isAlnum_def)
qed

section \<open>Properties\<close>

text \<open>C8: The issuer of the driver is guarded while the approver is up to date. Start both programs
  with the same flags, with a ConfigMap. After the driver has received the events \<open>es\<close> it asks the
  issuer of its latest decisive event (or that of the flags), never one without a name. A request
  without the identity annotation for that issuer is denied by an approver whose own events \<open>es'\<close>
  lead to the same issuer. An approver that is behind, or ahead, of the driver approves it when its CSR
  has no SPIFFE URI: the guard is on the issuer the approver has seen last, not on the one in use.\<close>

theorem issuer_guarded_when_in_sync:
  assumes "approver_command ed aset arest aenv (approver_options args) = Inr a"
    and "csi_command sset srest senv (csi_options args) = Inr (ca, d)"
    and "so_IssuanceConfigMapName (csi_options args) \<noteq> []" and "conditions_ok cd"
    and "generateRequest x (driver_after d es) meta = Inr b"
    and "cr_Annotations cr SPIFFEIdentityAnnnotationKey = None" and "cr_IssuerRef cr = b_IssuerRef b"
  shows "b_IssuerRef b = historyIssuer args es \<and> ir_Name (b_IssuerRef b) \<noteq> []
    \<and> (historyIssuer args es' = historyIssuer args es \<longrightarrow>
         CertificateRequestIsDenied cd (decideRequest cd (approver_after a es') cr))
    \<and> (historyIssuer args es' \<noteq> historyIssuer args es \<and> \<not> hasSpiffeURI cd cr \<longrightarrow>
         CertificateRequestIsApproved cd (decideRequest cd (approver_after a es') cr))"
proof -
  have b: "b_IssuerRef b = historyIssuer args es" "ir_Name (b_IssuerRef b) \<noteq> []"
    using generateRequest_Issuer [OF assms(5)] driver_after_issuer [OF assms(2,3), of es] by auto
  have "approves cd (approver_after a es') cr \<longleftrightarrow> \<not> hasSpiffeURI cd cr \<and> historyIssuer args es \<noteq> historyIssuer args es'"
    using assms(6,7) approver_after_issuer [OF assms(1,3), of es'] b(1) by (auto simp: approves_def)
  with b decideRequest_ok(1,2) [OF assms(4)] show ?thesis by auto
qed

theorem issuer_guarded_when_in_sync_witness:
  "\<exists>a. approver_command exampleDeps (\<lambda>_. None) None exampleApproverEnv (approver_options exampleWatchArgs) = Inr a
     \<and> CertificateRequestIsDenied exampleD (decideRequest exampleD (approver_after a exampleIssuerEvents)
         (exampleRequest\<lparr>cr_Annotations := Map.empty, cr_IssuerRef :=
            \<lparr>ir_Name = ''ca'', ir_Kind = ''Issuer'', ir_Group = ''cert-manager.io''\<rparr>\<rparr>))"
proof -
  obtain a where a: "approver_command exampleDeps (\<lambda>_. None) None exampleApproverEnv
      (approver_options exampleWatchArgs) = Inr a" using exampleWatch_approver by blast
  obtain ca d where d: "csi_command (\<lambda>_. None) None exampleCSIEnv (csi_options exampleWatchArgs) = Inr (ca, d)"
    using exampleWatch_csi by blast
  obtain b where b: "generateRequest exampleDriverDeps (driver_after d exampleIssuerEvents) exampleZeroMeta = Inr b"
    using exampleWatch_request [OF d] by blast
  let ?cr = "exampleRequest\<lparr>cr_Annotations := Map.empty, cr_IssuerRef := b_IssuerRef b\<rparr>"
  have "cr_Annotations ?cr SPIFFEIdentityAnnnotationKey = None" "cr_IssuerRef ?cr = b_IssuerRef b" by simp_all
  from issuer_guarded_when_in_sync [OF a d exampleWatch_name exampleD_ok b this, of exampleIssuerEvents] a
  show ?thesis unfolding exampleWatch_issuer by auto
qed

end
