(* ===== verification/TrustBundle.thy ===== *)
theory TrustBundle
  imports Driver
begin

text \<open>
  What the parts that a trust bundle passes share: the file source of \<open>rootca\<close>, the CA manager, the
  driver and the storage of the volumes, as the constants of a run, with what is relied on of them.
  \<open>Interleaving\<close> and \<open>BundleCalls\<close> run these parts call by call.
\<close>

section \<open>Definitions\<close>

text \<open>The constants of a run: the parameters, the driver, and the channel of the CA manager.\<close>

record ('j, 'k, 's) bundle_env =
  be_ops :: fsOps
  be_deps :: "('j, 'k) driver_deps"
  be_storage :: "'s storage"
  be_driver :: Driver
  be_channel :: nat

text \<open>
  What this part relies on of the storage besides \<^const>\<open>storage_ok\<close>: a failed write of files
  leaves the files as they were, and writing metadata lists at most the volume written.
\<close>

definition managed :: "'s storage \<Rightarrow> 's \<Rightarrow> string \<Rightarrow> bool" where
  "managed st s v \<longleftrightarrow> (\<exists>vs. ListVolumes st s = Inr vs \<and> v \<in> set vs)"

definition storage_atomic :: "'s storage \<Rightarrow> bool" where
  "storage_atomic st \<longleftrightarrow>
     (\<forall>s s' e m data. WriteFiles st m data s = (Some e, s') \<longrightarrow> ReadFile st s' = ReadFile st s)
     \<and> (\<forall>s s' r m data. WriteFiles st m data s = (r, s') \<longrightarrow> ListVolumes st s' = ListVolumes st s)
     \<and> (\<forall>s s' r v m u. WriteMetadata st v m s = (r, s') \<longrightarrow> managed st s' u \<longrightarrow> u = v \<or> managed st s u)"

text \<open>Every managed volume that has a CA file has the current bundle in it.\<close>

definition consistent :: "('j, 'k, 's) bundle_env \<Rightarrow> bytes \<Rightarrow> 's \<Rightarrow> bool" where
  "consistent env pem s \<longleftrightarrow>
     (\<forall>v c. managed (be_storage env) s v \<longrightarrow>
        ReadFile (be_storage env) s v (d_caFileName (be_driver env)) = Inr c \<longrightarrow> c = pem)"

text \<open>The driver of the environment writes the bundle where the CA manager updates it.\<close>

definition bundle_env_ok :: "('j, 'k, 's) bundle_env \<Rightarrow> bool" where
  "bundle_env_ok env \<longleftrightarrow>
     storage_ok (be_storage env) \<and> storage_atomic (be_storage env)
     \<and> d_rootCAs (be_driver env)
     \<and> distinct [d_certFileName (be_driver env), d_keyFileName (be_driver env), d_caFileName (be_driver env)]
     \<and> d_camanager (be_driver env) = newCAManager True (d_certFileName (be_driver env))
          (d_keyFileName (be_driver env)) (d_caFileName (be_driver env))"

section \<open>An instance\<close>

definition exampleBundleOptions :: DriverOptions where
  "exampleBundleOptions = exampleOptions\<lparr>o_CertificateFileName := ''tls.crt'', o_KeyFileName := ''tls.key'',
     o_CAFileName := ''ca.crt''\<rparr>"

definition exampleBundleDriver :: Driver where
  "exampleBundleDriver = (case driver_New exampleBundleOptions None None None of Inr d \<Rightarrow> d)"

definition exampleBundleEnv :: "(unit, unit, volumes) bundle_env" where
  "exampleBundleEnv = \<lparr>be_ops = exampleOps, be_deps = exampleDriverDeps, be_storage = exampleStorage,
     be_driver = exampleBundleDriver, be_channel = 0\<rparr>"

lemma exampleBundleDriver_New: "driver_New exampleBundleOptions None None None = Inr exampleBundleDriver"
  by (auto simp: exampleBundleDriver_def driver_New_def Let_def split: prod.split)

lemma driver_New_bundle:
  assumes "driver_New opts None None None = Inr d"
  shows "d_rootCAs d = o_RootCAs opts"
    and "d_camanager d = newCAManager (o_RootCAs opts) (o_CertificateFileName opts) (o_KeyFileName opts)
           (o_CAFileName opts)"
  using assms by (auto simp: driver_New_Inr)

lemma exampleStorage_atomic: "storage_atomic exampleStorage"
  by (auto simp: storage_atomic_def managed_def exampleStorage_def)

lemma exampleBundleEnv_ok: "bundle_env_ok exampleBundleEnv"
  using driver_New_names [OF exampleBundleDriver_New] driver_New_bundle [OF exampleBundleDriver_New]
  by (simp add: bundle_env_ok_def exampleBundleEnv_def exampleStorage_ok exampleStorage_atomic
      exampleBundleOptions_def exampleOptions_def)

lemma exampleBundle_manager: "d_camanager exampleBundleDriver = exampleManager"
  using driver_New_bundle [OF exampleBundleDriver_New]
  by (simp add: exampleManager_def exampleBundleOptions_def exampleOptions_def)

end
