(* ===== verification/Interleaving.thy ===== *)
theory Interleaving
  imports TrustBundle
begin

text \<open>
  The CA manager and the driver at work on the same volumes, at the granularity of the calls they
  make. \<open>visit_next\<close> is one call of the loop body of \<open>updateRootCAFiles\<close>, \<open>issue_next\<close> one call of
  \<open>writeKeypair\<close>; run without interruption they are \<open>updateVolume\<close> and \<open>writeKeypair\<close>. A \<open>node\<close> has
  the goroutine of the CA manager, one goroutine per volume for which csi-lib issues a
  certificate, the bundle and the storage; \<open>node_run\<close> executes a schedule of their calls, any
  schedule, as the code takes no lock around the two.
\<close>

section \<open>Definitions\<close>

subsection \<open>The calls of one visit of the CA manager\<close>

text \<open>What the goroutine holds in its variables after each call.\<close>

datatype visit =
    VStart
  | VMeta Metadata
  | VCert Metadata bytes
  | VKey Metadata bytes bytes
  | VCA Metadata bytes bytes "goerr + bytes"  \<comment> \<open>the CA file has been read\<close>
  | VDiff Metadata bytes bytes  \<comment> \<open>it is missing or differs from the bundle\<close>
  | VPEM Metadata bytes bytes bytes  \<comment> \<open>the bundle to write has been read\<close>
  | VDone "goerr option"

text \<open>\<open>pem\<close> is what a call of \<open>CertificatesPEM\<close> returns at this moment.\<close>

fun visit_next :: "'s storage \<Rightarrow> camanager \<Rightarrow> string \<Rightarrow> bytes \<Rightarrow> visit \<Rightarrow> 's \<Rightarrow> visit \<times> 's" where
  "visit_next st c v pem VStart s =
     (case ReadMetadata st s v of
        Inl err \<Rightarrow> (VDone (Some (Wrapf ''%q: failed to read metadata from volume: %w'' [VStr v] err)), s)
      | Inr meta \<Rightarrow> (VMeta meta, s))"
| "visit_next st c v pem (VMeta meta) s =
     (case ReadFile st s v (cam_certFileName c) of
        Inl err \<Rightarrow> (VDone (Some (Wrapf
          ''%q: failed to read certificate file from volume to perform write: %w'' [VStr v] err)), s)
      | Inr certData \<Rightarrow> (VCert meta certData, s))"
| "visit_next st c v pem (VCert meta certData) s =
     (case ReadFile st s v (cam_keyFileName c) of
        Inl err \<Rightarrow> (VDone (Some (Wrapf
          ''%q: failed to read key file from volume to perform write: %w'' [VStr v] err)), s)
      | Inr keyData \<Rightarrow> (VKey meta certData keyData, s))"
| "visit_next st c v pem (VKey meta certData keyData) s =
     (VCA meta certData keyData (ReadFile st s v (cam_caFileName c)), s)"
| "visit_next st c v pem (VCA meta certData keyData ca) s =
     (case ca of
        Inl err \<Rightarrow> (VDiff meta certData keyData, s)
      | Inr caData \<Rightarrow> (if caData = pem then VDone None else VDiff meta certData keyData, s))"
| "visit_next st c v pem (VDiff meta certData keyData) s = (VPEM meta certData keyData pem, s)"
| "visit_next st c v pem (VPEM meta certData keyData p) s =
     (case WriteFiles st meta
        [cam_certFileName c \<mapsto> certData, cam_keyFileName c \<mapsto> keyData, cam_caFileName c \<mapsto> p] s of
        (Some err, s') \<Rightarrow>
          (VDone (Some (Wrapf ''%q: failed to write new ca data to volume: %w'' [VStr v] err)), s')
      | (None, s') \<Rightarrow> (VDone None, s'))"
| "visit_next st c v pem (VDone r) s = (VDone r, s)"

fun visiting :: "visit \<Rightarrow> bool" where
  "visiting (VDone r) = False"
| "visiting _ = True"

subsection \<open>The calls of one issuance\<close>

text \<open>
  Before its first write \<open>writeKeypair\<close> calls nothing shared but \<open>CertificatesPEM\<close>: \<open>IFiles\<close> holds
  the encoded key, the bundle and the renewal time.
\<close>

datatype issue = IStart | IFiles bytes bytes int | IWritten int | IDone "unit outcome"

record 'k job =
  job_meta :: Metadata
  job_key :: 'k
  job_chain :: bytes
  job_pc :: issue

fun issue_next ::
    "('j, 'k) driver_deps \<Rightarrow> 's storage \<Rightarrow> Driver \<Rightarrow> bytes \<Rightarrow> Metadata \<Rightarrow> 'k \<Rightarrow> bytes \<Rightarrow> issue \<Rightarrow> 's \<Rightarrow>
     issue \<times> 's" where
  "issue_next x st d pem meta key chain IStart s =
     (case MarshalPKCS8PrivateKey x key of
        Inl err \<Rightarrow>
          (IDone (Fail (Wrapf ''failed to marshal ECDSA private key for PEM encoding: %w'' [] err)), s)
      | Inr pemBytes \<Rightarrow>
      case calculateNextIssuanceTime x chain of
        Panic \<Rightarrow> (IDone Panic, s)
      | Fail err \<Rightarrow> (IDone (Fail (Wrapf ''failed to calculate next issuance time: %w'' [] err)), s)
      | Ok t \<Rightarrow> (IFiles (EncodeToMemory ''PRIVATE KEY'' pemBytes) pem t, s))"
| "issue_next x st d pem meta key chain (IFiles keyPEM p t) s =
     (case WriteFiles st meta (keypairFiles d p chain keyPEM) s of
        (Some err, s') \<Rightarrow> (IDone (Fail (Wrapf ''writing data: %w'' [] err)), s')
      | (None, s') \<Rightarrow> (IWritten t, s'))"
| "issue_next x st d pem meta key chain (IWritten t) s =
     (case WriteMetadata st (md_VolumeID meta) (meta\<lparr>md_NextIssuanceTime := Some t\<rparr>) s of
        (Some err, s') \<Rightarrow> (IDone (Fail (Wrapf ''writing metadata: %w'' [] err)), s')
      | (None, s') \<Rightarrow> (IDone (Ok ()), s'))"
| "issue_next x st d pem meta key chain (IDone r) s = (IDone r, s)"

subsection \<open>A node\<close>

text \<open>
  The last four fields are not in the program, they record what the properties speak about: the
  pair of certificate and key last written by the driver to each volume; the volumes whose last
  such write came while a visit of the CA manager held files of the volume it had read before; the
  volumes whose last write was an issuance with a bundle that was not the current one any more;
  and whether the visit began after the latest change of the bundle.
\<close>

fun holdsFiles :: "visit \<Rightarrow> bool" where
  "holdsFiles (VDone r) = False"
| "holdsFiles VStart = False"
| "holdsFiles (VMeta m) = False"
| "holdsFiles _ = True"

record ('k, 's) node =
  nd_pem :: bytes
  nd_volume :: string
  nd_visit :: visit
  nd_jobs :: "string \<rightharpoonup> 'k job"
  nd_store :: 's
  nd_last :: "string \<rightharpoonup> bytes \<times> bytes"
  nd_overtaken :: "string set"
  nd_stale :: "string set"
  nd_current :: bool

datatype 'k call = Change bytes | Visit string | VisitCall | Issue Metadata 'k bytes | IssueCall string

definition visit_call ::
    "('j, 'k, 's) bundle_env \<Rightarrow> ('k, 's) node \<Rightarrow> ('k, 's) node" where
  "visit_call env n =
     (case visit_next (be_storage env) (d_camanager (be_driver env)) (nd_volume n) (nd_pem n)
             (nd_visit n) (nd_store n) of
        (q, s') \<Rightarrow> n\<lparr>nd_visit := q, nd_store := s',
          nd_stale := (case nd_visit n of
             VPEM m c k p \<Rightarrow> if q = VDone None then nd_stale n - {nd_volume n} else nd_stale n
           | _ \<Rightarrow> nd_stale n)\<rparr>)"

definition issue_call ::
    "('j, 'k, 's) bundle_env \<Rightarrow> string \<Rightarrow> 'k job \<Rightarrow> ('k, 's) node \<Rightarrow> ('k, 's) node" where
  "issue_call env v j n =
     (case issue_next (be_deps env) (be_storage env) (be_driver env) (nd_pem n)
             (job_meta j) (job_key j) (job_chain j) (job_pc j) (nd_store n) of
        (q, s') \<Rightarrow>
          let n' = n\<lparr>nd_jobs := (nd_jobs n)(v := (case q of IDone r \<Rightarrow> None | _ \<Rightarrow> Some (j\<lparr>job_pc := q\<rparr>))),
                     nd_store := s'\<rparr> in
          (case (job_pc j, q) of
             (IFiles keyPEM p t, IWritten t') \<Rightarrow>
               n'\<lparr>nd_last := (nd_last n)(v \<mapsto> (job_chain j, keyPEM)),
                  nd_overtaken := (if holdsFiles (nd_visit n) \<and> nd_volume n = v
                                   then insert v (nd_overtaken n) else nd_overtaken n - {v}),
                  nd_stale := (if p = nd_pem n then nd_stale n - {v} else insert v (nd_stale n))\<rparr>
           | _ \<Rightarrow> n'))"

text \<open>A call that is not possible in a state is \<open>None\<close>.\<close>

fun node_call :: "('j, 'k, 's) bundle_env \<Rightarrow> 'k call \<Rightarrow> ('k, 's) node \<Rightarrow> ('k, 's) node option" where
  "node_call env (Change pem) n = Some (n\<lparr>nd_pem := pem, nd_current := False\<rparr>)"
| "node_call env (Visit v) n =
     (if \<not> visiting (nd_visit n)
      then Some (n\<lparr>nd_volume := v, nd_visit := VStart, nd_current := True\<rparr>) else None)"
| "node_call env VisitCall n =
     (if visiting (nd_visit n) then Some (visit_call env n) else None)"
| "node_call env (Issue meta key chain) n =
     (if nd_jobs n (md_VolumeID meta) = None
      then Some (n\<lparr>nd_jobs := (nd_jobs n)(md_VolumeID meta \<mapsto>
             \<lparr>job_meta = meta, job_key = key, job_chain = chain, job_pc = IStart\<rparr>)\<rparr>) else None)"
| "node_call env (IssueCall v) n =
     (case nd_jobs n v of None \<Rightarrow> None | Some j \<Rightarrow> Some (issue_call env v j n))"

fun node_run ::
    "('j, 'k, 's) bundle_env \<Rightarrow> 'k call list \<Rightarrow> ('k, 's) node \<Rightarrow> ('k, 's) node option" where
  "node_run env [] n = Some n"
| "node_run env (a # as) n =
     (case node_call env a n of None \<Rightarrow> None | Some n' \<Rightarrow> node_run env as n')"

text \<open>No goroutine is at work; the start, with no recorded pair.\<close>

definition idle :: "('k, 's) node \<Rightarrow> bool" where
  "idle n \<longleftrightarrow> \<not> visiting (nd_visit n) \<and> nd_jobs n = Map.empty"

definition node_init :: "bytes \<Rightarrow> 's \<Rightarrow> ('k, 's) node" where
  "node_init pem s = \<lparr>nd_pem = pem, nd_volume = [], nd_visit = VDone None, nd_jobs = Map.empty,
     nd_store = s, nd_last = Map.empty, nd_overtaken = {}, nd_stale = {}, nd_current = False\<rparr>"

section \<open>Lemmas: one goroutine alone\<close>

text \<open>
  The calls of a visit, made one after the other with nothing in between, are \<open>updateVolume\<close> (the
  body of the loop of \<open>updateRootCAFiles\<close>) on every branch, and the calls of an issuance are
  \<open>writeKeypair\<close>: seven and three calls are enough to finish.
\<close>

lemma visit_alone:
  "((\<lambda>(q, s). visit_next st c v pem q s) ^^ 7) (VStart, s) =
     (case updateVolume st c (\<lambda>_. pem) v k s of (r, k', s') \<Rightarrow> (VDone r, s'))"
  by (auto simp: numeral_eq_Suc updateVolume_def split: result_splits)

lemma issue_alone:
  "((\<lambda>(q, s). issue_next x st d pem meta key chain q s) ^^ 3) (IStart, s) =
     (case writeKeypair x st d pem meta key chain s of (r, s') \<Rightarrow> (IDone r, s'))"
  by (simp add: numeral_eq_Suc writeKeypair_def Let_def split: result_splits)

section \<open>Lemmas: the invariant of all schedules\<close>

text \<open>The contents of a volume as the two goroutines read them.\<close>

abbreviation certIs :: "('j, 'k, 's) bundle_env \<Rightarrow> 's \<Rightarrow> string \<Rightarrow> bytes \<Rightarrow> bool" where
  "certIs env s v c \<equiv> ReadFile (be_storage env) s v (d_certFileName (be_driver env)) = Inr c"

abbreviation keyIs :: "('j, 'k, 's) bundle_env \<Rightarrow> 's \<Rightarrow> string \<Rightarrow> bytes \<Rightarrow> bool" where
  "keyIs env s v k \<equiv> ReadFile (be_storage env) s v (d_keyFileName (be_driver env)) = Inr k"

abbreviation caIs :: "('j, 'k, 's) bundle_env \<Rightarrow> 's \<Rightarrow> string \<Rightarrow> bytes \<Rightarrow> bool" where
  "caIs env s v p \<equiv> ReadFile (be_storage env) s v (d_caFileName (be_driver env)) = Inr p"

text \<open>
  What the variables of a visit say about the volume: the files it holds are those of the volume,
  unless the driver has written since; and if no bundle has come since the visit began, the CA
  file is the one it has read, the current one, or one left by an issuance that was late.
\<close>

abbreviation pairKnown :: "('j, 'k, 's) bundle_env \<Rightarrow> ('k, 's) node \<Rightarrow> bytes \<Rightarrow> bytes \<Rightarrow> bool" where
  "pairKnown env n c k \<equiv> nd_volume n \<in> nd_overtaken n
     \<or> certIs env (nd_store n) (nd_volume n) c \<and> keyIs env (nd_store n) (nd_volume n) k"

abbreviation caKnown :: "('j, 'k, 's) bundle_env \<Rightarrow> ('k, 's) node \<Rightarrow> goerr + bytes \<Rightarrow> bool" where
  "caKnown env n ca \<equiv> nd_current n \<longrightarrow>
     ReadFile (be_storage env) (nd_store n) (nd_volume n) (d_caFileName (be_driver env)) = ca
     \<or> caIs env (nd_store n) (nd_volume n) (nd_pem n) \<or> nd_volume n \<in> nd_stale n"

fun visit_knows :: "('j, 'k, 's) bundle_env \<Rightarrow> ('k, 's) node \<Rightarrow> visit \<Rightarrow> bool" where
  "visit_knows env n (VMeta m) \<longleftrightarrow> md_VolumeID m = nd_volume n"
| "visit_knows env n (VCert m c) \<longleftrightarrow> md_VolumeID m = nd_volume n
     \<and> (nd_volume n \<in> nd_overtaken n \<or> certIs env (nd_store n) (nd_volume n) c)"
| "visit_knows env n (VKey m c k) \<longleftrightarrow> md_VolumeID m = nd_volume n \<and> pairKnown env n c k"
| "visit_knows env n (VCA m c k ca) \<longleftrightarrow> md_VolumeID m = nd_volume n \<and> pairKnown env n c k \<and> caKnown env n ca"
| "visit_knows env n (VDiff m c k) \<longleftrightarrow> md_VolumeID m = nd_volume n \<and> pairKnown env n c k"
| "visit_knows env n (VPEM m c k p) \<longleftrightarrow> md_VolumeID m = nd_volume n \<and> pairKnown env n c k
     \<and> (nd_current n \<longrightarrow> p = nd_pem n)"
| "visit_knows env n _ \<longleftrightarrow> True"

definition node_inv :: "('j, 'k, 's) bundle_env \<Rightarrow> ('k, 's) node \<Rightarrow> bool" where
  "node_inv env n \<longleftrightarrow>
     (\<forall>v c k. nd_last n v = Some (c, k) \<longrightarrow> v \<notin> nd_overtaken n \<longrightarrow>
        certIs env (nd_store n) v c \<and> keyIs env (nd_store n) v k)
     \<and> (\<forall>v j. nd_jobs n v = Some j \<longrightarrow> md_VolumeID (job_meta j) = v)
     \<and> visit_knows env n (nd_visit n)"

text \<open>
  A volume is up to date when its CA file, if it has one, holds the current bundle, or else was
  left by an issuance that was late.
\<close>

definition upToDate :: "('j, 'k, 's) bundle_env \<Rightarrow> ('k, 's) node \<Rightarrow> string \<Rightarrow> bool" where
  "upToDate env n v \<longleftrightarrow> v \<in> nd_stale n \<or> (\<forall>c. caIs env (nd_store n) v c \<longrightarrow> c = nd_pem n)"

lemma bundle_env_names:
  assumes "bundle_env_ok env"
  shows "cam_certFileName (d_camanager (be_driver env)) = d_certFileName (be_driver env)"
    and "cam_keyFileName (d_camanager (be_driver env)) = d_keyFileName (be_driver env)"
    and "cam_caFileName (d_camanager (be_driver env)) = d_caFileName (be_driver env)"
    and "d_rootCAs (be_driver env)"
    and "distinct [d_certFileName (be_driver env), d_keyFileName (be_driver env), d_caFileName (be_driver env)]"
    and "storage_ok (be_storage env)" and "storage_atomic (be_storage env)"
  using assms by (simp_all add: bundle_env_ok_def newCAManager_def)

lemma WriteFiles_failed:
  "storage_atomic st \<Longrightarrow> WriteFiles st m data s = (Some e, s') \<Longrightarrow> ReadFile st s' = ReadFile st s"
  unfolding storage_atomic_def by metis

text \<open>Both goroutines write three files; the map is the same up to the order of its entries.\<close>

lemma keypairFiles_CA:
  "d_rootCAs d \<Longrightarrow> keypairFiles d p chain keyPEM =
     [d_certFileName d \<mapsto> chain, d_keyFileName d \<mapsto> keyPEM, d_caFileName d \<mapsto> p]"
  by (simp add: keypairFiles_def Let_def)

lemma three_files:
  assumes "bundle_env_ok env" and "md_VolumeID m = v"
    and "WriteFiles (be_storage env) m [d_certFileName (be_driver env) \<mapsto> c,
           d_keyFileName (be_driver env) \<mapsto> k, d_caFileName (be_driver env) \<mapsto> p] s = (None, s')"
  shows "certIs env s' v c" and "keyIs env s' v k" and "caIs env s' v p"
    and "u \<noteq> v \<Longrightarrow> ReadFile (be_storage env) s' u = ReadFile (be_storage env) s u"
  using WriteFiles_same [OF bundle_env_names(6) [OF assms(1)] assms(3) _ assms(2)]
    WriteFiles_other [OF bundle_env_names(6) [OF assms(1)] assms(3)] bundle_env_names(5) [OF assms(1)] assms(2)
  by (auto simp: fun_eq_iff)

text \<open>The steps of a visit that only read.\<close>

lemma visit_next_read:
  assumes "bundle_env_ok env" and "visit_knows env n (nd_visit n)" and "visiting (nd_visit n)"
    and "\<nexists>m c k p. nd_visit n = VPEM m c k p"
  shows "\<exists>q. visit_next (be_storage env) (d_camanager (be_driver env)) (nd_volume n) (nd_pem n)
      (nd_visit n) (nd_store n) = (q, nd_store n)
    \<and> visit_knows env n q \<and> (q = VDone None \<longrightarrow> nd_current n \<longrightarrow> upToDate env n (nd_volume n))"
proof -
  note names = bundle_env_names [OF assms(1)]
  have id: "ReadMetadata (be_storage env) (nd_store n) v = Inr m \<Longrightarrow> md_VolumeID m = v" for v m
    using ReadMetadata_id [OF names(6)] .
  show ?thesis
    using assms(2-4) by (cases "nd_visit n") (auto simp: names id upToDate_def split: sum.split)
qed

text \<open>A call of a visit: a read, the write of the files, or a write that failed.\<close>

lemma visit_call_cases:
  assumes "bundle_env_ok env" and "visit_knows env n (nd_visit n)" and "visiting (nd_visit n)"
  obtains (looked) q where "visit_call env n = n\<lparr>nd_visit := q\<rparr>" "visit_knows env n q"
      "q = VDone None \<Longrightarrow> nd_current n \<Longrightarrow> upToDate env n (nd_volume n)"
  | (written) m c k p s' where "nd_visit n = VPEM m c k p"
      "visit_call env n = n\<lparr>nd_visit := VDone None, nd_store := s', nd_stale := nd_stale n - {nd_volume n}\<rparr>"
      "certIs env s' (nd_volume n) c" "keyIs env s' (nd_volume n) k" "caIs env s' (nd_volume n) p"
      "\<forall>u. u \<noteq> nd_volume n \<longrightarrow> ReadFile (be_storage env) s' u = ReadFile (be_storage env) (nd_store n) u"
      "ListVolumes (be_storage env) s' = ListVolumes (be_storage env) (nd_store n)"
  | (refused) err s' where "visit_call env n = n\<lparr>nd_visit := VDone (Some err), nd_store := s'\<rparr>"
      "ReadFile (be_storage env) s' = ReadFile (be_storage env) (nd_store n)"
      "ListVolumes (be_storage env) s' = ListVolumes (be_storage env) (nd_store n)"
proof (cases "\<exists>m c k p. nd_visit n = VPEM m c k p")
  case False
  from visit_next_read [OF assms False] obtain q where q: "visit_next (be_storage env)
      (d_camanager (be_driver env)) (nd_volume n) (nd_pem n) (nd_visit n) (nd_store n) = (q, nd_store n)"
    "visit_knows env n q" "q = VDone None \<longrightarrow> nd_current n \<longrightarrow> upToDate env n (nd_volume n)" by blast
  have "visit_call env n = n\<lparr>nd_visit := q, nd_store := nd_store n, nd_stale := nd_stale n\<rparr>"
    using False by (auto simp: visit_call_def q(1) split: visit.split)
  also have "\<dots> = n\<lparr>nd_visit := q\<rparr>" by (cases n) simp
  finally have "visit_call env n = n\<lparr>nd_visit := q\<rparr>" .
  with q show ?thesis by (intro looked) blast+
next
  case True
  then obtain m c k p where v: "nd_visit n = VPEM m c k p" by blast
  note names = bundle_env_names [OF assms(1)]
  have id: "md_VolumeID m = nd_volume n" using assms(2) v by simp
  obtain r s' where w: "WriteFiles (be_storage env) m [d_certFileName (be_driver env) \<mapsto> c,
      d_keyFileName (be_driver env) \<mapsto> k, d_caFileName (be_driver env) \<mapsto> p] (nd_store n) = (r, s')"
    by fastforce
  have ls: "ListVolumes (be_storage env) s' = ListVolumes (be_storage env) (nd_store n)"
    using names(7) w unfolding storage_atomic_def by metis
  show ?thesis
  proof (cases r)
    case None
    note three = three_files [OF assms(1) id w [unfolded None]]
    show ?thesis
      by (rule written [OF v _ three(1-3) _ ls]) (use three(4) in \<open>simp_all add: visit_call_def v names w None\<close>)
  next
    case (Some err)
    then have "visit_call env n = n\<lparr>nd_visit := VDone (Some (Wrapf
        ''%q: failed to write new ca data to volume: %w'' [VStr (nd_volume n)] err)), nd_store := s'\<rparr>"
      using w v by (simp add: visit_call_def names)
    from refused [OF this _ ls] show ?thesis using WriteFiles_failed [OF names(7)] w Some by blast
  qed
qed

text \<open>What a visit knows depends on the volume it is at.\<close>

lemma visit_knows_cong:
  "nd_volume n' = nd_volume n \<Longrightarrow> nd_pem n' = nd_pem n \<Longrightarrow> nd_current n' = nd_current n \<Longrightarrow>
   (nd_volume n \<in> nd_overtaken n' \<longleftrightarrow> nd_volume n \<in> nd_overtaken n) \<Longrightarrow>
   (nd_volume n \<in> nd_stale n' \<longleftrightarrow> nd_volume n \<in> nd_stale n) \<Longrightarrow>
   ReadFile (be_storage env) (nd_store n') (nd_volume n) =
      ReadFile (be_storage env) (nd_store n) (nd_volume n) \<Longrightarrow>
   visit_knows env n' q = visit_knows env n q"
  by (cases q) auto

lemma node_inv_visit:
  assumes "bundle_env_ok env" and "node_inv env n" and "visiting (nd_visit n)"
  shows "node_inv env (visit_call env n)"
proof -
  have "visit_knows env n (nd_visit n)" using assms(2) by (simp add: node_inv_def)
  from assms(1) this assms(3) show ?thesis
  proof (cases rule: visit_call_cases)
    case (looked q)
    have "visit_knows env (n\<lparr>nd_visit := q\<rparr>) q" using looked(2) by (subst visit_knows_cong [of _ n]) simp_all
    with assms(2) show ?thesis by (simp add: looked(1) node_inv_def)
  next
    case (written m c k p s')
    have pair: "nd_volume n \<in> nd_overtaken n
        \<or> certIs env (nd_store n) (nd_volume n) c \<and> keyIs env (nd_store n) (nd_volume n) k"
      using assms(2) written(1) by (simp add: node_inv_def)
    have "certIs env s' u c' \<and> keyIs env s' u k'" if "nd_last n u = Some (c', k')" "u \<notin> nd_overtaken n" for u c' k'
    proof (cases "u = nd_volume n")
      case True
      with that assms(2) pair have "c' = c \<and> k' = k" by (auto simp: node_inv_def)
      with True written(3,4) show ?thesis by simp
    next
      case False
      with that assms(2) written(6) show ?thesis by (simp add: node_inv_def)
    qed
    with assms(2) show ?thesis by (simp add: written(2) node_inv_def)
  next
    case (refused err s')
    with assms(2) show ?thesis by (simp add: node_inv_def)
  qed
qed

text \<open>A call of an issuance: the write of the files, or a call that leaves them as they are.\<close>

lemma issue_call_cases:
  assumes "bundle_env_ok env" and "md_VolumeID (job_meta j) = v"
  obtains (written) keyPEM p t t' s' where "job_pc j = IFiles keyPEM p t"
      "certIs env s' v (job_chain j)" "keyIs env s' v keyPEM" "caIs env s' v p"
      "\<forall>u. u \<noteq> v \<longrightarrow> ReadFile (be_storage env) s' u = ReadFile (be_storage env) (nd_store n) u"
      "ListVolumes (be_storage env) s' = ListVolumes (be_storage env) (nd_store n)"
      "issue_call env v j n = n\<lparr>nd_jobs := (nd_jobs n)(v \<mapsto> j\<lparr>job_pc := IWritten t'\<rparr>), nd_store := s',
         nd_last := (nd_last n)(v \<mapsto> (job_chain j, keyPEM)),
         nd_overtaken := (if holdsFiles (nd_visit n) \<and> nd_volume n = v
                          then insert v (nd_overtaken n) else nd_overtaken n - {v}),
         nd_stale := (if p = nd_pem n then nd_stale n - {v} else insert v (nd_stale n))\<rparr>"
  | (kept) jo s' where "ReadFile (be_storage env) s' = ReadFile (be_storage env) (nd_store n)"
      "\<And>j'. jo = Some j' \<Longrightarrow> job_meta j' = job_meta j"
      "ListVolumes (be_storage env) s' = ListVolumes (be_storage env) (nd_store n)
         \<or> (\<exists>m r. WriteMetadata (be_storage env) v m (nd_store n) = (r, s'))"
      "issue_call env v j n = n\<lparr>nd_jobs := (nd_jobs n)(v := jo), nd_store := s'\<rparr>"
proof -
  note names = bundle_env_names [OF assms(1)]
  let ?st = "be_storage env"
  have ls: "WriteFiles ?st m data s = (r, s') \<Longrightarrow> ListVolumes ?st s' = ListVolumes ?st s" for m data s r s'
    using names(7) unfolding storage_atomic_def by metis
  obtain q s' where c: "issue_next (be_deps env) ?st (be_driver env) (nd_pem n) (job_meta j) (job_key j)
      (job_chain j) (job_pc j) (nd_store n) = (q, s')" by fastforce
  show thesis
  proof (cases "\<exists>keyPEM p t t'. job_pc j = IFiles keyPEM p t \<and> q = IWritten t'")
    case True
    then obtain keyPEM p t t' where pc: "job_pc j = IFiles keyPEM p t" and q: "q = IWritten t'" by blast
    have w: "WriteFiles ?st (job_meta j) [d_certFileName (be_driver env) \<mapsto> job_chain j,
        d_keyFileName (be_driver env) \<mapsto> keyPEM, d_caFileName (be_driver env) \<mapsto> p] (nd_store n) = (None, s')"
      using c by (simp add: pc q keypairFiles_CA [OF names(4)] split: result_splits)
    note three = three_files [OF assms w]
    show thesis
      by (rule written [OF pc three(1-3) _ ls [OF w]], use three(4) in blast)
        (unfold issue_call_def c, simp add: pc q Let_def)
  next
    case False
    show thesis
    proof (rule kept)
      show "ReadFile ?st s' = ReadFile ?st (nd_store n)"
        using c False WriteFiles_failed [OF names(7)] WriteMetadata_files [OF names(6)]
        by (cases "job_pc j") (auto split: result_splits)
      show "ListVolumes ?st s' = ListVolumes ?st (nd_store n)
          \<or> (\<exists>m r. WriteMetadata ?st v m (nd_store n) = (r, s'))"
        using c False ls assms(2) by (cases "job_pc j") (auto split: result_splits)
      show "issue_call env v j n = n\<lparr>nd_jobs := (nd_jobs n)(v :=
          (case q of IDone r \<Rightarrow> None | _ \<Rightarrow> Some (j\<lparr>job_pc := q\<rparr>))), nd_store := s'\<rparr>"
        using False unfolding issue_call_def c by (auto simp: Let_def split: issue.split)
      show "job_meta j' = job_meta j"
        if "(case q of IDone r \<Rightarrow> None | _ \<Rightarrow> Some (j\<lparr>job_pc := q\<rparr>)) = Some j'" for j'
        using that by (auto split: issue.splits)
    qed
  qed
qed

lemma node_inv_issue:
  assumes "bundle_env_ok env" and "node_inv env n" and "nd_jobs n v = Some j"
  shows "node_inv env (issue_call env v j n)"
proof -
  have id: "md_VolumeID (job_meta j) = v" using assms(2,3) by (simp add: node_inv_def)
  with assms(1) show ?thesis
  proof (cases rule: issue_call_cases [where n = n])
    case (written keyPEM p t t' s')
    have "visit_knows env (issue_call env v j n) (nd_visit n)"
    proof (cases "nd_volume n = v")
      case True
      with assms(2) written(4) show ?thesis by (cases "nd_visit n") (auto simp: node_inv_def written(7))
    next
      case False
      with assms(2) written(5,7) show ?thesis
        by (subst visit_knows_cong [of _ n]) (auto simp: node_inv_def)
    qed
    moreover have "certIs env s' u c \<and> keyIs env s' u k"
      if "((nd_last n)(v \<mapsto> (job_chain j, keyPEM))) u = Some (c, k)" "u = v \<or> u \<notin> nd_overtaken n" for u c k
      using that written(2,3,5) assms(2) by (cases "u = v") (auto simp: node_inv_def)
    ultimately show ?thesis
      using assms(2) id by (auto simp: node_inv_def written(7) split: if_splits)
  next
    case (kept jo s')
    have "visit_knows env (issue_call env v j n) (nd_visit n)"
      using assms(2) kept(1,4) by (subst visit_knows_cong [of _ n]) (simp_all add: node_inv_def)
    moreover have "md_VolumeID (job_meta j') = u" if "((nd_jobs n)(v := jo)) u = Some j'" for u j'
      using that kept(2) id assms(2) by (cases "u = v") (simp_all add: node_inv_def)
    ultimately show ?thesis using assms(2) kept(1) by (simp add: node_inv_def kept(4))
  qed
qed

lemma visit_knows_change:
  "visit_knows env n q \<Longrightarrow> visit_knows env (n\<lparr>nd_pem := pem, nd_current := False\<rparr>) q"
  by (cases q) simp_all

lemma node_inv_call:
  assumes "bundle_env_ok env" and "node_inv env n" and "node_call env a n = Some n'"
  shows "node_inv env n'"
proof (cases a)
  case (Change pem)
  then show ?thesis using assms(2,3) visit_knows_change [of env n "nd_visit n" pem]
    by (auto simp: node_inv_def)
next
  case (Visit v)
  then show ?thesis using assms(2,3) by (auto simp: node_inv_def split: if_splits)
next
  case VisitCall
  then show ?thesis using node_inv_visit [OF assms(1,2)] assms(3) by (auto split: if_splits)
next
  case (Issue meta key chain)
  let ?j = "\<lparr>job_meta = meta, job_key = key, job_chain = chain, job_pc = IStart\<rparr>"
  have n': "n' = n\<lparr>nd_jobs := (nd_jobs n)(md_VolumeID meta \<mapsto> ?j)\<rparr>"
    using Issue assms(3) by (auto split: if_splits)
  have "visit_knows env n' (nd_visit n)"
    using assms(2) by (subst visit_knows_cong [of _ n]) (simp_all add: node_inv_def n')
  then show ?thesis using assms(2) by (auto simp: node_inv_def n')
next
  case (IssueCall v)
  then show ?thesis using assms(3) node_inv_issue [OF assms(1,2)] by (auto split: option.splits)
qed

lemma node_inv_run:
  assumes "bundle_env_ok env"
  shows "node_inv env n \<Longrightarrow> node_run env as n = Some n' \<Longrightarrow> node_inv env n'"
proof (induction as arbitrary: n)
  case (Cons a as)
  then obtain n1 where "node_call env a n = Some n1" "node_run env as n1 = Some n'"
    by (auto split: option.splits)
  with Cons show ?case using node_inv_call [OF assms Cons.prems(1)] by blast
qed simp

lemma node_inv_init: "node_inv env (node_init pem s)"
  by (simp add: node_inv_def node_init_def)

section \<open>Lemmas: schedules of the code\<close>

text \<open>
  An ordinary situation: volume \<open>v\<close> holds the pair \<open>c0\<close>, \<open>k0\<close> and the bundle \<open>p0\<close>, the storage works,
  and a certificate \<open>chain\<close> with the key \<open>key\<close> has been issued for it.
\<close>

definition renewal ::
    "('j, 'k, 's) bundle_env \<Rightarrow> 's \<Rightarrow> string \<Rightarrow> bytes \<Rightarrow> bytes \<Rightarrow> bytes \<Rightarrow> Metadata \<Rightarrow> 'k \<Rightarrow> bytes \<Rightarrow> bytes \<Rightarrow> bool"
  where
  "renewal env s v c0 k0 p0 meta key chain kb \<longleftrightarrow>
     bundle_env_ok env
     \<and> (\<forall>m data s. fst (WriteFiles (be_storage env) m data s) = None)
     \<and> (\<forall>u m s. fst (WriteMetadata (be_storage env) u m s) = None)
     \<and> (\<exists>m. ReadMetadata (be_storage env) s v = Inr m)
     \<and> certIs env s v c0 \<and> keyIs env s v k0 \<and> caIs env s v p0
     \<and> md_VolumeID meta = v \<and> MarshalPKCS8PrivateKey (be_deps env) key = Inr kb
     \<and> (\<exists>t. calculateNextIssuanceTime (be_deps env) chain = Ok t)"

lemma renewal_write:
  assumes "renewal env s v c0 k0 p0 meta key chain kb" and "md_VolumeID m = v"
  shows "\<exists>s'. WriteFiles (be_storage env) m [d_certFileName (be_driver env) \<mapsto> c,
        d_keyFileName (be_driver env) \<mapsto> k, d_caFileName (be_driver env) \<mapsto> p] q = (None, s')
    \<and> certIs env s' v c \<and> keyIs env s' v k \<and> caIs env s' v p
    \<and> ReadMetadata (be_storage env) s' = ReadMetadata (be_storage env) q"
proof -
  have env: "bundle_env_ok env" and "fst (WriteFiles (be_storage env) m data q) = None" for data
    using assms(1) by (simp_all add: renewal_def)
  then obtain s' where w: "WriteFiles (be_storage env) m [d_certFileName (be_driver env) \<mapsto> c,
      d_keyFileName (be_driver env) \<mapsto> k, d_caFileName (be_driver env) \<mapsto> p] q = (None, s')"
    by (metis prod.collapse)
  from three_files(1-3) [OF env assms(2) w] WriteFiles_meta [OF bundle_env_names(6) [OF env] w] w
  show ?thesis by blast
qed

lemma renewal_meta:
  assumes "renewal env s v c0 k0 p0 meta key chain kb"
  shows "\<exists>s'. WriteMetadata (be_storage env) v m q = (None, s')
    \<and> ReadFile (be_storage env) s' = ReadFile (be_storage env) q"
proof -
  have env: "bundle_env_ok env" and "fst (WriteMetadata (be_storage env) v m q) = None"
    using assms by (simp_all add: renewal_def)
  then obtain s' where w: "WriteMetadata (be_storage env) v m q = (None, s')" by (metis prod.collapse)
  with WriteMetadata_files [OF bundle_env_names(6) [OF env] w] show ?thesis by blast
qed

text \<open>The issuance before its first write, and from there to its end.\<close>

lemma issue_begins:
  assumes "renewal env s v c0 k0 p0 meta key chain kb" and "nd_jobs n v = None"
  shows "\<exists>t. node_run env [Issue meta key chain, IssueCall v] n =
    Some (n\<lparr>nd_jobs := (nd_jobs n)(v \<mapsto> \<lparr>job_meta = meta, job_key = key, job_chain = chain,
      job_pc = IFiles (EncodeToMemory ''PRIVATE KEY'' kb) (nd_pem n) t\<rparr>)\<rparr>)"
  using assms by (auto simp: renewal_def issue_call_def)

lemma issue_ends:
  assumes "renewal env s v c0 k0 p0 meta key chain kb"
    and "nd_jobs n v = Some \<lparr>job_meta = meta, job_key = key, job_chain = chain, job_pc = IFiles keyPEM p t\<rparr>"
  shows "\<exists>s'. node_run env [IssueCall v, IssueCall v] n =
      Some (n\<lparr>nd_jobs := (nd_jobs n)(v := None), nd_store := s', nd_last := (nd_last n)(v \<mapsto> (chain, keyPEM)),
        nd_overtaken := (if holdsFiles (nd_visit n) \<and> nd_volume n = v
                         then insert v (nd_overtaken n) else nd_overtaken n - {v}),
        nd_stale := (if p = nd_pem n then nd_stale n - {v} else insert v (nd_stale n))\<rparr>)
    \<and> certIs env s' v chain \<and> keyIs env s' v keyPEM \<and> caIs env s' v p"
proof -
  have id: "md_VolumeID meta = v" and ca: "d_rootCAs (be_driver env)"
    using assms(1) by (auto simp: renewal_def dest: bundle_env_names(4))
  obtain s1 where w: "WriteFiles (be_storage env) meta (keypairFiles (be_driver env) p chain keyPEM) (nd_store n)
      = (None, s1)" and files: "certIs env s1 v chain" "keyIs env s1 v keyPEM" "caIs env s1 v p"
    using renewal_write [OF assms(1) id] unfolding keypairFiles_CA [OF ca] by blast
  obtain s2 where m: "WriteMetadata (be_storage env) v (meta\<lparr>md_NextIssuanceTime := Some t\<rparr>) s1 = (None, s2)"
    and "ReadFile (be_storage env) s2 = ReadFile (be_storage env) s1"
    using renewal_meta [OF assms(1)] by blast
  with files show ?thesis
    by (intro exI [of _ s2]) (simp add: assms(2) issue_call_def w m id)
qed

text \<open>A visit: up to the certificate, the key and the CA file, and the write.\<close>

lemma visit_begins:
  assumes "renewal env s v c0 k0 p0 meta key chain kb" and "nd_store n = s" and "\<not> visiting (nd_visit n)"
  shows "\<exists>m. md_VolumeID m = v \<and> node_run env [Visit v, VisitCall, VisitCall] n =
    Some (n\<lparr>nd_volume := v, nd_visit := VCert m c0, nd_current := True\<rparr>)"
proof -
  have env: "bundle_env_ok env" and c: "certIs env s v c0" using assms(1) by (auto simp: renewal_def)
  obtain m where m: "ReadMetadata (be_storage env) s v = Inr m" using assms(1) by (auto simp: renewal_def)
  moreover have "md_VolumeID m = v" using ReadMetadata_id [OF bundle_env_names(6) [OF env] m] .
  ultimately show ?thesis
    using assms(2,3) c by (intro exI [of _ m]) (simp add: visit_call_def bundle_env_names [OF env])
qed

lemma visit_reads:
  assumes "bundle_env_ok env" and "nd_visit n = VCert m c" and "keyIs env (nd_store n) (nd_volume n) k"
    and "caIs env (nd_store n) (nd_volume n) p"
  shows "node_run env [VisitCall, VisitCall] n = Some (n\<lparr>nd_visit := VCA m c k (Inr p)\<rparr>)"
  using assms(2-4) by (simp add: visit_call_def bundle_env_names [OF assms(1)])

lemma visit_writes:
  assumes "renewal env s v c0 k0 p0 meta key chain kb" and "nd_visit n = VCA m c k (Inr p)"
    and "nd_volume n = v" and "md_VolumeID m = v" and "p \<noteq> nd_pem n"
  shows "\<exists>s'. node_run env [VisitCall, VisitCall, VisitCall] n =
      Some (n\<lparr>nd_visit := VDone None, nd_store := s', nd_stale := nd_stale n - {v}\<rparr>)
    \<and> certIs env s' v c \<and> keyIs env s' v k \<and> caIs env s' v (nd_pem n)"
proof -
  have env: "bundle_env_ok env" using assms(1) by (simp add: renewal_def)
  from renewal_write [OF assms(1,4)] obtain s' where
    "WriteFiles (be_storage env) m [d_certFileName (be_driver env) \<mapsto> c, d_keyFileName (be_driver env) \<mapsto> k,
      d_caFileName (be_driver env) \<mapsto> nd_pem n] (nd_store n) = (None, s')"
    "certIs env s' v c" "keyIs env s' v k" "caIs env s' v (nd_pem n)" by blast
  with assms(2,3,5) show ?thesis
    by (intro exI [of _ s']) (simp add: visit_call_def bundle_env_names [OF env])
qed

lemma node_run_append:
  "node_run env (as @ bs) n =
     (case node_run env as n of None \<Rightarrow> None | Some n' \<Rightarrow> node_run env bs n')"
  by (induction as arbitrary: n) (auto split: option.splits)

lemma node_run_then:
  "node_run env as n = Some n' \<Longrightarrow> node_run env bs n' = Some n'' \<Longrightarrow> node_run env (as @ bs) n = Some n''"
  by (simp add: node_run_append)

text \<open>The bundle changes after the issuance has read it, and the CA manager starts to visit the volume.\<close>

lemma issue_overtaken:
  assumes "renewal env s v c0 k0 p0 meta key chain kb"
  obtains as n m t where "node_run env as (node_init p0 s) = Some n" and "md_VolumeID m = v"
    and "n = \<lparr>nd_pem = p, nd_volume = v, nd_visit = VCert m c0,
      nd_jobs = [v \<mapsto> \<lparr>job_meta = meta, job_key = key, job_chain = chain,
        job_pc = IFiles (EncodeToMemory ''PRIVATE KEY'' kb) p0 t\<rparr>],
      nd_store = s, nd_last = Map.empty, nd_overtaken = {}, nd_stale = {}, nd_current = True\<rparr>"
proof -
  obtain t n1 where 1: "node_run env [Issue meta key chain, IssueCall v] (node_init p0 s) = Some n1"
    and n1: "n1 = (node_init p0 s)\<lparr>nd_jobs := [v \<mapsto> \<lparr>job_meta = meta, job_key = key, job_chain = chain,
      job_pc = IFiles (EncodeToMemory ''PRIVATE KEY'' kb) p0 t\<rparr>]\<rparr>"
    using issue_begins [OF assms, of "node_init p0 s"] by (auto simp: node_init_def)
  define n2 where "n2 = n1\<lparr>nd_pem := p, nd_current := False\<rparr>"
  then have 2: "node_run env [Change p] n1 = Some n2" by simp
  obtain m n3 where m: "md_VolumeID m = v" and 3: "node_run env [Visit v, VisitCall, VisitCall] n2 = Some n3"
    and n3: "n3 = n2\<lparr>nd_volume := v, nd_visit := VCert m c0, nd_current := True\<rparr>"
    using visit_begins [OF assms, of n2] by (auto simp: n2_def n1 node_init_def)
  show thesis
    by (rule that [OF node_run_then [OF 1 node_run_then [OF 2 3]] m, of t])
      (simp add: n3 n2_def n1 node_init_def)
qed

text \<open>The certificate is read before the issuance writes, the key after it.\<close>

lemma mixing_schedule:
  assumes "renewal env s v c0 k0 p0 meta key chain kb" and "p \<noteq> p0"
  shows "\<exists>as n. node_run env as (node_init p0 s) = Some n \<and> idle n
    \<and> nd_last n v = Some (chain, EncodeToMemory ''PRIVATE KEY'' kb)
    \<and> certIs env (nd_store n) v c0 \<and> keyIs env (nd_store n) v (EncodeToMemory ''PRIVATE KEY'' kb)"
proof -
  note ren = assms(1)
  have env: "bundle_env_ok env" using ren by (simp add: renewal_def)
  let ?kp = "EncodeToMemory ''PRIVATE KEY'' kb"
  obtain as n m t where 1: "node_run env as (node_init p0 s) = Some n" and m: "md_VolumeID m = v"
    and n: "n = \<lparr>nd_pem = p, nd_volume = v, nd_visit = VCert m c0, nd_jobs = [v \<mapsto> \<lparr>job_meta = meta,
      job_key = key, job_chain = chain, job_pc = IFiles ?kp p0 t\<rparr>], nd_store = s, nd_last = Map.empty,
      nd_overtaken = {}, nd_stale = {}, nd_current = True\<rparr>" by (rule issue_overtaken [OF ren, of p])
  obtain s2 n2 where 2: "node_run env [IssueCall v, IssueCall v] n = Some n2"
    and n2: "n2 = n\<lparr>nd_jobs := (nd_jobs n)(v := None), nd_store := s2, nd_last := [v \<mapsto> (chain, ?kp)],
      nd_overtaken := {v}, nd_stale := {v}\<rparr>"
    and s2: "keyIs env s2 v ?kp" "caIs env s2 v p0"
    using issue_ends [OF ren, of n] assms(2) by (auto simp: n)
  have 3: "node_run env [VisitCall, VisitCall] n2 = Some (n2\<lparr>nd_visit := VCA m c0 ?kp (Inr p0)\<rparr>)"
    (is "_ = Some ?n3")
    using s2 by (intro visit_reads [OF env]) (simp_all add: n2 n)
  obtain s4 n4 where 4: "node_run env [VisitCall, VisitCall, VisitCall] ?n3 = Some n4"
    and n4: "n4 = ?n3\<lparr>nd_visit := VDone None, nd_store := s4, nd_stale := {}\<rparr>"
    and s4: "certIs env s4 v c0" "keyIs env s4 v ?kp"
    using visit_writes [OF ren, of ?n3 m c0 ?kp p0] m assms(2) by (auto simp: n2 n)
  have "idle n4" "nd_last n4 v = Some (chain, ?kp)" "nd_store n4 = s4"
    by (auto simp: n4 n2 n idle_def)
  with s4 node_run_then [OF 1 node_run_then [OF 2 node_run_then [OF 3 4]]] show ?thesis by blast
qed

text \<open>Both files are read before the issuance writes.\<close>

lemma undoing_schedule:
  assumes "renewal env s v c0 k0 p0 meta key chain kb" and "p \<noteq> p0"
  shows "\<exists>as n. node_run env as (node_init p0 s) = Some n \<and> idle n
    \<and> nd_last n v = Some (chain, EncodeToMemory ''PRIVATE KEY'' kb)
    \<and> certIs env (nd_store n) v c0 \<and> keyIs env (nd_store n) v k0"
proof -
  note ren = assms(1)
  have env: "bundle_env_ok env" and old: "keyIs env s v k0" "caIs env s v p0"
    using ren by (auto simp: renewal_def)
  let ?kp = "EncodeToMemory ''PRIVATE KEY'' kb"
  obtain as n m t where 1: "node_run env as (node_init p0 s) = Some n" and m: "md_VolumeID m = v"
    and n: "n = \<lparr>nd_pem = p, nd_volume = v, nd_visit = VCert m c0, nd_jobs = [v \<mapsto> \<lparr>job_meta = meta,
      job_key = key, job_chain = chain, job_pc = IFiles ?kp p0 t\<rparr>], nd_store = s, nd_last = Map.empty,
      nd_overtaken = {}, nd_stale = {}, nd_current = True\<rparr>" by (rule issue_overtaken [OF ren, of p])
  have 2: "node_run env [VisitCall, VisitCall] n = Some (n\<lparr>nd_visit := VCA m c0 k0 (Inr p0)\<rparr>)"
    (is "_ = Some ?n2")
    using old by (intro visit_reads [OF env]) (simp_all add: n)
  obtain s3 n3 where 3: "node_run env [IssueCall v, IssueCall v] ?n2 = Some n3"
    and n3: "n3 = ?n2\<lparr>nd_jobs := (nd_jobs n)(v := None), nd_store := s3, nd_last := [v \<mapsto> (chain, ?kp)],
      nd_overtaken := {v}, nd_stale := {v}\<rparr>"
    using issue_ends [OF ren, of ?n2] assms(2) by (auto simp: n)
  obtain s4 n4 where 4: "node_run env [VisitCall, VisitCall, VisitCall] n3 = Some n4"
    and n4: "n4 = n3\<lparr>nd_visit := VDone None, nd_store := s4, nd_stale := {}\<rparr>"
    and s4: "certIs env s4 v c0" "keyIs env s4 v k0"
    using visit_writes [OF ren, of n3 m c0 k0 p0] m assms(2) by (auto simp: n3 n)
  have "idle n4" "nd_last n4 v = Some (chain, ?kp)" "nd_store n4 = s4"
    by (auto simp: n4 n3 n idle_def)
  with s4 node_run_then [OF 1 node_run_then [OF 2 node_run_then [OF 3 4]]] show ?thesis by blast
qed

section \<open>An instance\<close>

lemma exampleBundleEnv_simps:
  "be_storage exampleBundleEnv = exampleStorage" "be_deps exampleBundleEnv = exampleDriverDeps"
  "d_certFileName (be_driver exampleBundleEnv) = ''tls.crt''"
  "d_keyFileName (be_driver exampleBundleEnv) = ''tls.key''"
  "d_caFileName (be_driver exampleBundleEnv) = ''ca.crt''"
  using driver_New_names [OF exampleBundleDriver_New]
  by (simp_all add: exampleBundleEnv_def exampleBundleOptions_def)

lemma example_renewal:
  "renewal exampleBundleEnv exampleVolumes ''v1'' [1] [2] [3]
     (exampleMeta\<lparr>md_VolumeID := ''v1''\<rparr>) () [5] [2]"
  using exampleBundleEnv_ok
  by (simp add: renewal_def exampleBundleEnv_simps exampleVolumes_simps exampleDriverDeps_def
      calculateNextIssuanceTime_def)

text \<open>A schedule: the bundle changes, the volume is visited, then renewed.\<close>

definition exampleSchedule :: "unit call list" where
  "exampleSchedule = Change [4] # Visit ''v1'' # replicate 7 VisitCall
     @ Issue (exampleMeta\<lparr>md_VolumeID := ''v1''\<rparr>) () [5] # replicate 3 (IssueCall ''v1'')"

lemma example_run:
  "\<exists>n. node_run exampleBundleEnv exampleSchedule (node_init [3] exampleVolumes) = Some n
     \<and> nd_last n ''v1'' = Some ([5], EncodeToMemory ''PRIVATE KEY'' [2]) \<and> ''v1'' \<notin> nd_overtaken n"
  using bundle_env_names [OF exampleBundleEnv_ok]
  by (simp add: exampleSchedule_def numeral_eq_Suc node_init_def visit_call_def issue_call_def
      exampleBundleEnv_simps exampleVolumes_simps exampleDriverDeps_def calculateNextIssuanceTime_def)

section \<open>Properties\<close>

text \<open>C10: A key pair is lost in one way only. In every schedule of the calls of the CA manager, of any
  number of issuances and of changes of the bundle, with any failures, each volume holds the
  certificate and the key the driver last wrote to it, unless that write came while a visit of the
  CA manager to the same volume held files it had read before.\<close>

theorem pair_kept_unless_overtaken:
  assumes "bundle_env_ok env" and "node_run env as (node_init pem s) = Some n"
    and "nd_last n v = Some (c, k)" and "v \<notin> nd_overtaken n"
  shows "ReadFile (be_storage env) (nd_store n) v (d_certFileName (be_driver env)) = Inr c
    \<and> ReadFile (be_storage env) (nd_store n) v (d_keyFileName (be_driver env)) = Inr k"
  using node_inv_run [OF assms(1) node_inv_init assms(2)] assms(3,4) by (auto simp: node_inv_def)

theorem pair_kept_unless_overtaken_witness:
  "\<exists>n. node_run exampleBundleEnv exampleSchedule (node_init [3] exampleVolumes) = Some n
     \<and> ReadFile exampleStorage (nd_store n) ''v1'' ''tls.crt'' = Inr [5]
     \<and> ReadFile exampleStorage (nd_store n) ''v1'' ''tls.key'' = Inr (EncodeToMemory ''PRIVATE KEY'' [2])"
  using example_run pair_kept_unless_overtaken [OF exampleBundleEnv_ok, unfolded exampleBundleEnv_simps]
  by blast

text \<open>C9: And pairs do get lost that way, as the code takes no lock. In the ordinary situation of a renewal during a change of the bundle
  there are schedules after which, with everything at rest and no error reported, the volume
  holds the old certificate with the new key, or the whole old pair again, although the driver
  has written the new pair and recorded its renewal time.\<close>

theorem renewal_race:
  assumes "renewal env s v c0 k0 p0 meta key chain kb" and "p \<noteq> p0"
  shows "(\<exists>as n. node_run env as (node_init p0 s) = Some n \<and> idle n
      \<and> nd_last n v = Some (chain, EncodeToMemory ''PRIVATE KEY'' kb)
      \<and> ReadFile (be_storage env) (nd_store n) v (d_certFileName (be_driver env)) = Inr c0
      \<and> ReadFile (be_storage env) (nd_store n) v (d_keyFileName (be_driver env))
          = Inr (EncodeToMemory ''PRIVATE KEY'' kb))
    \<and> (\<exists>as n. node_run env as (node_init p0 s) = Some n \<and> idle n
      \<and> nd_last n v = Some (chain, EncodeToMemory ''PRIVATE KEY'' kb)
      \<and> ReadFile (be_storage env) (nd_store n) v (d_certFileName (be_driver env)) = Inr c0
      \<and> ReadFile (be_storage env) (nd_store n) v (d_keyFileName (be_driver env)) = Inr k0)"
  using mixing_schedule [OF assms] undoing_schedule [OF assms] by blast

theorem renewal_race_witness:
  "\<exists>as n. node_run exampleBundleEnv as (node_init [3] exampleVolumes) = Some n \<and> idle n
     \<and> nd_last n ''v1'' = Some ([5], EncodeToMemory ''PRIVATE KEY'' [2])
     \<and> ReadFile exampleStorage (nd_store n) ''v1'' ''tls.crt'' = Inr [1]"
proof -
  have "[4] \<noteq> ([3] :: bytes)" by simp
  from conjunct1 [OF renewal_race [OF example_renewal this], unfolded exampleBundleEnv_simps]
  show ?thesis by blast
qed

end
