(* ===== verification/BundleCalls.thy ===== *)
theory BundleCalls
  imports Interleaving
begin

text \<open>
  The whole path of a trust bundle, call by call: the file source, the loop of the CA manager with
  its channels and retries, the calls of its visits one at a time, the issuances, the registration
  of volumes, all interleaved as the code allows: the bundle can change, volumes can appear and
  certificates can be issued between any two calls of an update.
\<close>

section \<open>Definitions\<close>

text \<open>\<open>FUpdating vs\<close>: in the loop of \<open>updateRootCAFiles\<close>, with the volumes \<open>vs\<close> still to visit.\<close>

datatype flow_pc = FSelect | FSending | FUpdating "string list" | FReturned

record ('k, 's) flow =
  fl_file :: fileCA
  fl_pc :: flow_pc
  fl_chan :: nat
  fl_timers :: nat
  fl_retries :: nat
  fl_cancelled :: bool
  fl_node :: "('k, 's) node"

text \<open>\<open>CertificatesPEM\<close> returns what the source holds: the node follows the source.\<close>

definition follow :: "fileCA \<Rightarrow> ('k, 's) node \<Rightarrow> ('k, 's) node" where
  "follow f n =
     (if file_CertificatesPEM f = nd_pem n then n
      else n\<lparr>nd_pem := file_CertificatesPEM f, nd_current := False\<rparr>)"

text \<open>
  csi-lib registers the metadata of a volume before it asks for a certificate (\<open>flow_register\<close>,
  \<open>flow_issue\<close>); a volume that is registered has no CA file yet and no issuance in progress.
\<close>

inductive flow_step ::
    "('j, 'k, 's) bundle_env \<Rightarrow> ('k, 's) flow \<Rightarrow> ('k, 's) flow \<Rightarrow> bool" for env where
  flow_source: "f = file_start (be_ops env) (fl_file b) e \<Longrightarrow>
    flow_step env b (b\<lparr>fl_file := f, fl_node := follow f (fl_node b)\<rparr>)"
| flow_cancel: "flow_step env b (b\<lparr>fl_cancelled := True\<rparr>)"
| flow_stop: "fl_pc b = FSelect \<Longrightarrow> fl_cancelled b \<Longrightarrow> flow_step env b (b\<lparr>fl_pc := FReturned\<rparr>)"
| flow_watch: "fl_pc b = FSelect \<Longrightarrow> 0 < f_subscribers (fl_file b) ! be_channel env \<Longrightarrow>
    flow_step env b (b\<lparr>fl_pc := FSending, fl_file := file_receive (be_channel env) (fl_file b)\<rparr>)"
| flow_send: "fl_pc b = FSending \<Longrightarrow> fl_chan b < 1 \<Longrightarrow>
    flow_step env b (b\<lparr>fl_pc := FSelect, fl_chan := fl_chan b + 1\<rparr>)"
| flow_list: "fl_pc b = FSelect \<Longrightarrow> 0 < fl_chan b \<Longrightarrow>
    ListVolumes (be_storage env) (nd_store (fl_node b)) = Inr vs \<Longrightarrow>
    flow_step env b (b\<lparr>fl_pc := FUpdating vs, fl_chan := fl_chan b - 1\<rparr>)"
| flow_list_failed: "fl_pc b = FSelect \<Longrightarrow> 0 < fl_chan b \<Longrightarrow>
    ListVolumes (be_storage env) (nd_store (fl_node b)) = Inl err \<Longrightarrow>
    flow_step env b (b\<lparr>fl_chan := fl_chan b - 1, fl_timers := fl_timers b + 1\<rparr>)"
| flow_visit: "fl_pc b = FUpdating (v # vs) \<Longrightarrow> node_call env (Visit v) (fl_node b) = Some n \<Longrightarrow>
    flow_step env b (b\<lparr>fl_pc := FUpdating vs, fl_node := n\<rparr>)"
| flow_call: "fl_pc b = FUpdating vs \<Longrightarrow> node_call env VisitCall (fl_node b) = Some n \<Longrightarrow>
    (\<nexists>err. nd_visit n = VDone (Some err)) \<Longrightarrow> flow_step env b (b\<lparr>fl_node := n\<rparr>)"
| flow_failed: "fl_pc b = FUpdating vs \<Longrightarrow> node_call env VisitCall (fl_node b) = Some n \<Longrightarrow>
    nd_visit n = VDone (Some err) \<Longrightarrow>
    flow_step env b (b\<lparr>fl_pc := FSelect, fl_timers := fl_timers b + 1, fl_node := n\<rparr>)"
| flow_updated: "fl_pc b = FUpdating [] \<Longrightarrow> \<not> visiting (nd_visit (fl_node b)) \<Longrightarrow>
    flow_step env b (b\<lparr>fl_pc := FSelect\<rparr>)"
| flow_fire: "0 < fl_timers b \<Longrightarrow>
    flow_step env b (b\<lparr>fl_timers := fl_timers b - 1, fl_retries := fl_retries b + 1\<rparr>)"
| flow_abandon: "0 < fl_timers b \<Longrightarrow> fl_cancelled b \<Longrightarrow>
    flow_step env b (b\<lparr>fl_timers := fl_timers b - 1\<rparr>)"
| flow_retry: "0 < fl_retries b \<Longrightarrow> fl_chan b < 1 \<Longrightarrow>
    flow_step env b (b\<lparr>fl_retries := fl_retries b - 1, fl_chan := fl_chan b + 1\<rparr>)"
| flow_register: "nd_jobs (fl_node b) v = None \<Longrightarrow>
    (\<nexists>c. ReadFile (be_storage env) (nd_store (fl_node b)) v (d_caFileName (be_driver env)) = Inr c) \<Longrightarrow>
    WriteMetadata (be_storage env) v meta (nd_store (fl_node b)) = (r, s') \<Longrightarrow>
    flow_step env b (b\<lparr>fl_node := (fl_node b)\<lparr>nd_store := s'\<rparr>\<rparr>)"
| flow_issue: "managed (be_storage env) (nd_store (fl_node b)) (md_VolumeID meta) \<Longrightarrow>
    node_call env (Issue meta key chain) (fl_node b) = Some n \<Longrightarrow>
    flow_step env b (b\<lparr>fl_node := n\<rparr>)"
| flow_issuing: "node_call env (IssueCall v) (fl_node b) = Some n \<Longrightarrow>
    flow_step env b (b\<lparr>fl_node := n\<rparr>)"

text \<open>The start of \<open>run\<close> on the given volumes, with no issuance in progress.\<close>

definition flow_init :: "fileCA \<Rightarrow> 's \<Rightarrow> nat \<times> ('k, 's) flow" where
  "flow_init f s =
     (let (i, f') = file_Subscribe f in
      (i, \<lparr>fl_file = f', fl_pc = FSelect, fl_chan = 0, fl_timers = 0, fl_retries = 0,
           fl_cancelled = False, fl_node = node_init (file_CertificatesPEM f') s\<rparr>))"

text \<open>Notifications, messages and retries on their way to the next update.\<close>

definition flow_pending :: "('j, 'k, 's) bundle_env \<Rightarrow> ('k, 's) flow \<Rightarrow> nat" where
  "flow_pending env b =
     f_subscribers (fl_file b) ! be_channel env + (if fl_pc b = FSending then 1 else 0)
     + fl_chan b + fl_timers b + fl_retries b"

text \<open>Writing the metadata of a volume takes no volume off the list.\<close>

definition storage_keeps :: "'s storage \<Rightarrow> bool" where
  "storage_keeps st \<longleftrightarrow>
     (\<forall>s s' r v m u. WriteMetadata st v m s = (r, s') \<longrightarrow> managed st s u \<longrightarrow> managed st s' u)"

section \<open>Lemmas: one call\<close>

lemma visit_call_frame [simp]:
  "nd_pem (visit_call env n) = nd_pem n" "nd_jobs (visit_call env n) = nd_jobs n"
  "nd_volume (visit_call env n) = nd_volume n" "nd_current (visit_call env n) = nd_current n"
  by (simp_all add: visit_call_def split: prod.split)

lemma visit_call_stale: "nd_stale (visit_call env n) \<subseteq> nd_stale n"
  by (auto simp: visit_call_def split: prod.splits visit.splits if_splits)

lemma issue_call_frame [simp]:
  "nd_pem (issue_call env v j n) = nd_pem n" "nd_visit (issue_call env v j n) = nd_visit n"
  "nd_volume (issue_call env v j n) = nd_volume n" "nd_current (issue_call env v j n) = nd_current n"
  "u \<noteq> v \<Longrightarrow> nd_jobs (issue_call env v j n) u = nd_jobs n u"
  by (simp_all add: issue_call_def Let_def split: prod.split issue.split)

lemma visit_call_lists:
  assumes "bundle_env_ok env" and "node_inv env n" and "visiting (nd_visit n)"
  shows "ListVolumes (be_storage env) (nd_store (visit_call env n)) = ListVolumes (be_storage env) (nd_store n)"
proof -
  have "visit_knows env n (nd_visit n)" using assms(2) by (simp add: node_inv_def)
  from assms(1) this assms(3) show ?thesis by (cases rule: visit_call_cases) simp_all
qed

text \<open>A visit that began after the latest change leaves its volume up to date, and harms no other.\<close>

lemma visited_upToDate:
  assumes "bundle_env_ok env" and "node_inv env n" and "visiting (nd_visit n)" and "nd_current n"
    and "nd_visit (visit_call env n) = VDone None"
  shows "upToDate env (visit_call env n) (nd_volume n)"
proof -
  have k: "visit_knows env n (nd_visit n)" using assms(2) by (simp add: node_inv_def)
  from assms(1) this assms(3) show ?thesis
  proof (cases rule: visit_call_cases)
    case (looked q)
    with assms(4,5) show ?thesis by (simp add: upToDate_def)
  next
    case (written m c k' p s')
    with k assms(4) show ?thesis by (simp add: upToDate_def)
  next
    case (refused err s')
    with assms(5) show ?thesis by simp
  qed
qed

lemma visit_keeps_upToDate:
  assumes "bundle_env_ok env" and "node_inv env n" and "visiting (nd_visit n)" and "v \<noteq> nd_volume n"
    and "upToDate env n v"
  shows "upToDate env (visit_call env n) v"
proof -
  have k: "visit_knows env n (nd_visit n)" using assms(2) by (simp add: node_inv_def)
  from assms(1) this assms(3) show ?thesis
    by (cases rule: visit_call_cases) (use assms(4,5) in \<open>simp_all add: upToDate_def\<close>)
qed

lemma issue_keeps_upToDate:
  assumes "bundle_env_ok env" and "node_inv env n" and "nd_jobs n u = Some j" and "upToDate env n v"
  shows "upToDate env (issue_call env u j n) v"
proof -
  have "md_VolumeID (job_meta j) = u" using assms(2,3) by (simp add: node_inv_def)
  with assms(1) show ?thesis
  proof (cases rule: issue_call_cases [where n = n])
    case (written keyPEM p t t' s')
    with assms(4) show ?thesis by (cases "v = u") (simp_all add: upToDate_def)
  next
    case (kept jo s')
    with assms(4) show ?thesis by (simp add: upToDate_def)
  qed
qed

text \<open>An issuance for a registered volume changes no registration.\<close>

lemma issue_call_managed:
  assumes "bundle_env_ok env" and "storage_keeps (be_storage env)" and "md_VolumeID (job_meta j) = v"
    and "managed (be_storage env) (nd_store n) v"
  shows "managed (be_storage env) (nd_store (issue_call env v j n)) u = managed (be_storage env) (nd_store n) u"
proof -
  have atomic: "storage_atomic (be_storage env)" using bundle_env_names(7) [OF assms(1)] .
  from assms(1,3) show ?thesis
  proof (cases rule: issue_call_cases [where n = n])
    case (written keyPEM p t t' s')
    then show ?thesis by (simp add: managed_def)
  next
    case (kept jo s')
    from kept(3) show ?thesis
    proof
      assume "\<exists>m r. WriteMetadata (be_storage env) v m (nd_store n) = (r, s')"
      then obtain m r where "WriteMetadata (be_storage env) v m (nd_store n) = (r, s')" by blast
      then have "managed (be_storage env) s' u = managed (be_storage env) (nd_store n) u"
        using assms(2,4) atomic unfolding storage_keeps_def storage_atomic_def by metis
      then show ?thesis by (simp add: kept(4))
    qed (simp add: kept(4) managed_def)
  qed
qed

section \<open>Lemmas: the invariant\<close>

fun toVisit :: "flow_pc \<Rightarrow> string list" where
  "toVisit (FUpdating vs) = vs"
| "toVisit _ = []"

text \<open>Every managed volume is up to date, being visited, or to be visited by the update that runs.\<close>

definition covered :: "('j, 'k, 's) bundle_env \<Rightarrow> ('k, 's) flow \<Rightarrow> bool" where
  "covered env b \<longleftrightarrow>
     (visiting (nd_visit (fl_node b)) \<longrightarrow> nd_current (fl_node b))
     \<and> (\<forall>v. managed (be_storage env) (nd_store (fl_node b)) v \<longrightarrow>
          upToDate env (fl_node b) v \<or> v \<in> set (toVisit (fl_pc b))
          \<or> visiting (nd_visit (fl_node b)) \<and> v = nd_volume (fl_node b))"

definition flow_inv :: "('j, 'k, 's) bundle_env \<Rightarrow> ('k, 's) flow \<Rightarrow> bool" where
  "flow_inv env b \<longleftrightarrow>
     be_channel env < length (f_subscribers (fl_file b))
     \<and> nd_pem (fl_node b) = file_CertificatesPEM (fl_file b)
     \<and> node_inv env (fl_node b)
     \<and> (visiting (nd_visit (fl_node b)) \<longrightarrow> (\<exists>vs. fl_pc b = FUpdating vs))
     \<and> (\<forall>v j. nd_jobs (fl_node b) v = Some j \<longrightarrow> managed (be_storage env) (nd_store (fl_node b)) v)
     \<and> (fl_cancelled b \<or> 0 < flow_pending env b \<or> covered env b)"

lemma flow_inv_source:
  assumes "flow_inv env b" and "f = file_start (be_ops env) (fl_file b) e"
  shows "flow_inv env (b\<lparr>fl_file := f, fl_node := follow f (fl_node b)\<rparr>)"
proof (cases rule: fileca.step_cases [of "be_ops env" "fl_file b" e])
  case same
  then have "follow f (fl_node b) = fl_node b" using assms by (simp add: flow_inv_def follow_def)
  with same assms show ?thesis by (simp add: flow_inv_def flow_pending_def covered_def)
next
  case more
  have "node_inv env (follow f (fl_node b))"
    using assms(1) visit_knows_change [of env "fl_node b" "nd_visit (fl_node b)"]
    by (simp add: flow_inv_def follow_def node_inv_def)
  with more assms show ?thesis by (simp add: flow_inv_def flow_pending_def follow_def)
qed

lemma flow_inv_list:
  assumes "flow_inv env b" and "fl_pc b = FSelect"
    and "ListVolumes (be_storage env) (nd_store (fl_node b)) = Inr vs"
  shows "flow_inv env (b\<lparr>fl_pc := FUpdating vs, fl_chan := fl_chan b - 1\<rparr>)"
proof -
  have "\<not> visiting (nd_visit (fl_node b))" using assms(1,2) by (auto simp: flow_inv_def)
  then show ?thesis using assms by (auto simp: flow_inv_def covered_def managed_def)
qed

lemma flow_inv_visit:
  assumes "bundle_env_ok env" and "flow_inv env b" and "fl_pc b = FUpdating (v # vs)"
    and "node_call env (Visit v) (fl_node b) = Some n"
  shows "flow_inv env (b\<lparr>fl_pc := FUpdating vs, fl_node := n\<rparr>)"
proof -
  have n: "n = (fl_node b)\<lparr>nd_volume := v, nd_visit := VStart, nd_current := True\<rparr>"
    and idle: "\<not> visiting (nd_visit (fl_node b))"
    using assms(4) by (auto split: if_splits)
  have "node_inv env n" using node_inv_call [OF assms(1) _ assms(4)] assms(2) by (simp add: flow_inv_def)
  moreover have "upToDate env n = upToDate env (fl_node b)" by (simp add: n upToDate_def fun_eq_iff)
  ultimately show ?thesis
    using assms(2,3) idle by (auto simp: flow_inv_def flow_pending_def covered_def n)
qed

lemma covered_call:
  assumes "bundle_env_ok env" and "flow_inv env b" and "visiting (nd_visit (fl_node b))" and "covered env b"
    and "\<nexists>err. nd_visit (visit_call env (fl_node b)) = VDone (Some err)"
  shows "covered env (b\<lparr>fl_node := visit_call env (fl_node b)\<rparr>)"
proof -
  let ?n = "fl_node b"
  have inv: "node_inv env ?n" and cur: "nd_current ?n"
    using assms(2-4) by (auto simp: flow_inv_def covered_def)
  have "upToDate env (visit_call env ?n) v \<or> v \<in> set (toVisit (fl_pc b))
      \<or> visiting (nd_visit (visit_call env ?n)) \<and> v = nd_volume ?n"
    if "managed (be_storage env) (nd_store ?n) v" for v
  proof (cases "v = nd_volume ?n")
    case True
    have "visiting (nd_visit (visit_call env ?n)) \<or> nd_visit (visit_call env ?n) = VDone None"
      using assms(5) by (cases "nd_visit (visit_call env ?n)") auto
    with True visited_upToDate [OF assms(1) inv assms(3) cur] show ?thesis by blast
  next
    case False
    with that assms(4) visit_keeps_upToDate [OF assms(1) inv assms(3) False] show ?thesis
      by (auto simp: covered_def)
  qed
  with cur show ?thesis
    by (simp add: covered_def managed_def visit_call_lists [OF assms(1) inv assms(3)])
qed

lemma flow_inv_visited:
  assumes "bundle_env_ok env" and "flow_inv env b" and "node_call env VisitCall (fl_node b) = Some n"
  shows "(\<nexists>err. nd_visit n = VDone (Some err)) \<Longrightarrow> flow_inv env (b\<lparr>fl_node := n\<rparr>)"
    and "nd_visit n = VDone (Some err) \<Longrightarrow>
      flow_inv env (b\<lparr>fl_pc := FSelect, fl_timers := fl_timers b + 1, fl_node := n\<rparr>)"
proof -
  have n: "n = visit_call env (fl_node b)" "visiting (nd_visit (fl_node b))"
    using assms(3) by (auto split: if_splits)
  have inv: "node_inv env n" using node_inv_call [OF assms(1) _ assms(3)] assms(2) by (simp add: flow_inv_def)
  have "node_inv env (fl_node b)" using assms(2) by (simp add: flow_inv_def)
  note ls = visit_call_lists [OF assms(1) this n(2)]
  show "flow_inv env (b\<lparr>fl_pc := FSelect, fl_timers := fl_timers b + 1, fl_node := n\<rparr>)"
    if "nd_visit n = VDone (Some err)"
    using that assms(2) inv by (simp add: flow_inv_def flow_pending_def n(1) managed_def ls)
  show "flow_inv env (b\<lparr>fl_node := n\<rparr>)" if "\<nexists>err. nd_visit n = VDone (Some err)"
    using covered_call [OF assms(1,2) n(2) _ that [unfolded n(1)]] assms(2) inv n(2)
    by (auto simp: flow_inv_def flow_pending_def n(1) managed_def ls)
qed

lemma flow_inv_register:
  assumes "bundle_env_ok env" and "storage_keeps (be_storage env)" and "flow_inv env b"
    and "nd_jobs (fl_node b) v = None" and "\<nexists>c. caIs env (nd_store (fl_node b)) v c"
    and "WriteMetadata (be_storage env) v meta (nd_store (fl_node b)) = (r, s')"
  shows "flow_inv env (b\<lparr>fl_node := (fl_node b)\<lparr>nd_store := s'\<rparr>\<rparr>)"
proof -
  let ?n = "fl_node b" and ?st = "be_storage env"
  have files: "ReadFile ?st s' = ReadFile ?st (nd_store ?n)"
    using WriteMetadata_files [OF bundle_env_names(6) [OF assms(1)] assms(6)] .
  have "visit_knows env (?n\<lparr>nd_store := s'\<rparr>) q = visit_knows env ?n q" for q
    by (rule visit_knows_cong) (simp_all add: files)
  moreover have "node_inv env ?n" using assms(3) by (simp add: flow_inv_def)
  ultimately have inv: "node_inv env (?n\<lparr>nd_store := s'\<rparr>)"
    by (simp add: node_inv_def files)
  have keep: "managed ?st s' u" if "managed ?st (nd_store ?n) u" for u
    using assms(2,6) that unfolding storage_keeps_def by metis
  have new: "u = v \<or> managed ?st (nd_store ?n) u" if "managed ?st s' u" for u
    using bundle_env_names(7) [OF assms(1)] assms(6) that unfolding storage_atomic_def by metis
  have up: "upToDate env (?n\<lparr>nd_store := s'\<rparr>) u" if "u = v \<or> upToDate env ?n u" for u
    using that assms(4,5) by (auto simp: upToDate_def files)
  have "covered env (b\<lparr>fl_node := ?n\<lparr>nd_store := s'\<rparr>\<rparr>)" if "covered env b"
    using that new up by (auto simp: covered_def)
  with assms(3) inv keep show ?thesis by (auto simp: flow_inv_def flow_pending_def)
qed

lemma flow_inv_issue:
  assumes "bundle_env_ok env" and "flow_inv env b"
    and "managed (be_storage env) (nd_store (fl_node b)) (md_VolumeID meta)"
    and "node_call env (Issue meta key chain) (fl_node b) = Some n"
  shows "flow_inv env (b\<lparr>fl_node := n\<rparr>)"
proof -
  have inv: "node_inv env n" using node_inv_call [OF assms(1) _ assms(4)] assms(2) by (simp add: flow_inv_def)
  have n: "n = (fl_node b)\<lparr>nd_jobs := (nd_jobs (fl_node b))(md_VolumeID meta \<mapsto>
      \<lparr>job_meta = meta, job_key = key, job_chain = chain, job_pc = IStart\<rparr>)\<rparr>"
    using assms(4) by (auto split: if_splits)
  have "upToDate env n v" if "upToDate env (fl_node b) v" for v
    using that by (simp add: n upToDate_def)
  then have "covered env (b\<lparr>fl_node := n\<rparr>)" if "covered env b"
    using that by (auto simp: covered_def n)
  with assms(2,3) inv show ?thesis by (auto simp: flow_inv_def flow_pending_def n)
qed

lemma flow_inv_issuing:
  assumes "bundle_env_ok env" and "storage_keeps (be_storage env)" and "flow_inv env b"
    and "node_call env (IssueCall v) (fl_node b) = Some n"
  shows "flow_inv env (b\<lparr>fl_node := n\<rparr>)"
proof -
  obtain j where j: "nd_jobs (fl_node b) v = Some j" and n: "n = issue_call env v j (fl_node b)"
    using assms(4) by (auto split: option.splits)
  have inv0: "node_inv env (fl_node b)" and m: "managed (be_storage env) (nd_store (fl_node b)) v"
    using assms(3) j by (auto simp: flow_inv_def)
  have id: "md_VolumeID (job_meta j) = v" using inv0 j by (simp add: node_inv_def)
  note managed = issue_call_managed [OF assms(1,2) id m, folded n]
  have inv: "node_inv env n" using node_inv_call [OF assms(1) inv0 assms(4)] .
  have frame: "nd_pem n = nd_pem (fl_node b)" "nd_visit n = nd_visit (fl_node b)"
    "nd_volume n = nd_volume (fl_node b)" "nd_current n = nd_current (fl_node b)"
    "u \<noteq> v \<Longrightarrow> nd_jobs n u = nd_jobs (fl_node b) u" for u
    by (simp_all add: n)
  have "covered env (b\<lparr>fl_node := n\<rparr>)" if "covered env b"
    using that issue_keeps_upToDate [OF assms(1) inv0 j, folded n] by (auto simp: covered_def frame managed)
  moreover have "managed (be_storage env) (nd_store (fl_node b)) u" if "nd_jobs n u \<noteq> None" for u
    using that assms(3) m frame(5) by (cases "u = v") (auto simp: flow_inv_def)
  ultimately show ?thesis using assms(3) inv by (auto simp: flow_inv_def flow_pending_def frame managed)
qed

lemma flow_inv_step:
  assumes "bundle_env_ok env" and "storage_keeps (be_storage env)" and "flow_inv env b"
    and "flow_step env b b'"
  shows "flow_inv env b'"
  using assms(4)
proof cases
  case (flow_source f e)
  then show ?thesis using flow_inv_source [OF assms(3)] by simp
next
  case flow_watch
  then show ?thesis using assms(3)
    by (auto simp: flow_inv_def flow_pending_def fileca.rcv_pending fileca.rcv_pem takeOne_def)
next
  case (flow_list vs)
  then show ?thesis using flow_inv_list [OF assms(3)] by simp
next
  case (flow_visit v vs n)
  then show ?thesis using flow_inv_visit [OF assms(1,3)] by simp
next
  case (flow_call vs n)
  then show ?thesis using flow_inv_visited(1) [OF assms(1,3)] by simp
next
  case (flow_failed vs n err)
  then show ?thesis using flow_inv_visited(2) [OF assms(1,3)] by simp
next
  case (flow_register v meta r s')
  then show ?thesis using flow_inv_register [OF assms(1-3)] by simp
next
  case (flow_issue meta key chain n)
  then show ?thesis using flow_inv_issue [OF assms(1,3)] by simp
next
  case (flow_issuing v n)
  then show ?thesis using flow_inv_issuing [OF assms(1-3)] by simp
qed (use assms(3) in \<open>auto simp: flow_inv_def flow_pending_def covered_def\<close>)

lemma flow_inv_steps:
  assumes "bundle_env_ok env" and "storage_keeps (be_storage env)"
    and "(flow_step env)\<^sup>*\<^sup>* b b'" and "flow_inv env b"
  shows "flow_inv env b'"
  using assms(3,4) by (induction rule: rtranclp_induct) (auto intro: flow_inv_step [OF assms(1,2)])

lemma flow_inv_init:
  assumes "flow_init f s = (be_channel env, b)" and "consistent env (file_CertificatesPEM f) s"
  shows "flow_inv env b"
proof -
  have b: "fl_node b = node_init (file_CertificatesPEM f) s" "fl_pc b = FSelect"
    "be_channel env < length (f_subscribers (fl_file b))" "file_CertificatesPEM (fl_file b) = file_CertificatesPEM f"
    using assms(1) by (auto simp: flow_init_def file_Subscribe_def file_CertificatesPEM_def)
  have "covered env b" using assms(2) by (simp add: covered_def b upToDate_def node_init_def consistent_def)
  then show ?thesis using b node_inv_init by (simp add: flow_inv_def node_init_def)
qed

section \<open>Lemmas: operations without interruption\<close>

lemma iterate_done: "f x = x \<Longrightarrow> (f ^^ k) x = x"
  by (induction k) simp_all

text \<open>A visit that is not interrupted runs to its end, and then the update goes on or is given up.\<close>

lemma flow_runs_visit:
  assumes "((\<lambda>(q, s). visit_next (be_storage env) (d_camanager (be_driver env)) (nd_volume n) (nd_pem n) q s) ^^ k)
      (nd_visit n, nd_store n) = (VDone r, s')"
    and "visiting (nd_visit n)" and "fl_node b = n" and "fl_pc b = FUpdating vs"
  shows "\<exists>n'. (flow_step env)\<^sup>*\<^sup>* b
      (case r of None \<Rightarrow> b\<lparr>fl_node := n'\<rparr>
       | Some err \<Rightarrow> b\<lparr>fl_pc := FSelect, fl_timers := fl_timers b + 1, fl_node := n'\<rparr>)
    \<and> nd_store n' = s' \<and> nd_visit n' = VDone r \<and> nd_pem n' = nd_pem n \<and> nd_jobs n' = nd_jobs n
    \<and> nd_stale n' \<subseteq> nd_stale n"
  using assms
proof (induction k arbitrary: n b)
  case (Suc k)
  let ?f = "\<lambda>(q, s). visit_next (be_storage env) (d_camanager (be_driver env)) (nd_volume n) (nd_pem n) q s"
  let ?n1 = "visit_call env n"
  obtain q s1 where q: "visit_next (be_storage env) (d_camanager (be_driver env)) (nd_volume n) (nd_pem n)
      (nd_visit n) (nd_store n) = (q, s1)" by fastforce
  have n1: "nd_visit ?n1 = q" "nd_store ?n1 = s1" by (simp_all add: visit_call_def q)
  have rest: "(?f ^^ k) (q, s1) = (VDone r, s')"
    using Suc.prems(1) q by (simp del: funpow.simps add: funpow_Suc_right)
  have call: "node_call env VisitCall (fl_node b) = Some ?n1" using Suc.prems(2,3) by simp
  show ?case
  proof (cases "visiting q")
    case True
    then have "\<nexists>err. nd_visit ?n1 = VDone (Some err)" using n1(1) by auto
    then have "flow_step env b (b\<lparr>fl_node := ?n1\<rparr>)" using flow_call [OF Suc.prems(4) call] by blast
    moreover have "visiting (nd_visit ?n1)" using True n1(1) by simp
    then obtain n' where "(flow_step env)\<^sup>*\<^sup>* (b\<lparr>fl_node := ?n1\<rparr>)
        (case r of None \<Rightarrow> b\<lparr>fl_node := n'\<rparr>
         | Some err \<Rightarrow> b\<lparr>fl_pc := FSelect, fl_timers := fl_timers b + 1, fl_node := n'\<rparr>)"
      "nd_store n' = s'" "nd_visit n' = VDone r" "nd_pem n' = nd_pem n" "nd_jobs n' = nd_jobs n"
      "nd_stale n' \<subseteq> nd_stale ?n1"
      using Suc.IH [of ?n1 "b\<lparr>fl_node := ?n1\<rparr>"] rest n1 Suc.prems(4) by (cases r) auto
    ultimately show ?thesis
      using visit_call_stale [of env n]
      by (intro exI [of _ n']) (blast intro: converse_rtranclp_into_rtranclp)
  next
    case False
    then obtain r1 where r1: "q = VDone r1" by (cases q) simp_all
    then have "(q, s1) = (VDone r, s')" using rest iterate_done [of ?f "(q, s1)" k] by simp
    then have r: "nd_visit ?n1 = VDone r" "nd_store ?n1 = s'" using n1 by simp_all
    have "flow_step env b (case r of None \<Rightarrow> b\<lparr>fl_node := ?n1\<rparr>
       | Some err \<Rightarrow> b\<lparr>fl_pc := FSelect, fl_timers := fl_timers b + 1, fl_node := ?n1\<rparr>)"
      using flow_call [OF Suc.prems(4) call] flow_failed [OF Suc.prems(4) call] r(1)
      by (cases r) simp_all
    with r visit_call_stale show ?thesis by (intro exI [of _ ?n1] conjI r_into_rtranclp) simp_all
  qed
qed simp

text \<open>The loop of \<open>updateRootCAFiles\<close>.\<close>

lemma flow_runs_volumes:
  assumes "updateVolumes (be_storage env) (d_camanager (be_driver env)) (\<lambda>_. nd_pem (fl_node b)) vs k
      (nd_store (fl_node b)) = (r, s')"
    and "\<not> visiting (nd_visit (fl_node b))" and "fl_pc b = FUpdating vs"
  shows "\<exists>n. (flow_step env)\<^sup>*\<^sup>* b
      (b\<lparr>fl_pc := FSelect, fl_timers := fl_timers b + (if r = None then 0 else 1), fl_node := n\<rparr>)
    \<and> nd_store n = s' \<and> \<not> visiting (nd_visit n) \<and> nd_jobs n = nd_jobs (fl_node b)
    \<and> nd_stale n \<subseteq> nd_stale (fl_node b)"
  using assms
proof (induction vs arbitrary: k b)
  case Nil
  then have "flow_step env b (b\<lparr>fl_pc := FSelect\<rparr>)"
    by (intro flow_updated) simp_all
  with Nil show ?case by (intro exI [of _ "fl_node b"]) (auto simp: r_into_rtranclp)
next
  case (Cons v vs)
  let ?n0 = "(fl_node b)\<lparr>nd_volume := v, nd_visit := VStart, nd_current := True\<rparr>"
  let ?b0 = "b\<lparr>fl_pc := FUpdating vs, fl_node := ?n0\<rparr>"
  obtain r1 k1 s1 where v: "updateVolume (be_storage env) (d_camanager (be_driver env))
      (\<lambda>_. nd_pem (fl_node b)) v k (nd_store (fl_node b)) = (r1, k1, s1)" by (metis prod_cases3)
  have start: "flow_step env b ?b0"
    using Cons.prems(2,3) by (intro flow_visit [of _ v]) auto
  have iter: "((\<lambda>(q, s). visit_next (be_storage env) (d_camanager (be_driver env)) (nd_volume ?n0) (nd_pem ?n0) q s)
      ^^ 7) (nd_visit ?n0, nd_store ?n0) = (VDone r1, s1)"
    using visit_alone [of "be_storage env" "d_camanager (be_driver env)" v "nd_pem (fl_node b)"
        "nd_store (fl_node b)" k] v by simp
  obtain n1 where steps: "(flow_step env)\<^sup>*\<^sup>* ?b0 (case r1 of None \<Rightarrow> ?b0\<lparr>fl_node := n1\<rparr>
       | Some err \<Rightarrow> ?b0\<lparr>fl_pc := FSelect, fl_timers := fl_timers ?b0 + 1, fl_node := n1\<rparr>)"
    and n1: "nd_store n1 = s1" "nd_visit n1 = VDone r1" "nd_pem n1 = nd_pem ?n0" "nd_jobs n1 = nd_jobs ?n0"
      "nd_stale n1 \<subseteq> nd_stale ?n0"
    using flow_runs_visit [OF iter, where b = ?b0 and vs = vs] by fastforce
  have free: "\<not> visiting (nd_visit n1)" using n1(2) by simp
  show ?case
  proof (cases r1)
    case None
    then have "updateVolumes (be_storage env) (d_camanager (be_driver env)) (\<lambda>_. nd_pem n1) vs k1 (nd_store n1)
        = (r, s')" using Cons.prems(1) v n1 by simp
    from Cons.IH [of "?b0\<lparr>fl_node := n1\<rparr>" k1] this free obtain n2 where
      "(flow_step env)\<^sup>*\<^sup>* (?b0\<lparr>fl_node := n1\<rparr>)
        (b\<lparr>fl_pc := FSelect, fl_timers := fl_timers b + (if r = None then 0 else 1), fl_node := n2\<rparr>)"
      "nd_store n2 = s'" "\<not> visiting (nd_visit n2)" "nd_jobs n2 = nd_jobs n1" "nd_stale n2 \<subseteq> nd_stale n1" by auto
    with start steps None n1(4,5) show ?thesis
      by (intro exI [of _ n2]) (auto intro: converse_rtranclp_into_rtranclp rtranclp_trans)
  next
    case (Some err)
    then have "r = Some err" "s' = s1" using Cons.prems(1) v by simp_all
    with start steps Some n1 free show ?thesis
      by (intro exI [of _ n1]) (auto intro: converse_rtranclp_into_rtranclp)
  qed
qed

text \<open>An update that is not interrupted.\<close>

lemma flow_runs_update:
  assumes "bundle_env_ok env" and "\<not> visiting (nd_visit (fl_node b))"
    and "fl_pc b = FSelect" and "0 < fl_chan b"
    and "updateRootCAFiles (be_storage env) (d_camanager (be_driver env)) (\<lambda>_. nd_pem (fl_node b))
           (nd_store (fl_node b)) = (r, s')"
  shows "\<exists>n. (flow_step env)\<^sup>*\<^sup>* b
      (b\<lparr>fl_chan := fl_chan b - 1, fl_timers := fl_timers b + (if r = None then 0 else 1), fl_node := n\<rparr>)
    \<and> nd_store n = s' \<and> \<not> visiting (nd_visit n) \<and> nd_jobs n = nd_jobs (fl_node b)
    \<and> nd_stale n \<subseteq> nd_stale (fl_node b)"
proof (cases "ListVolumes (be_storage env) (nd_store (fl_node b))")
  case (Inl err)
  then have "r \<noteq> None" "s' = nd_store (fl_node b)"
    using assms(1,5) by (auto simp: updateRootCAFiles_def bundle_env_ok_def newCAManager_def)
  with flow_list_failed [OF assms(3,4) Inl] assms(2) show ?thesis
    by (intro exI [of _ "fl_node b"]) (auto simp: r_into_rtranclp)
next
  case (Inr vs)
  let ?b = "b\<lparr>fl_pc := FUpdating vs, fl_chan := fl_chan b - 1\<rparr>"
  have "updateVolumes (be_storage env) (d_camanager (be_driver env)) (\<lambda>_. nd_pem (fl_node ?b)) vs 0
      (nd_store (fl_node ?b)) = (r, s')"
    using assms(1,5) Inr by (auto simp: updateRootCAFiles_def bundle_env_ok_def newCAManager_def)
  from flow_runs_volumes [OF this] assms(2) obtain n where
    steps: "(flow_step env)\<^sup>*\<^sup>* ?b (?b\<lparr>fl_pc := FSelect,
       fl_timers := fl_timers ?b + (if r = None then 0 else 1), fl_node := n\<rparr>)"
    and n: "nd_store n = s'" "\<not> visiting (nd_visit n)" "nd_jobs n = nd_jobs (fl_node b)"
      "nd_stale n \<subseteq> nd_stale (fl_node b)" by (simp add: exI) blast
  have "?b\<lparr>fl_pc := FSelect, fl_timers := fl_timers ?b + (if r = None then 0 else 1), fl_node := n\<rparr>
      = b\<lparr>fl_chan := fl_chan b - 1, fl_timers := fl_timers b + (if r = None then 0 else 1), fl_node := n\<rparr>"
    using assms(3) by simp
  with converse_rtranclp_into_rtranclp [OF flow_list [OF assms(3,4) Inr] steps] n show ?thesis by auto
qed

text \<open>Calls of an issuance in a row.\<close>

lemma flow_of_issue:
  "node_run env (replicate k (IssueCall v)) (fl_node b) = Some n \<Longrightarrow>
   (flow_step env)\<^sup>*\<^sup>* b (b\<lparr>fl_node := n\<rparr>)"
proof (induction k arbitrary: b)
  case (Suc k)
  then obtain n1 where n1: "node_call env (IssueCall v) (fl_node b) = Some n1"
    and rest: "node_run env (replicate k (IssueCall v)) (fl_node (b\<lparr>fl_node := n1\<rparr>)) = Some n"
    by (auto split: option.splits)
  from flow_issuing [OF n1] Suc.IH [OF rest] show ?case by (auto intro: converse_rtranclp_into_rtranclp)
qed auto

text \<open>The file is rewritten while the manager waits: its notification becomes a message.\<close>

lemma flow_rewrites:
  assumes "fl_pc b = FSelect" and "fl_chan b = 0" and "be_channel env < length (f_subscribers (fl_file b))"
    and "f_subscribers (fl_file b) ! be_channel env = 0" and "f_running (fl_file b)"
    and "p \<noteq> file_CertificatesPEM (fl_file b)"
  shows "\<exists>f. (flow_step env)\<^sup>*\<^sup>* b (b\<lparr>fl_chan := 1, fl_file := f, fl_node := follow f (fl_node b)\<rparr>)
    \<and> file_CertificatesPEM f = p \<and> f_subscribers f ! be_channel env = 0"
proof -
  define f where "f = file_start (be_ops env) (fl_file b) (FsEvent (fs_Write (be_ops env)) None None (Inr p))"
  define g where "g = file_receive (be_channel env) f"
  have f: "file_CertificatesPEM f = p" "f_subscribers f = map Suc (f_subscribers (fl_file b))"
    using assms(5,6) by (auto simp: f_def reloadCertificatesPEM_def broadcast_def file_CertificatesPEM_def)
  have g: "file_CertificatesPEM g = p" "f_subscribers g ! be_channel env = 0"
    "follow g (fl_node b) = follow f (fl_node b)"
    using f assms(3,4) by (simp_all add: g_def fileca.rcv_pem fileca.rcv_pending takeOne_def follow_def)
  let ?b1 = "b\<lparr>fl_file := f, fl_node := follow f (fl_node b)\<rparr>"
  let ?b2 = "?b1\<lparr>fl_pc := FSending, fl_file := g\<rparr>"
  let ?b3 = "b\<lparr>fl_chan := 1, fl_file := g, fl_node := follow g (fl_node b)\<rparr>"
  have "?b2\<lparr>fl_pc := FSelect, fl_chan := fl_chan ?b2 + 1\<rparr> = ?b3" using assms(1,2) g(3) by (cases b) simp
  moreover have "flow_step env ?b2 (?b2\<lparr>fl_pc := FSelect, fl_chan := fl_chan ?b2 + 1\<rparr>)"
    using assms(2) by (intro flow_send) simp_all
  ultimately have 3: "flow_step env ?b2 ?b3" by (simp only:)
  have 1: "flow_step env b ?b1" by (rule flow_source [OF f_def])
  have 2: "flow_step env ?b1 ?b2"
    using flow_watch [of ?b1 env] assms(1,3) f by (simp add: g_def)
  have "(flow_step env)\<^sup>*\<^sup>* b ?b3"
    by (rule rtranclp.rtrancl_into_rtrancl [OF rtranclp.rtrancl_into_rtrancl [OF r_into_rtranclp [of "flow_step env", OF 1] 2] 3])
  with g show ?thesis by blast
qed

section \<open>An instance\<close>

lemma exampleStorage_keeps: "storage_keeps exampleStorage"
  by (auto simp: storage_keeps_def managed_def exampleStorage_def)

text \<open>
  The manager does not update the volumes when it starts, it waits for a change: a bundle that
  changed while the driver was down stays out of the volumes (until they are renewed). So the
  first property below starts on volumes that hold no older bundle.
\<close>

lemma start_does_not_update:
  "\<exists>b :: (unit, volumes) flow. flow_init exampleFile exampleVolumes = (be_channel exampleBundleEnv, b)
     \<and> flow_pending exampleBundleEnv b = 0
     \<and> \<not> consistent exampleBundleEnv (file_CertificatesPEM (fl_file b)) (nd_store (fl_node b))"
  using driver_New_names [OF exampleBundleDriver_New]
  by (simp add: flow_init_def file_Subscribe_def exampleFile_def flow_pending_def exampleBundleEnv_def
      node_init_def consistent_def managed_def file_CertificatesPEM_def exampleVolumes_simps)

text \<open>The file is rewritten, the manager has taken the notification.\<close>

definition exampleFlow :: "nat \<Rightarrow> flow_pc \<Rightarrow> nat \<Rightarrow> (unit, volumes) flow" where
  "exampleFlow sub pc chan =
     \<lparr>fl_file = \<lparr>f_filepath = ''/ca.pem'', f_certificatesPEM = [4], f_subscribers = [sub], f_running = True\<rparr>,
      fl_pc = pc, fl_chan = chan, fl_timers = 0, fl_retries = 0, fl_cancelled = False,
      fl_node = (node_init [3] exampleVolumes)\<lparr>nd_pem := [4]\<rparr>\<rparr>"

lemma example_flow_notified:
  assumes "flow_init (exampleFile\<lparr>f_certificatesPEM := [3]\<rparr>) exampleVolumes = (i, b)"
  shows "(flow_step exampleBundleEnv)\<^sup>*\<^sup>* b (exampleFlow 0 FSelect 1)"
proof -
  let ?e = "FsEvent 2 None None (Inr [4])"
  let ?f = "file_start (be_ops exampleBundleEnv) (fl_file b) ?e"
  have "b\<lparr>fl_file := ?f, fl_node := follow ?f (fl_node b)\<rparr> = exampleFlow 1 FSelect 0"
    using assms by (auto simp: flow_init_def file_Subscribe_def exampleFile_def exampleBundleEnv_def exampleOps_def
        reloadCertificatesPEM_def broadcast_def exampleFlow_def follow_def file_CertificatesPEM_def node_init_def)
  then have "flow_step exampleBundleEnv b (exampleFlow 1 FSelect 0)"
    using flow_source [of ?f exampleBundleEnv b ?e] by simp
  moreover have "flow_step exampleBundleEnv (exampleFlow 1 FSelect 0) (exampleFlow 0 FSending 0)"
    using flow_watch [of "exampleFlow 1 FSelect 0" exampleBundleEnv]
    by (simp add: exampleBundleEnv_def exampleFlow_def file_receive_def takeOne_def)
  moreover have "flow_step exampleBundleEnv (exampleFlow 0 FSending 0) (exampleFlow 0 FSelect 1)"
    using flow_send [of "exampleFlow 0 FSending 0" exampleBundleEnv] by (simp add: exampleFlow_def)
  ultimately show ?thesis by (meson converse_rtranclp_into_rtranclp rtranclp.rtrancl_refl)
qed

lemma example_flow_update:
  "\<exists>s'. updateRootCAFiles exampleStorage (d_camanager (be_driver exampleBundleEnv))
      (\<lambda>_. nd_pem (fl_node (exampleFlow 0 FSelect 1))) (nd_store (fl_node (exampleFlow 0 FSelect 1))) = (None, s')
    \<and> vol_ids s' = [''v1''] \<and> ReadFile exampleStorage s' ''v1'' ''ca.crt'' = Inr [4]"
  by (simp add: updateRootCAFiles_def updateVolume_def exampleVolumes_simps exampleFlow_def node_init_def
      exampleBundleEnv_def exampleBundle_manager)

lemma example_flow_idle: "idle (fl_node (exampleFlow i pc k))"
  by (simp add: exampleFlow_def idle_def node_init_def)

section \<open>Properties\<close>

text \<open>C4: A volume keeps an old bundle in one way only. Let the CA file name be the one both write, and
  start the CA manager on volumes that hold no older bundle. Then, however changes of the file,
  calls of the updates, failures, retries, registrations of volumes and issuances are interleaved,
  whenever the loop of a live manager is not in an update and no notification, message or retry is
  on its way, every managed volume that has a CA file holds the current bundle, unless the last to
  write its files was an issuance whose bundle had been replaced since it was read.\<close>

theorem bundle_current_unless_late:
  assumes "bundle_env_ok env" and "storage_keeps (be_storage env)"
    and "flow_init f s = (be_channel env, b)" and "consistent env (file_CertificatesPEM f) s"
    and "(flow_step env)\<^sup>*\<^sup>* b b'" and "\<not> fl_cancelled b'" and "flow_pending env b' = 0"
    and "\<nexists>vs. fl_pc b' = FUpdating vs"
    and "managed (be_storage env) (nd_store (fl_node b')) v"
    and "ReadFile (be_storage env) (nd_store (fl_node b')) v (d_caFileName (be_driver env)) = Inr c"
    and "v \<notin> nd_stale (fl_node b')"
  shows "c = file_CertificatesPEM (fl_file b')"
proof -
  have inv: "flow_inv env b'" using flow_inv_steps [OF assms(1,2,5) flow_inv_init [OF assms(3,4)]] .
  then have "\<not> visiting (nd_visit (fl_node b'))" and "covered env b'"
    using assms(6-8) by (auto simp: flow_inv_def)
  moreover have "toVisit (fl_pc b') = []" using assms(8) by (cases "fl_pc b'") auto
  ultimately have "upToDate env (fl_node b') v" using assms(9) by (auto simp: covered_def)
  with assms(10,11) inv show ?thesis by (simp add: upToDate_def flow_inv_def)
qed

theorem bundle_current_unless_late_witness:
  "\<exists>b b'. flow_init (exampleFile\<lparr>f_certificatesPEM := [3]\<rparr>) exampleVolumes = (0, b)
     \<and> (flow_step exampleBundleEnv)\<^sup>*\<^sup>* b b'
     \<and> ReadFile exampleStorage (nd_store (fl_node b')) ''v1'' ''ca.crt'' = Inr [4]"
proof -
  let ?f = "exampleFile\<lparr>f_certificatesPEM := [3]\<rparr>"
  obtain b :: "(unit, volumes) flow" where b: "flow_init ?f exampleVolumes = (be_channel exampleBundleEnv, b)"
    by (simp add: flow_init_def file_Subscribe_def exampleFile_def exampleBundleEnv_def)
  obtain s' where u: "updateRootCAFiles (be_storage exampleBundleEnv) (d_camanager (be_driver exampleBundleEnv))
      (\<lambda>_. nd_pem (fl_node (exampleFlow 0 FSelect 1))) (nd_store (fl_node (exampleFlow 0 FSelect 1))) = (None, s')"
    and s': "vol_ids s' = [''v1'']" and ca: "\<exists>c. ReadFile exampleStorage s' ''v1'' ''ca.crt'' = Inr c"
    using example_flow_update unfolding exampleBundleEnv_simps by blast
  obtain n where n: "nd_store n = s'" "nd_stale n = {}" and run: "(flow_step exampleBundleEnv)\<^sup>*\<^sup>* b
      ((exampleFlow 0 FSelect 1)\<lparr>fl_chan := 0, fl_node := n\<rparr>)" (is "(flow_step exampleBundleEnv)\<^sup>*\<^sup>* b ?b'")
    using flow_runs_update [OF exampleBundleEnv_ok _ _ _ u] example_flow_idle [of 0 FSelect 1]
      rtranclp_trans [OF example_flow_notified [OF b]] by (auto simp: exampleFlow_def idle_def node_init_def)
  have "consistent exampleBundleEnv (file_CertificatesPEM ?f) exampleVolumes"
    unfolding consistent_def exampleBundleEnv_simps
    by (simp add: managed_def exampleVolumes_simps file_CertificatesPEM_def)
  moreover have "storage_keeps (be_storage exampleBundleEnv)"
    by (simp add: exampleBundleEnv_simps exampleStorage_keeps)
  moreover have "flow_pending exampleBundleEnv ?b' = 0" "\<not> fl_cancelled ?b'" "\<nexists>vs. fl_pc ?b' = FUpdating vs"
    "file_CertificatesPEM (fl_file ?b') = [4]" "managed exampleStorage s' ''v1''"
    by (simp_all add: flow_pending_def exampleFlow_def exampleBundleEnv_def file_CertificatesPEM_def managed_def
        exampleStorage_def s')
  ultimately have "ReadFile exampleStorage s' ''v1'' ''ca.crt'' = Inr [4]"
    using bundle_current_unless_late [OF exampleBundleEnv_ok _ b _ run, of "''v1''"] ca n
    unfolding exampleBundleEnv_simps by auto
  with b run n show ?thesis by (auto simp: exampleBundleEnv_def)
qed

text \<open>C11: Such late issuances exist, as the code takes no lock, and then the bundle gets lost. Take a volume
  that holds the bundle \<open>p0\<close>, a certificate issued for it, and a change of the file to \<open>p\<close> after
  the issuance has read \<open>p0\<close>: there is a run of the code at the end of which everything is at
  rest, no notification, message or retry is on its way, every call has succeeded, and the volume
  holds \<open>p0\<close>.\<close>

theorem bundle_race:
  assumes "renewal env s v c0 k0 p0 meta key chain kb" and "managed (be_storage env) s v"
    and "flow_init f s = (be_channel env, b)" and "file_CertificatesPEM f = p0" and "f_running f" and "p \<noteq> p0"
    and "updateRootCAFiles (be_storage env) (d_camanager (be_driver env)) (\<lambda>_. p) s = (None, s')"
  shows "\<exists>b'. (flow_step env)\<^sup>*\<^sup>* b b' \<and> \<not> fl_cancelled b' \<and> flow_pending env b' = 0 \<and> fl_pc b' = FSelect
    \<and> idle (fl_node b') \<and> file_CertificatesPEM (fl_file b') = p
    \<and> ReadFile (be_storage env) (nd_store (fl_node b')) v (d_caFileName (be_driver env)) = Inr p0"
proof -
  have env: "bundle_env_ok env" and id: "md_VolumeID meta = v" using assms(1) by (simp_all add: renewal_def)
  define kp where "kp = EncodeToMemory ''PRIVATE KEY'' kb"
  define j where "j t = \<lparr>job_meta = meta, job_key = key, job_chain = chain, job_pc = IFiles kp p0 t\<rparr>" for t
  have b: "fl_node b = node_init p0 s" "fl_pc b = FSelect" "fl_chan b = 0" "fl_timers b = 0" "fl_retries b = 0"
    "\<not> fl_cancelled b" "f_running (fl_file b)" "be_channel env < length (f_subscribers (fl_file b))"
    "f_subscribers (fl_file b) ! be_channel env = 0" "p \<noteq> file_CertificatesPEM (fl_file b)"
    using assms(3-6) by (auto simp: flow_init_def file_Subscribe_def file_CertificatesPEM_def nth_append)
  obtain n0 t where n0: "node_call env (Issue meta key chain) (fl_node b) = Some n0"
    and n1: "node_run env (replicate 1 (IssueCall v)) n0 = Some ((node_init p0 s)\<lparr>nd_jobs := [v \<mapsto> j t]\<rparr>)"
    using issue_begins [OF assms(1), of "node_init p0 s"] by (auto simp: b node_init_def j_def kp_def split: option.splits)
  let ?b1 = "b\<lparr>fl_node := (node_init p0 s)\<lparr>nd_jobs := [v \<mapsto> j t]\<rparr>\<rparr>"
  have "flow_step env b (b\<lparr>fl_node := n0\<rparr>)"
    using flow_issue [OF _ n0] assms(2) id by (simp add: b(1) node_init_def)
  with flow_of_issue [of env 1 v "b\<lparr>fl_node := n0\<rparr>"] n1
  have 1: "(flow_step env)\<^sup>*\<^sup>* b ?b1" by (auto intro: converse_rtranclp_into_rtranclp)
  obtain g where 2: "(flow_step env)\<^sup>*\<^sup>* ?b1 (?b1\<lparr>fl_chan := 1, fl_file := g, fl_node := follow g (fl_node ?b1)\<rparr>)"
    (is "(flow_step env)\<^sup>*\<^sup>* _ ?b2") and g: "file_CertificatesPEM g = p" "f_subscribers g ! be_channel env = 0"
    using flow_rewrites [of ?b1 env p] b by auto
  have n2: "nd_pem (fl_node ?b2) = p" "nd_jobs (fl_node ?b2) = [v \<mapsto> j t]" "nd_store (fl_node ?b2) = s"
    "\<not> visiting (nd_visit (fl_node ?b2))" using g assms(6) by (simp_all add: follow_def node_init_def)
  obtain n3 where 3: "(flow_step env)\<^sup>*\<^sup>* ?b2 (?b2\<lparr>fl_chan := 0, fl_timers := fl_timers b, fl_node := n3\<rparr>)"
    (is "(flow_step env)\<^sup>*\<^sup>* _ ?b3") and n3: "\<not> visiting (nd_visit n3)" "nd_jobs n3 = [v \<mapsto> j t]"
    using flow_runs_update [OF env n2(4), of None s'] n2 assms(7) b(2) by auto
  obtain n4 where 4: "node_run env (replicate 2 (IssueCall v)) n3 = Some n4"
    and n4: "nd_jobs n4 = Map.empty" "nd_visit n4 = nd_visit n3" "caIs env (nd_store n4) v p0"
    using issue_ends [OF assms(1), of n3 kp p0 t] n3(2) by (auto simp: j_def numeral_2_eq_2)
  have "(flow_step env)\<^sup>*\<^sup>* b (?b3\<lparr>fl_node := n4\<rparr>)"
    using 1 2 3 flow_of_issue [of env 2 v ?b3] 4 by (auto intro: rtranclp_trans)
  with b g n3(1) n4 show ?thesis
    by (intro exI [of _ "?b3\<lparr>fl_node := n4\<rparr>"]) (simp add: flow_pending_def idle_def)
qed

theorem bundle_race_witness:
  "\<exists>b b'. flow_init (exampleFile\<lparr>f_certificatesPEM := [3]\<rparr>) exampleVolumes = (0, b)
     \<and> (flow_step exampleBundleEnv)\<^sup>*\<^sup>* b b' \<and> flow_pending exampleBundleEnv b' = 0
     \<and> file_CertificatesPEM (fl_file b') = [4]
     \<and> ReadFile exampleStorage (nd_store (fl_node b')) ''v1'' ''ca.crt'' = Inr [3]"
proof -
  let ?f = "exampleFile\<lparr>f_certificatesPEM := [3]\<rparr>"
  obtain b :: "(unit, volumes) flow" where b: "flow_init ?f exampleVolumes = (be_channel exampleBundleEnv, b)"
    by (simp add: flow_init_def file_Subscribe_def exampleFile_def exampleBundleEnv_def)
  have m: "managed (be_storage exampleBundleEnv) exampleVolumes ''v1''" and ne: "[4] \<noteq> ([3] :: bytes)"
    and f: "file_CertificatesPEM ?f = [3]" "f_running ?f"
    by (simp_all add: exampleBundleEnv_simps managed_def exampleVolumes_simps file_CertificatesPEM_def exampleFile_def)
  obtain s' where "updateRootCAFiles (be_storage exampleBundleEnv) (d_camanager (be_driver exampleBundleEnv))
      (\<lambda>_. [4]) exampleVolumes = (None, s')"
    using example_flow_update by (auto simp: exampleFlow_def node_init_def exampleBundleEnv_simps)
  from bundle_race [OF example_renewal m b f ne this, unfolded exampleBundleEnv_simps]
  have "\<exists>b'. (flow_step exampleBundleEnv)\<^sup>*\<^sup>* b b' \<and> flow_pending exampleBundleEnv b' = 0
      \<and> file_CertificatesPEM (fl_file b') = [4]
      \<and> ReadFile exampleStorage (nd_store (fl_node b')) ''v1'' ''ca.crt'' = Inr [3]" by blast
  moreover have "be_channel exampleBundleEnv = 0" by (simp add: exampleBundleEnv_def)
  ultimately show ?thesis using b by auto
qed

end
